(* ===== verification/Prelude.thy ===== *)
theory Prelude
  imports Main "HOL-Library.AList" "HOL-Library.State_Monad"
begin

text \<open>
  Shared vocabulary of the development: instants and durations, machine-integer casts, hash maps
  in their iteration order, the result type of the crate, and the process state (clock, UUID
  generator, environment variables, telemetry, sleeps, store) threaded through asynchronous code
  by the state monad.
\<close>

named_theorems hm_simps \<open>lookup, key and length facts of hash maps\<close>
named_theorems world_simps \<open>unfolding of the process-state actions\<close>

section \<open>Time\<close>

text \<open>
  An instant (\<^verbatim>\<open>chrono::DateTime<Utc>\<close>) is its distance from the Unix epoch in nanoseconds, the
  resolution chrono keeps; a duration is a number of nanoseconds. Reading a duration back in
  seconds or milliseconds truncates toward zero, as \<^verbatim>\<open>num_seconds\<close> and \<^verbatim>\<open>num_milliseconds\<close> do.
\<close>

type_synonym time = int

abbreviation (input) nanos_per_ms :: int where "nanos_per_ms \<equiv> 1000000"
abbreviation (input) nanos_per_sec :: int where "nanos_per_sec \<equiv> 1000000000"

definition add_secs :: "time \<Rightarrow> int \<Rightarrow> time" where
  "add_secs t n = t + n * nanos_per_sec"

definition add_ms :: "time \<Rightarrow> int \<Rightarrow> time" where
  "add_ms t n = t + n * nanos_per_ms"

definition trunc_div :: "int \<Rightarrow> int \<Rightarrow> int" where
  "trunc_div a b = (if a < 0 then - ((- a) div b) else a div b)"

definition num_seconds :: "int \<Rightarrow> int" where
  "num_seconds d = trunc_div d nanos_per_sec"

definition num_milliseconds :: "int \<Rightarrow> int" where
  "num_milliseconds d = trunc_div d nanos_per_ms"

lemma add_secs_mono [simp]: "add_secs t a \<le> add_secs u a \<longleftrightarrow> t \<le> u"
  by (simp add: add_secs_def)

lemma add_secs_gt [simp]: "t < add_secs t n \<longleftrightarrow> 0 < n"
  by (simp add: add_secs_def)

lemma add_ms_gt [simp]: "t < add_ms t n \<longleftrightarrow> 0 < n"
  by (simp add: add_ms_def)

lemma num_seconds_nonneg: "0 \<le> d \<Longrightarrow> num_seconds d = d div nanos_per_sec"
  by (simp add: num_seconds_def trunc_div_def)

section \<open>Machine integers\<close>

text \<open>
  Fixed-width integers are kept as \<open>int\<close> or \<open>nat\<close>; casts and additions that can leave the range
  wrap explicitly (two's complement), saturating operations clamp.
\<close>

abbreviation (input) i32_max :: int where "i32_max \<equiv> 2147483647"
abbreviation (input) i64_max :: int where "i64_max \<equiv> 9223372036854775807"
abbreviation (input) i64_min :: int where "i64_min \<equiv> - 9223372036854775808"
abbreviation (input) u32_max :: nat where "u32_max \<equiv> 4294967295"
abbreviation (input) u64_max :: nat where "u64_max \<equiv> 18446744073709551615"

definition wrap_i32 :: "int \<Rightarrow> int" where
  "wrap_i32 x = (x + 2147483648) mod 4294967296 - 2147483648"

definition wrap_i64 :: "int \<Rightarrow> int" where
  "wrap_i64 x = (x + 9223372036854775808) mod 18446744073709551616 - 9223372036854775808"

definition sat_i32 :: "int \<Rightarrow> int" where
  "sat_i32 x = max (- 2147483648) (min i32_max x)"

definition sat_i64 :: "int \<Rightarrow> int" where
  "sat_i64 x = max i64_min (min i64_max x)"

lemma wrap_i32_id: "- 2147483648 \<le> x \<Longrightarrow> x \<le> i32_max \<Longrightarrow> wrap_i32 x = x"
  by (simp add: wrap_i32_def)

lemma wrap_i64_id: "i64_min \<le> x \<Longrightarrow> x \<le> i64_max \<Longrightarrow> wrap_i64 x = x"
  by (simp add: wrap_i64_def)

lemma wrap_i64_range: "i64_min \<le> wrap_i64 x" "wrap_i64 x \<le> i64_max"
  by (simp_all add: wrap_i64_def)

section \<open>Hash maps\<close>

text \<open>
  A \<^verbatim>\<open>HashMap\<close> is an association list in its current iteration order. That order is not specified
  by the standard library: facts that hold for every state hold for every order.
\<close>

type_synonym ('k, 'v) hashmap = "('k \<times> 'v) list"

abbreviation (input) hm_get :: "('k, 'v) hashmap \<Rightarrow> 'k \<Rightarrow> 'v option" where
  "hm_get \<equiv> map_of"

abbreviation (input) hm_insert :: "'k \<Rightarrow> 'v \<Rightarrow> ('k, 'v) hashmap \<Rightarrow> ('k, 'v) hashmap" where
  "hm_insert \<equiv> AList.update"

abbreviation (input) hm_remove :: "'k \<Rightarrow> ('k, 'v) hashmap \<Rightarrow> ('k, 'v) hashmap" where
  "hm_remove \<equiv> AList.delete"

definition hm_values :: "('k, 'v) hashmap \<Rightarrow> 'v list" where
  "hm_values m = map snd m"

definition hm_keys :: "('k, 'v) hashmap \<Rightarrow> 'k list" where
  "hm_keys m = map fst m"

definition hm_ok :: "('k, 'v) hashmap \<Rightarrow> bool" where
  "hm_ok m \<longleftrightarrow> distinct (map fst m)"

lemma hm_get_insert [hm_simps]: "map_of (AList.update k v m) = (map_of m)(k \<mapsto> v)"
  by (simp add: AList.update_conv')

lemma hm_get_remove [hm_simps]: "map_of (AList.delete k m) = (map_of m)(k := None)"
  by (simp add: AList.delete_conv')

lemma hm_ok_Nil [simp]: "hm_ok []"
  by (simp add: hm_ok_def)

lemma hm_ok_insert [simp]: "hm_ok m \<Longrightarrow> hm_ok (AList.update k v m)"
  by (simp add: hm_ok_def AList.distinct_update)

lemma hm_ok_remove [simp]: "hm_ok m \<Longrightarrow> hm_ok (AList.delete k m)"
  by (simp add: hm_ok_def AList.distinct_delete)

lemma hm_value_iff: "hm_ok m \<Longrightarrow> v \<in> set (hm_values m) \<longleftrightarrow> (\<exists>k. map_of m k = Some v)"
  by (auto simp: hm_ok_def hm_values_def ran_def simp flip: ran_distinct)

lemma hm_entry_iff: "hm_ok m \<Longrightarrow> (k, v) \<in> set m \<longleftrightarrow> map_of m k = Some v"
  by (auto simp: hm_ok_def dest: map_of_SomeD intro: map_of_is_SomeI)

lemma map_of_map_values [hm_simps]:
  "map_of (map (\<lambda>(k, v). (k, f k v)) m) k = map_option (f k) (map_of m k)"
  by (induction m) auto

lemma hm_ok_map_values [simp]: "hm_ok (map (\<lambda>(k, v). (k, f k v)) m) \<longleftrightarrow> hm_ok m"
  by (simp add: hm_ok_def comp_def case_prod_beta')

section \<open>Process state and asynchronous code\<close>

text \<open>
  \<open>('s, 'a) proc\<close> is code that runs in one process: it may read the clock (\<^verbatim>\<open>Utc::now\<close>), generate a
  UUID, record telemetry, sleep, and call the shared store of type \<open>'s\<close>. The clock and the UUID
  generator are sequences; each read takes the next element, so that different reads may return
  different values. Tracing (\<^verbatim>\<open>warn!\<close>, \<^verbatim>\<open>info!\<close>) writes nothing the program reads back and has no
  counterpart.
\<close>

datatype tele =
    Counter string "(string \<times> string) list" nat
  | LogEvent string "(string \<times> string) list"

record 's world =
  w_store :: 's
  w_clock :: "nat \<Rightarrow> time"
  w_reads :: nat
  w_uuid :: "nat \<Rightarrow> string"
  w_uuids :: nat
  w_env :: "string \<Rightarrow> string option"
  w_tele :: "tele list"
  w_sleeps :: "nat list"

type_synonym ('s, 'a) proc = "('s world, 'a) state"

definition utc_now :: "('s, time) proc" where
  "utc_now = State (\<lambda>w. (w_clock w (w_reads w), w\<lparr>w_reads := Suc (w_reads w)\<rparr>))"

definition new_uuid :: "('s, string) proc" where
  "new_uuid = State (\<lambda>w. (w_uuid w (w_uuids w), w\<lparr>w_uuids := Suc (w_uuids w)\<rparr>))"

definition env_vars :: "('s, string \<Rightarrow> string option) proc" where
  "env_vars = State (\<lambda>w. (w_env w, w))"

definition emit :: "tele \<Rightarrow> ('s, unit) proc" where
  "emit e = State (\<lambda>w. ((), w\<lparr>w_tele := w_tele w @ [e]\<rparr>))"

definition sleep_ms :: "nat \<Rightarrow> ('s, unit) proc" where
  "sleep_ms n = State (\<lambda>w. ((), w\<lparr>w_sleeps := w_sleeps w @ [n]\<rparr>))"

definition call :: "('s \<Rightarrow> 'a \<times> 's) \<Rightarrow> ('s, 'a) proc" where
  "call f = State (\<lambda>w. case f (w_store w) of (a, s) \<Rightarrow> (a, w\<lparr>w_store := s\<rparr>))"

abbreviation ret :: "'a \<Rightarrow> ('s, 'a) state" where
  "ret \<equiv> State_Monad.return"

lemma run_utc_now [world_simps]:
  "run_state utc_now w = (w_clock w (w_reads w), w\<lparr>w_reads := Suc (w_reads w)\<rparr>)"
  by (simp add: utc_now_def)

lemma run_new_uuid [world_simps]:
  "run_state new_uuid w = (w_uuid w (w_uuids w), w\<lparr>w_uuids := Suc (w_uuids w)\<rparr>)"
  by (simp add: new_uuid_def)

lemma run_env_vars [world_simps]: "run_state env_vars w = (w_env w, w)"
  by (simp add: env_vars_def)

lemma run_emit [world_simps]: "run_state (emit e) w = ((), w\<lparr>w_tele := w_tele w @ [e]\<rparr>)"
  by (simp add: emit_def)

lemma run_sleep_ms [world_simps]:
  "run_state (sleep_ms n) w = ((), w\<lparr>w_sleeps := w_sleeps w @ [n]\<rparr>)"
  by (simp add: sleep_ms_def)

lemma run_call [world_simps]:
  "run_state (call f) w = (fst (f (w_store w)), w\<lparr>w_store := snd (f (w_store w))\<rparr>)"
  by (simp add: call_def case_prod_beta)

section \<open>Error propagation and loops in asynchronous code\<close>

text \<open>
  \<open>bind_ok m k\<close> is \<^verbatim>\<open>let x = m.await?; k x\<close>; \<open>for_ok\<close> is a \<^verbatim>\<open>for\<close> loop whose body ends with \<^verbatim>\<open>?\<close>;
  \<open>for_all\<close> is a loop whose body cannot fail.
\<close>

definition bind_ok :: "('s, 'e + 'a) proc \<Rightarrow> ('a \<Rightarrow> ('s, 'e + 'b) proc) \<Rightarrow> ('s, 'e + 'b) proc" where
  "bind_ok m k = do { r \<leftarrow> m; case r of Inl e \<Rightarrow> ret (Inl e) | Inr a \<Rightarrow> k a }"

primrec for_ok :: "'a list \<Rightarrow> ('a \<Rightarrow> ('s, 'e + unit) proc) \<Rightarrow> ('s, 'e + unit) proc" where
  "for_ok [] body = ret (Inr ())"
| "for_ok (x # xs) body = bind_ok (body x) (\<lambda>_. for_ok xs body)"

primrec for_all :: "'a list \<Rightarrow> ('a \<Rightarrow> ('s, unit) proc) \<Rightarrow> ('s, unit) proc" where
  "for_all [] body = ret ()"
| "for_all (x # xs) body = do { body x; for_all xs body }"

text \<open>
  What holds when asynchronous code has run: \<open>wp m Q w\<close> says that running \<open>m\<close> from \<open>w\<close> ends with a
  result and a process state that satisfy \<open>Q\<close>.
\<close>

named_theorems wp_simps \<open>postconditions of process-state actions\<close>

definition wp :: "('s, 'a) proc \<Rightarrow> ('a \<Rightarrow> 's world \<Rightarrow> bool) \<Rightarrow> 's world \<Rightarrow> bool" where
  "wp m Q w = (case run_state m w of (a, w') \<Rightarrow> Q a w')"

lemma wp_bind [wp_simps]: "wp (State_Monad.bind m k) Q = wp m (\<lambda>a. wp (k a) Q)"
  by (rule ext) (simp add: wp_def split: prod.splits)

lemma wp_ret [wp_simps]: "wp (ret a) Q = Q a"
  by (rule ext) (simp add: wp_def)

lemma wp_bind_ok [wp_simps]:
  "wp (bind_ok m k) Q = wp m (\<lambda>r w'. case r of Inl e \<Rightarrow> Q (Inl e) w' | Inr a \<Rightarrow> wp (k a) Q w')"
  unfolding bind_ok_def wp_bind
  by (rule arg_cong[where f = "wp m"]) (auto simp: wp_ret fun_eq_iff split: sum.splits)

lemma wp_actions [wp_simps]:
  "wp utc_now Q = (\<lambda>w. Q (w_clock w (w_reads w)) (w\<lparr>w_reads := Suc (w_reads w)\<rparr>))"
  "wp new_uuid Q1 = (\<lambda>w. Q1 (w_uuid w (w_uuids w)) (w\<lparr>w_uuids := Suc (w_uuids w)\<rparr>))"
  "wp env_vars Q2 = (\<lambda>w. Q2 (w_env w) w)"
  "wp (emit e) Q3 = (\<lambda>w. Q3 () (w\<lparr>w_tele := w_tele w @ [e]\<rparr>))"
  "wp (sleep_ms n) Q3 = (\<lambda>w. Q3 () (w\<lparr>w_sleeps := w_sleeps w @ [n]\<rparr>))"
  by (rule ext, simp add: wp_def world_simps)+

lemma wp_call: "wp (call f) Q w = (case f (w_store w) of (a, s) \<Rightarrow> Q a (w\<lparr>w_store := s\<rparr>))"
  by (simp add: wp_def call_def split: prod.splits)

lemma wp_call_eq: "f (w_store w) = (a, s) \<Longrightarrow> wp (call f) Q w = Q a (w\<lparr>w_store := s\<rparr>)"
  by (simp add: wp_call)

lemma wp_if [wp_simps]: "wp (if b then m else m') Q w = (if b then wp m Q w else wp m' Q w)"
  by simp

lemma wp_mono: "wp m Q w \<Longrightarrow> (\<And>a w'. Q a w' \<Longrightarrow> Q' a w') \<Longrightarrow> wp m Q' w"
  by (auto simp: wp_def split: prod.splits)

lemma wp_run: "wp m Q w \<longleftrightarrow> Q (fst (run_state m w)) (snd (run_state m w))"
  by (simp add: wp_def split: prod.splits)

lemma wp_for_ok:
  assumes "I w" "\<And>x w. x \<in> set xs \<Longrightarrow> I w \<Longrightarrow> wp (body x) (\<lambda>r w'. I w') w"
  shows "wp (for_ok xs body) (\<lambda>r w'. I w') w"
  using assms
proof (induction xs arbitrary: w)
  case (Cons x xs)
  have IH: "wp (for_ok xs body) (\<lambda>r w'. I w') w'" if "I w'" for w'
    using Cons.IH[OF that] Cons.prems(2) by simp
  have "wp (body x) (\<lambda>r w'. I w') w" using Cons.prems by simp
  then show ?case
    unfolding for_ok.simps wp_bind_ok by (rule wp_mono) (auto intro: IH split: sum.splits)
qed (simp add: wp_ret)

lemma wp_for_ok_Inr:
  assumes "I w" "\<And>x w. x \<in> set xs \<Longrightarrow> I w \<Longrightarrow> wp (body x) (\<lambda>r w'. r = Inr () \<and> I w') w"
  shows "wp (for_ok xs body) (\<lambda>r w'. r = Inr () \<and> I w') w"
  using assms
proof (induction xs arbitrary: w)
  case (Cons x xs)
  have IH: "wp (for_ok xs body) (\<lambda>r w'. r = Inr () \<and> I w') w'" if "I w'" for w'
    using Cons.IH[OF that] Cons.prems(2) by simp
  have "wp (body x) (\<lambda>r w'. r = Inr () \<and> I w') w" using Cons.prems by simp
  then show ?case
    unfolding for_ok.simps wp_bind_ok by (rule wp_mono) (auto intro: IH split: sum.splits)
qed (simp add: wp_ret)

lemma wp_for_all:
  assumes "I w" "\<And>x w. x \<in> set xs \<Longrightarrow> I w \<Longrightarrow> wp (body x) (\<lambda>r w'. I w') w"
  shows "wp (for_all xs body) (\<lambda>r w'. I w') w"
  using assms
proof (induction xs arbitrary: w)
  case (Cons x xs)
  have IH: "wp (for_all xs body) (\<lambda>r w'. I w') w'" if "I w'" for w'
    using Cons.IH[OF that] Cons.prems(2) by simp
  have "wp (body x) (\<lambda>r w'. I w') w" using Cons.prems by simp
  then show ?case unfolding for_all.simps wp_bind by (rule wp_mono) (rule IH)
qed (simp add: wp_ret)

text \<open>What every process keeps: its clock, UUID and environment sources; counters only grow.\<close>

definition proc_frame :: "'s world \<Rightarrow> 's world \<Rightarrow> bool" where
  "proc_frame w w' \<longleftrightarrow>
     w_clock w' = w_clock w \<and> w_uuid w' = w_uuid w \<and> w_env w' = w_env w \<and>
     w_reads w \<le> w_reads w' \<and> w_uuids w \<le> w_uuids w'"

lemma proc_frame_refl [simp]: "proc_frame w w"
  by (simp add: proc_frame_def)

lemma proc_frame_trans: "proc_frame w w' \<Longrightarrow> proc_frame w' w'' \<Longrightarrow> proc_frame w w''"
  by (auto simp: proc_frame_def)

lemma proc_frame_upd [simp]:
  "proc_frame w (w'\<lparr>w_store := s\<rparr>) = proc_frame w w'"
  "proc_frame w (w'\<lparr>w_tele := t\<rparr>) = proc_frame w w'"
  "proc_frame w (w'\<lparr>w_sleeps := sl\<rparr>) = proc_frame w w'"
  "proc_frame w w' \<Longrightarrow> proc_frame w (w'\<lparr>w_reads := Suc (w_reads w')\<rparr>)"
  "proc_frame w w' \<Longrightarrow> proc_frame w (w'\<lparr>w_uuids := Suc (w_uuids w')\<rparr>)"
  by (auto simp: proc_frame_def)

end
