(* ===== verification/Rust_Str.thy ===== *)
theory Rust_Str
  imports Prelude "HOL-Library.Sublist"
begin

text \<open>
  Rust strings at byte level. A \<^verbatim>\<open>String\<close> is the list of its UTF-8 bytes (one \<open>char\<close> of HOL per
  byte); \<^verbatim>\<open>len\<close> counts bytes and \<^verbatim>\<open>chars\<close> splits at the bytes that are not continuation bytes.
  Slicing off a character boundary panics, and a panic is \<open>None\<close>. The methods of the standard
  library that the crates call on strings are defined here, with the facts their callers need.
\<close>

named_theorems str_simps \<open>facts about searching and slicing strings\<close>

abbreviation (input) byte :: "char \<Rightarrow> nat" where "byte c \<equiv> of_char c"

definition is_cont :: "char \<Rightarrow> bool" where
  "is_cont c \<longleftrightarrow> 128 \<le> byte c \<and> byte c < 192"

definition is_ascii :: "char \<Rightarrow> bool" where
  "is_ascii c \<longleftrightarrow> byte c < 128"

definition ascii_str :: "string \<Rightarrow> bool" where
  "ascii_str s \<longleftrightarrow> list_all is_ascii s"

lemma ascii_not_cont [simp]: "is_ascii c \<Longrightarrow> \<not> is_cont c"
  by (simp add: is_ascii_def is_cont_def)

section \<open>Well-formed UTF-8\<close>

definition in_range :: "nat \<Rightarrow> nat \<Rightarrow> char \<Rightarrow> bool" where
  "in_range a b c \<longleftrightarrow> a \<le> byte c \<and> byte c \<le> b"

fun utf8_valid :: "string \<Rightarrow> bool" where
  "utf8_valid [] = True"
| "utf8_valid (a # s) =
     (if is_ascii a then utf8_valid s
      else (case s of
        [] \<Rightarrow> False
      | b # s1 \<Rightarrow>
          if in_range 194 223 a \<and> is_cont b then utf8_valid s1
          else (case s1 of
            [] \<Rightarrow> False
          | c # s2 \<Rightarrow>
              if is_cont c \<and>
                 (byte a = 224 \<and> in_range 160 191 b \<or> in_range 225 236 a \<and> is_cont b \<or>
                  byte a = 237 \<and> in_range 128 159 b \<or> in_range 238 239 a \<and> is_cont b)
              then utf8_valid s2
              else (case s2 of
                [] \<Rightarrow> False
              | d # s3 \<Rightarrow>
                  is_cont c \<and> is_cont d \<and>
                  (byte a = 240 \<and> in_range 144 191 b \<or> in_range 241 243 a \<and> is_cont b \<or>
                   byte a = 244 \<and> in_range 128 143 b) \<and> utf8_valid s3))))"

section \<open>Boundaries, slices and characters\<close>

definition is_char_boundary :: "string \<Rightarrow> nat \<Rightarrow> bool" where
  "is_char_boundary s i \<longleftrightarrow> i = 0 \<or> i = length s \<or> (i < length s \<and> \<not> is_cont (s ! i))"

text \<open>\<^verbatim>\<open>&s[a..b]\<close>: \<open>None\<close> is the panic on a range that is out of bounds or off a boundary.\<close>

definition slice :: "string \<Rightarrow> nat \<Rightarrow> nat \<Rightarrow> string option" where
  "slice s a b =
     (if a \<le> b \<and> b \<le> length s \<and> is_char_boundary s a \<and> is_char_boundary s b
      then Some (take (b - a) (drop a s)) else None)"

text \<open>\<^verbatim>\<open>s.replace_range(a..b, r)\<close>\<close>

definition replace_range :: "string \<Rightarrow> nat \<Rightarrow> nat \<Rightarrow> string \<Rightarrow> string option" where
  "replace_range s a b r =
     (if a \<le> b \<and> b \<le> length s \<and> is_char_boundary s a \<and> is_char_boundary s b
      then Some (take a s @ r @ drop b s) else None)"

definition chars_count :: "string \<Rightarrow> nat" where
  "chars_count s = length (filter (\<lambda>c. \<not> is_cont c) s)"

fun take_chars :: "nat \<Rightarrow> string \<Rightarrow> string" where
  "take_chars n [] = []"
| "take_chars n (c # s) =
     (if is_cont c then c # take_chars n s
      else case n of 0 \<Rightarrow> [] | Suc m \<Rightarrow> c # take_chars m s)"

lemma chars_count_simps [simp]:
  "chars_count [] = 0"
  "chars_count (c # s) = (if is_cont c then chars_count s else Suc (chars_count s))"
  "chars_count (s @ t) = chars_count s + chars_count t"
  by (simp_all add: chars_count_def)

lemma chars_count_take_chars: "chars_count (take_chars n s) \<le> n"
  by (induction n s rule: take_chars.induct) (auto split: nat.splits)

lemma take_chars_all: "chars_count s \<le> n \<Longrightarrow> take_chars n s = s"
  by (induction n s rule: take_chars.induct) (auto split: nat.splits if_splits)

lemma set_take_chars: "set (take_chars n s) \<subseteq> set s"
  by (induction n s rule: take_chars.induct) (auto split: nat.splits)

lemma ascii_boundary: "ascii_str s \<Longrightarrow> i \<le> length s \<Longrightarrow> is_char_boundary s i"
  by (auto simp: is_char_boundary_def ascii_str_def list_all_length)

lemma ascii_str_simps [simp]:
  "ascii_str []" "ascii_str (c # s) \<longleftrightarrow> is_ascii c \<and> ascii_str s"
  "ascii_str (s @ t) \<longleftrightarrow> ascii_str s \<and> ascii_str t"
  by (simp_all add: ascii_str_def)

lemma ascii_str_take_drop [simp]:
  "ascii_str s \<Longrightarrow> ascii_str (take n s)" "ascii_str s \<Longrightarrow> ascii_str (drop n s)"
  by (auto simp: ascii_str_def list_all_iff dest: in_set_takeD in_set_dropD)

lemma ascii_str_filter [simp]: "ascii_str s \<Longrightarrow> ascii_str (filter P s)"
  by (auto simp: ascii_str_def list_all_iff)

section \<open>Searching\<close>

text \<open>\<^verbatim>\<open>s.find(p)\<close> for a string pattern: byte index of the first match.\<close>

fun str_find :: "string \<Rightarrow> string \<Rightarrow> nat option" where
  "str_find p [] = (if p = [] then Some 0 else None)"
| "str_find p (c # s) =
     (if prefix p (c # s) then Some 0 else map_option Suc (str_find p s))"

definition str_contains :: "string \<Rightarrow> string \<Rightarrow> bool" where
  "str_contains p s \<longleftrightarrow> str_find p s \<noteq> None"

text \<open>\<^verbatim>\<open>s.find(|c| ..)\<close>: the predicate sees the suffix that starts at the character.\<close>

fun find_char :: "(string \<Rightarrow> bool) \<Rightarrow> string \<Rightarrow> nat option" where
  "find_char P [] = None"
| "find_char P (c # s) =
     (if \<not> is_cont c \<and> P (c # s) then Some 0 else map_option Suc (find_char P s))"

text \<open>\<^verbatim>\<open>s.rfind(|c| ..)\<close>: byte index of the first byte of the last matching character.\<close>

fun rfind_char :: "(string \<Rightarrow> bool) \<Rightarrow> string \<Rightarrow> nat option" where
  "rfind_char P [] = None"
| "rfind_char P (c # s) =
     (case rfind_char P s of
        Some i \<Rightarrow> Some (Suc i)
      | None \<Rightarrow> if \<not> is_cont c \<and> P (c # s) then Some 0 else None)"

lemma str_find_Some:
  "str_find p s = Some i \<Longrightarrow> i + length p \<le> length s \<and> prefix p (drop i s)"
proof (induction p s arbitrary: i rule: str_find.induct)
  case (1 p)
  then show ?case by (auto split: if_splits)
next
  case (2 p c s)
  show ?case
  proof (cases "prefix p (c # s)")
    case True
    with 2 show ?thesis by (auto dest: prefix_length_le)
  next
    case False
    with 2 show ?thesis by (auto split: option.splits)
  qed
qed

lemma str_find_first: "str_find p s = Some i \<Longrightarrow> j < i \<Longrightarrow> \<not> prefix p (drop j s)"
proof (induction p s arbitrary: i j rule: str_find.induct)
  case (2 p c s)
  then show ?case by (cases j) (auto split: if_splits)
qed (auto split: if_splits)

lemma str_find_None: "str_find p s = None \<longleftrightarrow> (\<forall>j \<le> length s. \<not> prefix p (drop j s))"
proof (induction p s rule: str_find.induct)
  case (2 p c s)
  have "(\<forall>j \<le> length (c # s). \<not> prefix p (drop j (c # s))) \<longleftrightarrow>
        \<not> prefix p (c # s) \<and> (\<forall>j \<le> length s. \<not> prefix p (drop j s))"
    by (metis Suc_le_mono drop0 drop_Suc_Cons length_Cons le0 not0_implies_Suc)
  with 2 show ?case by auto
qed auto

lemma str_find_append_split:
  "str_find p s = Some i \<Longrightarrow> s = take i s @ p @ drop (i + length p) s"
  by (metis append_take_drop_id drop_drop add.commute prefix_def str_find_Some append_eq_conv_conj)

lemma str_find_singleton: "str_find [c] s = Some i \<Longrightarrow> c \<notin> set (take i s) \<and> s ! i = c \<and> i < length s"
proof (induction s arbitrary: i)
  case (Cons a s)
  then show ?case by (cases "a = c") (auto simp: split: option.splits if_splits)
qed simp

lemma str_find_singleton_None: "str_find [c] s = None \<longleftrightarrow> c \<notin> set s"
  by (induction s) auto

lemma find_char_Some: "find_char P s = Some i \<Longrightarrow> i < length s \<and> \<not> is_cont (s ! i) \<and> P (drop i s)"
proof (induction s arbitrary: i)
  case (Cons c s)
  then show ?case by (cases i) (auto split: if_splits)
qed simp

lemma rfind_char_Some:
  "rfind_char P s = Some i \<Longrightarrow> i < length s \<and> \<not> is_cont (s ! i) \<and> P (drop i s)"
proof (induction s arbitrary: i)
  case (Cons c s)
  then show ?case by (auto split: option.splits if_splits)
qed simp

section \<open>Splitting, trimming and case\<close>

fun split_on :: "char \<Rightarrow> string \<Rightarrow> string list" where
  "split_on d [] = [[]]"
| "split_on d (c # s) =
     (if c = d then [] # split_on d s
      else case split_on d s of [] \<Rightarrow> [[c]] | x # xs \<Rightarrow> (c # x) # xs)"

fun join :: "string \<Rightarrow> string list \<Rightarrow> string" where
  "join d [] = []"
| "join d [x] = x"
| "join d (x # y # xs) = x @ d @ join d (y # xs)"

lemma split_on_ne [simp]: "split_on d s \<noteq> []"
  by (induction s) (auto split: list.splits)

lemma split_on_no_delim: "x \<in> set (split_on d s) \<Longrightarrow> d \<notin> set x"
proof (induction s arbitrary: x)
  case (Cons c s)
  then show ?case by (cases "split_on d s") (fastforce split: if_splits)+
qed simp

lemma split_on_subset: "x \<in> set (split_on d s) \<Longrightarrow> set x \<subseteq> set s"
proof (induction s arbitrary: x)
  case (Cons c s)
  then show ?case by (cases "split_on d s") (fastforce split: if_splits)+
qed simp

lemma split_on_id: "d \<notin> set s \<Longrightarrow> split_on d s = [s]"
  by (induction s) auto

lemma split_on_append: "d \<notin> set x \<Longrightarrow> split_on d (x @ d # s) = x # split_on d s"
  by (induction x) auto

lemma join_Cons: "xs \<noteq> [] \<Longrightarrow> join d (x # xs) = x @ d @ join d xs"
  by (cases xs) auto

lemma join_split: "join [d] (split_on d s) = s"
proof (induction s)
  case (Cons c s)
  obtain x xs where sp: "split_on d s = x # xs"
    by (meson neq_Nil_conv split_on_ne)
  show ?case
  proof (cases "c = d")
    case True
    with Cons show ?thesis by (simp add: join_Cons)
  next
    case False
    with Cons sp show ?thesis by (cases xs) auto
  qed
qed simp

lemma split_join: "xs \<noteq> [] \<Longrightarrow> (\<forall>x \<in> set xs. d \<notin> set x) \<Longrightarrow> split_on d (join [d] xs) = xs"
  by (induction "[d]" xs rule: join.induct) (auto simp: split_on_id split_on_append)

definition ascii_lower :: "char \<Rightarrow> char" where
  "ascii_lower c = (if 65 \<le> byte c \<and> byte c \<le> 90 then char_of (byte c + 32) else c)"

definition to_ascii_lowercase :: "string \<Rightarrow> string" where
  "to_ascii_lowercase s = map ascii_lower s"

definition is_ascii_digit :: "char \<Rightarrow> bool" where
  "is_ascii_digit c \<longleftrightarrow> 48 \<le> byte c \<and> byte c \<le> 57"

definition is_ascii_alphanumeric :: "char \<Rightarrow> bool" where
  "is_ascii_alphanumeric c \<longleftrightarrow>
     is_ascii_digit c \<or> 65 \<le> byte c \<and> byte c \<le> 90 \<or> 97 \<le> byte c \<and> byte c \<le> 122"

text \<open>The characters of the Unicode property White\_Space, in UTF-8 (\<^verbatim>\<open>char::is_whitespace\<close>).\<close>

definition ws_chars :: "string list" where
  "ws_chars =
     [[CHR 0x20], [CHR 0x09], [CHR 0x0A], [CHR 0x0B], [CHR 0x0C], [CHR 0x0D],
      [CHR 0xC2, CHR 0x85], [CHR 0xC2, CHR 0xA0], [CHR 0xE1, CHR 0x9A, CHR 0x80],
      [CHR 0xE2, CHR 0x80, CHR 0xA8], [CHR 0xE2, CHR 0x80, CHR 0xA9],
      [CHR 0xE2, CHR 0x80, CHR 0xAF], [CHR 0xE2, CHR 0x81, CHR 0x9F],
      [CHR 0xE3, CHR 0x80, CHR 0x80]] @
     map (\<lambda>n. [CHR 0xE2, CHR 0x80, char_of n]) [128 ..< 139]"

definition ws_prefix :: "string \<Rightarrow> string option" where
  "ws_prefix s = find (\<lambda>w. prefix w s) ws_chars"

definition ws_suffix :: "string \<Rightarrow> string option" where
  "ws_suffix s = find (\<lambda>w. suffix w s) ws_chars"

definition starts_with_ws :: "string \<Rightarrow> bool" where
  "starts_with_ws s \<longleftrightarrow> ws_prefix s \<noteq> None"

lemma find_SomeD: "find P xs = Some x \<Longrightarrow> x \<in> set xs \<and> P x"
  by (induction xs) (auto split: if_splits)

lemma ws_chars_ne: "w \<in> set ws_chars \<Longrightarrow> w \<noteq> []"
  by (auto simp: ws_chars_def)

lemma ws_prefix_len: "ws_prefix s = Some w \<Longrightarrow> 0 < length w \<and> length w \<le> length s"
  by (auto simp: ws_prefix_def dest!: find_SomeD dest: prefix_length_le ws_chars_ne)

lemma ws_suffix_len: "ws_suffix s = Some w \<Longrightarrow> 0 < length w \<and> length w \<le> length s"
  by (auto simp: ws_suffix_def dest!: find_SomeD dest: suffix_length_le ws_chars_ne)

function trim_start :: "string \<Rightarrow> string" where
  "trim_start s = (case ws_prefix s of None \<Rightarrow> s | Some w \<Rightarrow> trim_start (drop (length w) s))"
  by pat_completeness auto
termination
  by (relation "measure length", simp, drule ws_prefix_len) (auto intro!: diff_less simp flip: length_greater_0_conv)

function trim_end :: "string \<Rightarrow> string" where
  "trim_end s =
     (case ws_suffix s of None \<Rightarrow> s | Some w \<Rightarrow> trim_end (take (length s - length w) s))"
  by pat_completeness auto
termination
  by (relation "measure length", simp, drule ws_suffix_len) (auto intro!: diff_less simp flip: length_greater_0_conv)

declare trim_start.simps [simp del] trim_end.simps [simp del]

definition trim :: "string \<Rightarrow> string" where
  "trim s = trim_end (trim_start s)"

lemma trim_start_ws: "ws_prefix (trim_start s) = None"
  by (induction s rule: trim_start.induct) (subst trim_start.simps, auto split: option.splits)

lemma trim_end_ws: "ws_suffix (trim_end s) = None"
  by (induction s rule: trim_end.induct) (subst trim_end.simps, auto split: option.splits)

lemma trim_start_suffix: "suffix (trim_start s) s"
proof (induction s rule: trim_start.induct)
  case (1 s)
  show ?case
    by (subst trim_start.simps)
      (auto split: option.splits dest!: 1 intro: suffix_order.trans suffix_drop)
qed

lemma trim_end_prefix: "prefix (trim_end s) s"
proof (induction s rule: trim_end.induct)
  case (1 s)
  show ?case
    by (subst trim_end.simps)
      (auto split: option.splits dest!: 1 intro: prefix_order.trans take_is_prefix)
qed

lemma trim_subset: "set (trim s) \<subseteq> set s"
  using trim_end_prefix[of "trim_start s"] trim_start_suffix[of s]
  by (metis set_mono_prefix set_mono_suffix subset_trans trim_def)

section \<open>Parsing and printing integers\<close>

definition digit_val :: "char \<Rightarrow> nat" where
  "digit_val c = byte c - 48"

definition parse_digits :: "string \<Rightarrow> nat option" where
  "parse_digits s =
     (if s \<noteq> [] \<and> list_all is_ascii_digit s
      then Some (foldl (\<lambda>n c. 10 * n + digit_val c) 0 s) else None)"

text \<open>
  \<^verbatim>\<open>s.parse::<uN>()\<close>: an optional plus sign, at least one digit, no overflow; the signed version
  also takes a minus sign.
\<close>

definition parse_unsigned :: "nat \<Rightarrow> string \<Rightarrow> nat option" where
  "parse_unsigned mx s =
     (case parse_digits (case s of c # r \<Rightarrow> if c = CHR ''+'' then r else s | [] \<Rightarrow> s) of
        None \<Rightarrow> None | Some n \<Rightarrow> if n \<le> mx then Some n else None)"

definition parse_signed :: "int \<Rightarrow> int \<Rightarrow> string \<Rightarrow> int option" where
  "parse_signed mn mx s =
     (case s of
        c # r \<Rightarrow>
          (case (if c = CHR ''-'' then map_option (\<lambda>n. - int n) (parse_digits r)
                 else if c = CHR ''+'' then map_option int (parse_digits r)
                 else map_option int (parse_digits s)) of
             None \<Rightarrow> None | Some i \<Rightarrow> if mn \<le> i \<and> i \<le> mx then Some i else None)
      | [] \<Rightarrow> None)"

lemma parse_unsigned_le: "parse_unsigned mx s = Some n \<Longrightarrow> n \<le> mx"
  by (auto simp: parse_unsigned_def split: option.splits if_splits)

lemma parse_signed_range: "parse_signed mn mx s = Some i \<Longrightarrow> mn \<le> i \<and> i \<le> mx"
  by (auto simp: parse_signed_def split: option.splits if_splits list.splits)

text \<open>\<^verbatim>\<open>n.to_string()\<close> of an unsigned integer.\<close>

fun nat_to_string :: "nat \<Rightarrow> string" where
  "nat_to_string n =
     (if n < 10 then [char_of (48 + n)] else nat_to_string (n div 10) @ [char_of (48 + n mod 10)])"

declare nat_to_string.simps [simp del]

lemma digit_char: "d < 10 \<Longrightarrow> is_ascii_digit (char_of (48 + d)) \<and> digit_val (char_of (48 + d)) = d"
  by (simp add: is_ascii_digit_def digit_val_def)

lemma nat_to_string_digits:
  "nat_to_string n \<noteq> [] \<and> list_all is_ascii_digit (nat_to_string n) \<and>
   foldl (\<lambda>n c. 10 * n + digit_val c) 0 (nat_to_string n) = n"
proof (induction n rule: nat_to_string.induct)
  case (1 n)
  show ?case
  proof (cases "n < 10")
    case True
    then show ?thesis by (subst (1 2 3) nat_to_string.simps) (simp add: digit_char)
  next
    case False
    with 1 show ?thesis by (subst (1 2 3) nat_to_string.simps) (simp add: digit_char)
  qed
qed

lemma parse_nat_to_string: "n \<le> mx \<Longrightarrow> parse_unsigned mx (nat_to_string n) = Some n"
proof -
  assume le: "n \<le> mx"
  obtain c r where s: "nat_to_string n = c # r"
    using nat_to_string_digits by (metis list.exhaust)
  have "is_ascii_digit c" using nat_to_string_digits[of n] s by simp
  then have "c \<noteq> CHR ''+''" by (auto simp: is_ascii_digit_def)
  with s nat_to_string_digits[of n] le show ?thesis
    by (simp add: parse_unsigned_def parse_digits_def)
qed

lemma nat_to_string_inj: "nat_to_string m = nat_to_string n \<longleftrightarrow> m = n"
  by (metis nat_to_string_digits)

lemma ascii_join: "ascii_str sep \<Longrightarrow> \<forall>x \<in> set xs. ascii_str x \<Longrightarrow> ascii_str (join sep xs)"
  by (induction sep xs rule: join.induct) auto

lemma ascii_split_on: "x \<in> set (split_on d s) \<Longrightarrow> ascii_str s \<Longrightarrow> ascii_str x"
  by (induction s arbitrary: x) (auto split: if_splits list.splits)

end
