(* ===== verification/F64.thy ===== *)
theory F64
  imports Prelude
begin

text \<open>
  IEEE 754 double precision, as far as the retry backoff uses it: conversion from \<^verbatim>\<open>u64\<close>,
  multiplication with rounding to nearest (ties to even), comparison, \<^verbatim>\<open>is_finite\<close> and the saturating
  cast to \<^verbatim>\<open>u64\<close>. A finite double is a dyadic number \<open>m * 2 ^ e\<close>; the sign of zero is not kept,
  since no operation here observes it.
\<close>

datatype f64 = F_NaN | F_Inf bool | F_Fin int int

fun bitlen :: "nat \<Rightarrow> nat" where
  "bitlen n = (if n = 0 then 0 else Suc (bitlen (n div 2)))"

declare bitlen.simps [simp del]

text \<open>
  \<open>round_nat m e\<close> rounds \<open>m * 2 ^ e\<close> to 53 significant bits (fewer for subnormal results) and
  overflows to infinity at \<open>2 ^ 1024\<close>.
\<close>

definition round_nat :: "nat \<Rightarrow> int \<Rightarrow> (nat \<times> int) option" where
  "round_nat m e =
     (let k = nat (max (int (bitlen m) - 53) (- 1074 - e));
          q = m div 2 ^ k; r = 2 * (m mod 2 ^ k);
          q' = (if r > 2 ^ k \<or> (r = 2 ^ k \<and> odd q) then q + 1 else q)
      in if int (bitlen q') + e + int k > 1024 then None else Some (q', e + int k))"

definition f64_round :: "int \<Rightarrow> int \<Rightarrow> f64" where
  "f64_round m e =
     (case round_nat (nat \<bar>m\<bar>) e of
        None \<Rightarrow> F_Inf (m < 0)
      | Some (q, e') \<Rightarrow> F_Fin (if m < 0 then - int q else int q) e')"

definition f64_of_nat :: "nat \<Rightarrow> f64" where
  "f64_of_nat n = f64_round (int n) 0"

fun f64_mul :: "f64 \<Rightarrow> f64 \<Rightarrow> f64" where
  "f64_mul (F_Fin m e) (F_Fin n d) = f64_round (m * n) (e + d)"
| "f64_mul (F_Inf s) (F_Inf t) = F_Inf (s \<noteq> t)"
| "f64_mul (F_Inf s) (F_Fin n d) = (if n = 0 then F_NaN else F_Inf (s \<noteq> (n < 0)))"
| "f64_mul (F_Fin m e) (F_Inf t) = (if m = 0 then F_NaN else F_Inf ((m < 0) \<noteq> t))"
| "f64_mul F_NaN y = F_NaN"
| "f64_mul x F_NaN = F_NaN"

fun f64_is_finite :: "f64 \<Rightarrow> bool" where
  "f64_is_finite (F_Fin m e) = True"
| "f64_is_finite _ = False"

definition scale_pair :: "int \<Rightarrow> int \<Rightarrow> int \<Rightarrow> int \<Rightarrow> int \<times> int" where
  "scale_pair m e n d = (m * 2 ^ nat (e - min e d), n * 2 ^ nat (d - min e d))"

fun f64_lt :: "f64 \<Rightarrow> f64 \<Rightarrow> bool" where
  "f64_lt (F_Fin m e) (F_Fin n d) = (fst (scale_pair m e n d) < snd (scale_pair m e n d))"
| "f64_lt (F_Inf s) (F_Fin n d) = s"
| "f64_lt (F_Fin m e) (F_Inf t) = (\<not> t)"
| "f64_lt (F_Inf s) (F_Inf t) = (s \<and> \<not> t)"
| "f64_lt F_NaN y = False"
| "f64_lt x F_NaN = False"

text \<open>\<^verbatim>\<open>x as u64\<close>: truncation toward zero, saturating at both ends, zero for NaN.\<close>

fun f64_to_u64 :: "f64 \<Rightarrow> nat" where
  "f64_to_u64 F_NaN = 0"
| "f64_to_u64 (F_Inf s) = (if s then 0 else u64_max)"
| "f64_to_u64 (F_Fin m e) =
     (if m \<le> 0 then 0
      else min u64_max (if 0 \<le> e then nat m * 2 ^ nat e else nat m div 2 ^ nat (- e)))"

definition f64_min :: "f64 \<Rightarrow> f64 \<Rightarrow> f64" where
  "f64_min x y = (if f64_lt y x then y else x)"

abbreviation f64_one :: f64 where "f64_one \<equiv> F_Fin 1 0"
abbreviation f64_zero :: f64 where "f64_zero \<equiv> F_Fin 0 0"

lemma bitlen_0 [simp]: "bitlen 0 = 0"
  by (subst bitlen.simps) simp

lemma bitlen_le: "n < 2 ^ k \<Longrightarrow> bitlen n \<le> k"
proof (induction n arbitrary: k rule: bitlen.induct)
  case (1 n)
  show ?case
  proof (cases "n = 0")
    case False
    with 1(2) obtain j where k: "k = Suc j" by (cases k) auto
    with 1(2) have "n div 2 < 2 ^ j" by auto
    with 1(1) False k show ?thesis by (subst bitlen.simps) simp
  qed simp
qed

lemma round_nat_exact: "m < 2 ^ 53 \<Longrightarrow> round_nat m 0 = Some (m, 0)"
  using bitlen_le[of m 53] by (simp add: round_nat_def Let_def)

lemma f64_of_nat_exact: "n < 2 ^ 53 \<Longrightarrow> f64_of_nat n = F_Fin (int n) 0"
  by (simp add: f64_of_nat_def f64_round_def round_nat_exact)

lemma f64_mul_one: "n < 2 ^ 53 \<Longrightarrow> f64_mul (f64_of_nat n) f64_one = f64_of_nat n"
  by (simp add: f64_of_nat_exact f64_round_def round_nat_exact)

lemma round_nat_zero: "round_nat 0 e = Some q \<Longrightarrow> fst q = 0"
  by (auto simp: round_nat_def Let_def split: if_splits)

lemma f64_round_zero_not_pos: "\<not> f64_lt f64_zero (f64_round 0 e) \<or> \<not> f64_is_finite (f64_round 0 e)"
  by (auto simp: f64_round_def scale_pair_def dest: round_nat_zero split: option.splits)

lemma f64_to_u64_le: "f64_to_u64 x \<le> u64_max"
  by (cases x) (simp_all split: if_splits)

end
