(* ===== verification/Core_Models.thy ===== *)
theory Core_Models
  imports Rust_Str F64
begin

text \<open>
  The crate \<^verbatim>\<open>chronon-core\<close>: error values, JSON documents, the persisted models (jobs, runs,
  revisions, scripts, workers, leader and partition rows) with their constructors and state
  changes, the retry and misfire policies, and the bundle of third-party functions the program
  calls. Field names carry a prefix per record (\<^verbatim>\<open>j_\<close> job, \<^verbatim>\<open>r_\<close> run, ...) since records of one theory
  share a name space.
\<close>

section \<open>Errors\<close>

text \<open>
  The boxed \<^verbatim>\<open>source\<close> of the two variants that carry one is kept as its displayed text.
\<close>

datatype chronon_error =
    ScriptNotFound string
  | JobNotFound string
  | RunNotFound string
  | InvalidCron string
  | InvalidTimezone string
  | ParamError string
  | ScriptMismatch (sm_expected: string) (sm_actual: string) (sm_job_name: string)
  | JobNameTaken (jt_job_name: string) (jt_existing_job_id: string)
  | StorageError (se_message: string) (se_source: "string option")
  | Identity string
  | Internal string
  | InternalSource (is_message: string) (is_source: string)

type_synonym 'a res = "chronon_error + 'a"

definition quoted :: "string \<Rightarrow> string" where
  "quoted s = CHR 0x27 # s @ [CHR 0x27]"

text \<open>\<^verbatim>\<open>impl Display for ChrononError\<close>\<close>

fun error_to_string :: "chronon_error \<Rightarrow> string" where
  "error_to_string (ScriptNotFound s) = ''script not found: '' @ s"
| "error_to_string (JobNotFound s) = ''job not found: '' @ s"
| "error_to_string (RunNotFound s) = ''run not found: '' @ s"
| "error_to_string (InvalidCron s) = ''invalid cron expression: '' @ s"
| "error_to_string (InvalidTimezone s) = ''invalid timezone: '' @ s"
| "error_to_string (ParamError s) = ''parameter error: '' @ s"
| "error_to_string (ScriptMismatch expected actual job_name) =
     ''script mismatch for job '' @ quoted job_name @ '': expected '' @ quoted expected @
     '', got '' @ quoted actual"
| "error_to_string (JobNameTaken job_name existing) =
     ''job name '' @ quoted job_name @ '' is already used by job '' @ quoted existing"
| "error_to_string (StorageError message source) = ''storage error: '' @ message"
| "error_to_string (Identity s) = ''identity error: '' @ s"
| "error_to_string (Internal s) = ''internal error: '' @ s"
| "error_to_string (InternalSource message source) = ''internal error: '' @ message"

section \<open>JSON documents\<close>

text \<open>
  \<^verbatim>\<open>serde_json::Value\<close>, an enumeration of the public interface of that crate. An object is its list
  of entries; \<^verbatim>\<open>get\<close> looks a key up in an object and finds nothing in any other document, and
  \<^verbatim>\<open>Map::insert\<close> sets an entry.
\<close>

datatype jnum = PosInt nat | NegInt int | Float f64

datatype json =
    JNull
  | JBool bool
  | JNumber jnum
  | JString string
  | JArray "json list"
  | JObject "(string \<times> json) list"

fun json_get :: "string \<Rightarrow> json \<Rightarrow> json option" where
  "json_get k (JObject kvs) = map_of kvs k"
| "json_get k _ = None"

fun json_obj_insert :: "string \<Rightarrow> json \<Rightarrow> json \<Rightarrow> json" where
  "json_obj_insert k v (JObject kvs) = JObject (AList.update k v kvs)"
| "json_obj_insert k v j = j"

section \<open>Models\<close>

datatype schedule_kind = Cron | RunOnce | Manual

abbreviation max_job_concurrency :: int where "max_job_concurrency \<equiv> 1000"
abbreviation max_timeout_ms :: int where "max_timeout_ms \<equiv> 86400000"
abbreviation max_retry_attempts :: nat where "max_retry_attempts \<equiv> 100"
abbreviation max_retry_delay_ms :: nat where "max_retry_delay_ms \<equiv> 86400000"
abbreviation max_list_limit :: nat where "max_list_limit \<equiv> 1000"

record retry_policy =
  max_attempts :: nat
  base_delay_ms :: nat
  backoff_multiplier :: f64
  max_delay_ms :: nat

record misfire_policy =
  run_immediately :: bool
  max_misfire_window_secs :: nat

record job =
  j_job_id :: string
  j_job_name :: string
  j_script_name :: string
  j_script_sig_hash :: string
  j_enabled :: bool
  j_schedule_kind :: schedule_kind
  j_cron_expr :: "string option"
  j_timezone :: "string option"
  j_run_once_at :: "time option"
  j_run_once_claimed_at :: "time option"
  j_run_once_claimed_by :: "string option"
  j_run_once_completed_at :: "time option"
  j_run_once_claim_expires_at :: "time option"
  j_partition_hash :: "int option"
  j_claim_lease_id :: "string option"
  j_claim_lease_until :: "time option"
  j_pool :: "string option"
  j_region :: "string option"
  j_placement_json :: "json option"
  j_actor_json :: json
  j_params_json :: json
  j_concurrency :: int
  j_timeout_ms :: "int option"
  j_retry_policy_json :: json
  j_misfire_policy_json :: json
  j_parent_limits_json :: "json option"
  j_next_run_at :: "time option"
  j_current_revision :: int
  j_updated_at :: time
  j_created_at :: time

datatype run_status = Queued | Claimed | Running | Success | Failed | Canceled | Timeout

record run =
  r_run_id :: string
  r_job_id :: "string option"
  r_script_name :: string
  r_parent_run_id :: "string option"
  r_root_run_id :: "string option"
  r_child_index :: "int option"
  r_scheduled_for :: time
  r_started_at :: "time option"
  r_finished_at :: "time option"
  r_duration_ms :: "int option"
  r_status :: run_status
  r_attempt :: int
  r_instance_id :: "string option"
  r_placement_json :: "json option"
  r_pool_id :: "string option"
  r_actor_json :: json
  r_params_json :: json
  r_stdout_text :: "string option"
  r_stderr_text :: "string option"
  r_error_json :: "json option"
  r_stats_json :: "json option"
  r_claimed_by :: "string option"
  r_claim_lease_until :: "time option"

record partition_assignment =
  pa_partition_id :: string
  pa_owner_instance_id :: string
  pa_lease_until :: time
  pa_updated_at :: time

record job_revision =
  v_revision_id :: string
  v_job_id :: string
  v_revision_number :: int
  v_changed_at :: time
  v_changed_by_actor_json :: json
  v_snapshot_json :: json

record scheduler_leader =
  l_leader_id :: string
  l_leader_instance_id :: string
  l_leader_lease_until :: time
  l_last_heartbeat_at :: time

record script =
  s_script_id :: string
  s_script_name :: string
  s_signature_json :: json
  s_signature_hash :: string
  s_created_at :: time

datatype worker_status = Online | Draining | Offline

record worker =
  k_worker_id :: string
  k_pool_id :: string
  k_cell_id :: "string option"
  k_status :: worker_status
  k_last_heartbeat_at :: time
  k_capacity_json :: "json option"
  k_created_at :: time
  k_updated_at :: time

section \<open>Third-party functions\<close>

text \<open>
  Functions of packages that are not part of the repository, as one bundle passed to the
  definitions that call them: cron parsing and the next occurrence (\<^verbatim>\<open>croner\<close>), time zones
  (\<^verbatim>\<open>chrono-tz\<close>), the 64-bit hash (\<^verbatim>\<open>xxhash-rust\<close>), the JSON codecs derived by \<^verbatim>\<open>serde\<close> (\<open>Inl\<close> is the
  displayed error) and \<^verbatim>\<open>f64::powi\<close>, whose precision the standard library leaves open.
\<close>

record ('sc, 'tz) ext =
  x_cron_parse :: "string \<Rightarrow> string + 'sc"
  x_cron_next :: "'sc \<Rightarrow> 'tz \<Rightarrow> time \<Rightarrow> time option"
  x_tz_parse :: "string \<Rightarrow> 'tz option"
  x_tz_utc :: 'tz
  x_xxh64 :: "string \<Rightarrow> nat"
  x_retry_to :: "retry_policy \<Rightarrow> string + json"
  x_retry_from :: "json \<Rightarrow> string + retry_policy"
  x_misfire_to :: "misfire_policy \<Rightarrow> string + json"
  x_misfire_from :: "json \<Rightarrow> string + misfire_policy"
  x_job_to :: "job \<Rightarrow> string + json"
  x_powi :: "f64 \<Rightarrow> int \<Rightarrow> f64"

text \<open>\<^verbatim>\<open>unwrap_or_default\<close> on a JSON result and on a decoded policy\<close>

fun unwrap_or :: "'a \<Rightarrow> 'e + 'a \<Rightarrow> 'a" where
  "unwrap_or d (Inl e) = d"
| "unwrap_or d (Inr a) = a"

section \<open>Policies\<close>

definition retry_policy_default :: retry_policy where
  "retry_policy_default =
     \<lparr>max_attempts = 0, base_delay_ms = 0, backoff_multiplier = f64_one, max_delay_ms = 0\<rparr>"

definition misfire_policy_default :: misfire_policy where
  "misfire_policy_default = \<lparr>run_immediately = False, max_misfire_window_secs = 0\<rparr>"

definition should_retry :: "retry_policy \<Rightarrow> int \<Rightarrow> bool" where
  "should_retry p attempt \<longleftrightarrow> 0 < attempt \<and> nat attempt \<le> max_attempts p"

definition delay_ms_after :: "('sc, 'tz) ext \<Rightarrow> retry_policy \<Rightarrow> int \<Rightarrow> nat" where
  "delay_ms_after X p failed_attempt =
     (let exp = max (sat_i32 (failed_attempt - 1)) 0;
          raw = f64_mul (f64_of_nat (base_delay_ms p)) (x_powi X (backoff_multiplier p) exp);
          ms = (if f64_is_finite raw \<and> f64_lt f64_zero raw
                then f64_to_u64 (f64_min raw (f64_of_nat u64_max)) else 0)
      in if max_delay_ms p = 0 then ms else min ms (max_delay_ms p))"

definition retry_clamp_security_bounds :: "retry_policy \<Rightarrow> retry_policy" where
  "retry_clamp_security_bounds p =
     (let p1 = p\<lparr>max_attempts := min (max_attempts p) max_retry_attempts\<rparr>;
          p2 = p1\<lparr>base_delay_ms := min (base_delay_ms p1) max_retry_delay_ms\<rparr>;
          p3 = (if max_delay_ms p2 \<noteq> 0
                then p2\<lparr>max_delay_ms := min (max_delay_ms p2) max_retry_delay_ms\<rparr> else p2)
      in if \<not> f64_is_finite (backoff_multiplier p3) \<or> f64_lt (backoff_multiplier p3) f64_one
         then p3\<lparr>backoff_multiplier := f64_one\<rparr> else p3)"

section \<open>Jobs\<close>

text \<open>\<^verbatim>\<open>Job::new\<close>: the identifier and the clock reading are the values the constructor draws.\<close>

definition job_new :: "('sc, 'tz) ext \<Rightarrow> string \<Rightarrow> time \<Rightarrow> string \<Rightarrow> string \<Rightarrow> job" where
  "job_new X uuid now job_name script_name =
     \<lparr>j_job_id = uuid, j_job_name = job_name, j_script_name = script_name,
      j_script_sig_hash = [], j_enabled = True, j_schedule_kind = Cron, j_cron_expr = None,
      j_timezone = None, j_run_once_at = None, j_run_once_claimed_at = None,
      j_run_once_claimed_by = None, j_run_once_completed_at = None,
      j_run_once_claim_expires_at = None, j_partition_hash = None, j_claim_lease_id = None,
      j_claim_lease_until = None, j_pool = None, j_region = None, j_placement_json = None,
      j_actor_json = JNull, j_params_json = JObject [], j_concurrency = 1, j_timeout_ms = None,
      j_retry_policy_json = unwrap_or JNull (x_retry_to X retry_policy_default),
      j_misfire_policy_json = unwrap_or JNull (x_misfire_to X misfire_policy_default),
      j_parent_limits_json = None, j_next_run_at = None, j_current_revision = 1,
      j_updated_at = now, j_created_at = now\<rparr>"

definition job_retry_policy :: "('sc, 'tz) ext \<Rightarrow> job \<Rightarrow> retry_policy" where
  "job_retry_policy X j = unwrap_or retry_policy_default (x_retry_from X (j_retry_policy_json j))"

definition job_misfire_policy :: "('sc, 'tz) ext \<Rightarrow> job \<Rightarrow> misfire_policy" where
  "job_misfire_policy X j =
     unwrap_or misfire_policy_default (x_misfire_from X (j_misfire_policy_json j))"

definition set_retry_policy :: "('sc, 'tz) ext \<Rightarrow> retry_policy \<Rightarrow> job \<Rightarrow> job" where
  "set_retry_policy X p j = j\<lparr>j_retry_policy_json := unwrap_or JNull (x_retry_to X p)\<rparr>"

definition set_misfire_policy :: "('sc, 'tz) ext \<Rightarrow> misfire_policy \<Rightarrow> job \<Rightarrow> job" where
  "set_misfire_policy X p j = j\<lparr>j_misfire_policy_json := unwrap_or JNull (x_misfire_to X p)\<rparr>"

definition job_clamp_security_bounds :: "('sc, 'tz) ext \<Rightarrow> job \<Rightarrow> job" where
  "job_clamp_security_bounds X j =
     (let j1 = j\<lparr>j_concurrency := max 1 (min max_job_concurrency (j_concurrency j))\<rparr>;
          j2 = (case j_timeout_ms j1 of
                  None \<Rightarrow> j1
                | Some ms \<Rightarrow> if ms \<le> 0 then j1\<lparr>j_timeout_ms := None\<rparr>
                            else j1\<lparr>j_timeout_ms := Some (min ms max_timeout_ms)\<rparr>);
          clamped = retry_clamp_security_bounds (job_retry_policy X j2)
      in set_retry_policy X clamped j2)"

section \<open>Runs\<close>

definition is_terminal :: "run_status \<Rightarrow> bool" where
  "is_terminal st \<longleftrightarrow> st \<in> {Success, Failed, Canceled, Timeout}"

definition is_active :: "run_status \<Rightarrow> bool" where
  "is_active st \<longleftrightarrow> st \<in> {Queued, Claimed, Running}"

fun run_status_to_string :: "run_status \<Rightarrow> string" where
  "run_status_to_string Queued = ''queued''"
| "run_status_to_string Claimed = ''claimed''"
| "run_status_to_string Running = ''running''"
| "run_status_to_string Success = ''success''"
| "run_status_to_string Failed = ''failed''"
| "run_status_to_string Canceled = ''canceled''"
| "run_status_to_string Timeout = ''timeout''"

definition run_new :: "string \<Rightarrow> string \<Rightarrow> time \<Rightarrow> run" where
  "run_new uuid script_name scheduled_for =
     \<lparr>r_run_id = uuid, r_job_id = None, r_script_name = script_name, r_parent_run_id = None,
      r_root_run_id = None, r_child_index = None, r_scheduled_for = scheduled_for,
      r_started_at = None, r_finished_at = None, r_duration_ms = None, r_status = Queued,
      r_attempt = 1, r_instance_id = None, r_placement_json = None, r_pool_id = None,
      r_actor_json = JNull, r_params_json = JObject [], r_stdout_text = None,
      r_stderr_text = None, r_error_json = None, r_stats_json = None, r_claimed_by = None,
      r_claim_lease_until = None\<rparr>"

definition run_for_job :: "string \<Rightarrow> string \<Rightarrow> string \<Rightarrow> time \<Rightarrow> run" where
  "run_for_job uuid job_id script_name scheduled_for =
     (run_new uuid script_name scheduled_for)\<lparr>r_job_id := Some job_id\<rparr>"

definition run_start :: "time \<Rightarrow> run \<Rightarrow> run" where
  "run_start now r = r\<lparr>r_started_at := Some now, r_status := Running\<rparr>"

definition run_finish :: "time \<Rightarrow> run \<Rightarrow> run" where
  "run_finish finished r =
     (case r_started_at r of
        None \<Rightarrow> r
      | Some started \<Rightarrow> r\<lparr>r_duration_ms := Some (num_milliseconds (finished - started))\<rparr>)"

definition run_complete :: "time \<Rightarrow> run \<Rightarrow> run" where
  "run_complete finished r =
     run_finish finished (r\<lparr>r_finished_at := Some finished, r_status := Success\<rparr>)"

definition error_message_json :: "string \<Rightarrow> json" where
  "error_message_json msg = JObject [(''message'', JString msg)]"

definition run_fail :: "time \<Rightarrow> string \<Rightarrow> run \<Rightarrow> run" where
  "run_fail finished err r =
     run_finish finished
       (r\<lparr>r_finished_at := Some finished, r_status := Failed,
          r_error_json := Some (error_message_json err)\<rparr>)"

definition run_timeout :: "time \<Rightarrow> string \<Rightarrow> run \<Rightarrow> run" where
  "run_timeout finished err r =
     run_finish finished
       (r\<lparr>r_finished_at := Some finished, r_status := Timeout,
          r_error_json := Some (error_message_json err)\<rparr>)"

section \<open>Other constructors\<close>

definition job_revision_new ::
  "string \<Rightarrow> time \<Rightarrow> string \<Rightarrow> int \<Rightarrow> json \<Rightarrow> json \<Rightarrow> job_revision" where
  "job_revision_new uuid now job_id revision_number changed_by snapshot =
     \<lparr>v_revision_id = uuid, v_job_id = job_id, v_revision_number = revision_number,
      v_changed_at = now, v_changed_by_actor_json = changed_by, v_snapshot_json = snapshot\<rparr>"

definition script_new :: "string \<Rightarrow> time \<Rightarrow> string \<Rightarrow> json \<Rightarrow> string \<Rightarrow> script" where
  "script_new uuid now script_name signature_json signature_hash =
     \<lparr>s_script_id = uuid, s_script_name = script_name, s_signature_json = signature_json,
      s_signature_hash = signature_hash, s_created_at = now\<rparr>"

text \<open>
  \<^verbatim>\<open>ScriptHandle<P>\<close> is its registry name; \<^verbatim>\<open>job_with_params\<close> gets the serialisation of the typed
  parameters.
\<close>

type_synonym script_handle = string

definition handle_job :: "('sc, 'tz) ext \<Rightarrow> string \<Rightarrow> time \<Rightarrow> script_handle \<Rightarrow> string \<Rightarrow> job" where
  "handle_job X uuid now h job_name = job_new X uuid now job_name h"

definition handle_job_with_params ::
  "('sc, 'tz) ext \<Rightarrow> string \<Rightarrow> time \<Rightarrow> script_handle \<Rightarrow> string \<Rightarrow> string + json \<Rightarrow> job res" where
  "handle_job_with_params X uuid now h job_name params =
     (let j = handle_job X uuid now h job_name
      in case params of Inl e \<Rightarrow> Inl (ParamError e) | Inr v \<Rightarrow> Inr (j\<lparr>j_params_json := v\<rparr>))"

section \<open>Facts about runs and policies\<close>

lemma terminal_iff_not_active: "is_terminal st \<longleftrightarrow> \<not> is_active st"
  by (cases st) (simp_all add: is_terminal_def is_active_def)

lemma status_simps [simp]:
  "is_active Queued" "is_active Claimed" "is_active Running"
  "\<not> is_active Success" "\<not> is_active Failed" "\<not> is_active Canceled" "\<not> is_active Timeout"
  by (simp_all add: is_active_def)

lemma run_finish_sel [simp]:
  "r_run_id (run_finish t r) = r_run_id r"
  "r_job_id (run_finish t r) = r_job_id r"
  "r_script_name (run_finish t r) = r_script_name r"
  "r_parent_run_id (run_finish t r) = r_parent_run_id r"
  "r_root_run_id (run_finish t r) = r_root_run_id r"
  "r_scheduled_for (run_finish t r) = r_scheduled_for r"
  "r_started_at (run_finish t r) = r_started_at r"
  "r_finished_at (run_finish t r) = r_finished_at r"
  "r_status (run_finish t r) = r_status r"
  "r_attempt (run_finish t r) = r_attempt r"
  "r_placement_json (run_finish t r) = r_placement_json r"
  "r_pool_id (run_finish t r) = r_pool_id r"
  "r_actor_json (run_finish t r) = r_actor_json r"
  "r_params_json (run_finish t r) = r_params_json r"
  "r_error_json (run_finish t r) = r_error_json r"
  "r_claimed_by (run_finish t r) = r_claimed_by r"
  "r_claim_lease_until (run_finish t r) = r_claim_lease_until r"
  by (simp_all add: run_finish_def split: option.splits)

lemmas run_change_defs = run_start_def run_complete_def run_fail_def run_timeout_def

lemma run_for_job_sel [simp]:
  "r_run_id (run_for_job u jid sn t) = u"
  "r_job_id (run_for_job u jid sn t) = Some jid"
  "r_script_name (run_for_job u jid sn t) = sn"
  "r_scheduled_for (run_for_job u jid sn t) = t"
  "r_status (run_for_job u jid sn t) = Queued"
  "r_attempt (run_for_job u jid sn t) = 1"
  "r_claimed_by (run_for_job u jid sn t) = None"
  "r_claim_lease_until (run_for_job u jid sn t) = None"
  by (simp_all add: run_for_job_def run_new_def)

lemma run_status_to_string_inj: "run_status_to_string a = run_status_to_string b \<longleftrightarrow> a = b"
  by (cases a; cases b) simp_all

lemma retry_clamp_bounds:
  "max_attempts (retry_clamp_security_bounds p) \<le> max_retry_attempts"
  "base_delay_ms (retry_clamp_security_bounds p) \<le> max_retry_delay_ms"
  "max_delay_ms (retry_clamp_security_bounds p) \<le> max_retry_delay_ms"
  "f64_is_finite (backoff_multiplier (retry_clamp_security_bounds p))"
  "\<not> f64_lt (backoff_multiplier (retry_clamp_security_bounds p)) f64_one"
  by (simp_all add: retry_clamp_security_bounds_def Let_def scale_pair_def)

lemma retry_clamp_id:
  "max_attempts p \<le> max_retry_attempts \<Longrightarrow> base_delay_ms p \<le> max_retry_delay_ms \<Longrightarrow>
   max_delay_ms p \<le> max_retry_delay_ms \<Longrightarrow> f64_is_finite (backoff_multiplier p) \<Longrightarrow>
   \<not> f64_lt (backoff_multiplier p) f64_one \<Longrightarrow> retry_clamp_security_bounds p = p"
  by (simp add: retry_clamp_security_bounds_def Let_def)

lemma delay_zero_base: "base_delay_ms p = 0 \<Longrightarrow> delay_ms_after X p a = 0"
  using f64_round_zero_not_pos
  by (cases "x_powi X (backoff_multiplier p) (max (sat_i32 (a - 1)) 0)")
    (auto simp: delay_ms_after_def Let_def f64_of_nat_exact)

text \<open>
  What the program relies on from the derived codec of a policy: a policy whose multiplier is a
  finite number is written as JSON and read back unchanged.
\<close>

definition retry_codec_ok :: "('sc, 'tz) ext \<Rightarrow> bool" where
  "retry_codec_ok X \<longleftrightarrow>
     (\<forall>p. f64_is_finite (backoff_multiplier p) \<longrightarrow>
        (\<exists>v. x_retry_to X p = Inr v \<and> x_retry_from X v = Inr p))"

lemma retry_policy_set:
  "retry_codec_ok X \<Longrightarrow> f64_is_finite (backoff_multiplier p) \<Longrightarrow>
   job_retry_policy X (set_retry_policy X p j) = p"
  by (fastforce simp: retry_codec_ok_def job_retry_policy_def set_retry_policy_def)

end
