(* ===== verification/Store_Port.thy ===== *)
theory Store_Port
  imports Core_Models
begin

text \<open>
  The persistence port \<^verbatim>\<open>SchedulerStore\<close> of \<^verbatim>\<open>chronon-core/src/store.rs\<close>. A trait object
  \<^verbatim>\<open>Arc<dyn SchedulerStore>\<close> is a record of operations over a backend state \<open>'s\<close>: clients are
  defined over an arbitrary such record, and a backend supplies one. An operation whose
  implementation reads the clock takes that reading as its first argument. The locales below
  state what a client relies on: the contract of the job table, of the run table and of the
  coordinator claims, over the maps that a backend state represents.
\<close>

type_synonym ('s, 'a) store_op = "'s \<Rightarrow> 'a res \<times> 's"

record 's scheduler_store =
  so_upsert_job :: "job \<Rightarrow> ('s, unit) store_op"
  so_get_job :: "string \<Rightarrow> ('s, job option) store_op"
  so_get_job_by_name :: "string \<Rightarrow> ('s, job option) store_op"
  so_list_jobs :: "('s, job list) store_op"
  so_list_due_jobs :: "time \<Rightarrow> ('s, job list) store_op"
  so_pause_job :: "time \<Rightarrow> string \<Rightarrow> ('s, unit) store_op"
  so_resume_job :: "time \<Rightarrow> string \<Rightarrow> ('s, unit) store_op"
  so_delete_job :: "string \<Rightarrow> ('s, bool) store_op"
  so_create_run :: "run \<Rightarrow> ('s, unit) store_op"
  so_update_run :: "run \<Rightarrow> ('s, unit) store_op"
  so_get_run :: "string \<Rightarrow> ('s, run option) store_op"
  so_list_runs_for_job :: "string \<Rightarrow> nat \<Rightarrow> ('s, run list) store_op"
  so_list_runs_filtered ::
    "string option \<Rightarrow> run_status option \<Rightarrow> nat \<Rightarrow> nat \<Rightarrow> ('s, run list) store_op"
  so_claim_next_queued :: "string \<Rightarrow> string \<Rightarrow> time \<Rightarrow> int \<Rightarrow> ('s, run option) store_op"
  so_claim_run_by_id :: "string \<Rightarrow> string \<Rightarrow> string \<Rightarrow> time \<Rightarrow> int \<Rightarrow> ('s, run option) store_op"
  so_claim_runs_by_ids ::
    "string list \<Rightarrow> string \<Rightarrow> string \<Rightarrow> time \<Rightarrow> int \<Rightarrow> ('s, run list) store_op"
  so_renew_run_lease :: "string \<Rightarrow> string \<Rightarrow> time \<Rightarrow> int \<Rightarrow> ('s, bool) store_op"
  so_reclaim_expired_run_leases :: "time \<Rightarrow> ('s, string list) store_op"
  so_append_revision :: "job_revision \<Rightarrow> ('s, unit) store_op"
  so_list_revisions :: "string \<Rightarrow> ('s, job_revision list) store_op"
  so_upsert_script :: "script \<Rightarrow> ('s, unit) store_op"
  so_get_script :: "string \<Rightarrow> ('s, script option) store_op"
  so_try_claim_run_once :: "string \<Rightarrow> string \<Rightarrow> time \<Rightarrow> int \<Rightarrow> ('s, bool) store_op"
  so_mark_run_once_completed :: "time \<Rightarrow> string \<Rightarrow> time \<Rightarrow> ('s, unit) store_op"
  so_release_run_once_claim :: "string \<Rightarrow> string \<Rightarrow> time \<Rightarrow> ('s, unit) store_op"
  so_find_due_job_ids_in_partitions ::
    "time \<Rightarrow> nat list \<Rightarrow> time \<Rightarrow> nat \<Rightarrow> ('s, string list) store_op"
  so_min_next_run_at_in_partitions :: "nat list \<Rightarrow> ('s, time option) store_op"
  so_claim_job_for_tick :: "string \<Rightarrow> string \<Rightarrow> time \<Rightarrow> int \<Rightarrow> ('s, bool) store_op"
  so_release_job_tick_claim :: "time \<Rightarrow> string \<Rightarrow> ('s, unit) store_op"
  so_persist_post_tick_job_state :: "time \<Rightarrow> string \<Rightarrow> time option \<Rightarrow> ('s, unit) store_op"
  so_try_acquire_leader :: "time \<Rightarrow> string \<Rightarrow> int \<Rightarrow> ('s, bool) store_op"
  so_renew_leader_lease :: "time \<Rightarrow> string \<Rightarrow> int \<Rightarrow> ('s, unit) store_op"
  so_get_leader :: "('s, scheduler_leader option) store_op"
  so_upsert_partition_assignment :: "partition_assignment \<Rightarrow> ('s, unit) store_op"
  so_list_partition_assignments :: "('s, partition_assignment list) store_op"
  so_register_worker :: "worker \<Rightarrow> ('s, unit) store_op"
  so_heartbeat_worker :: "string \<Rightarrow> time \<Rightarrow> ('s, unit) store_op"

section \<open>Default methods of the trait\<close>

definition delete_job_default :: "string \<Rightarrow> ('s, bool) store_op" where
  "delete_job_default job_id s =
     (Inl (Internal (''delete_job is not supported by this store (job '' @ quoted job_id @ '')'')), s)"

text \<open>\<^verbatim>\<open>claim_runs_by_ids\<close>: one claim per identifier, in order; the first error ends the loop.\<close>

fun claim_runs_by_ids_default ::
  "(string \<Rightarrow> ('s, run option) store_op) \<Rightarrow> string list \<Rightarrow> ('s, run list) store_op" where
  "claim_runs_by_ids_default claim_one [] s = (Inr [], s)"
| "claim_runs_by_ids_default claim_one (i # is) s =
     (case claim_one i s of
        (Inl e, s') \<Rightarrow> (Inl e, s')
      | (Inr r, s') \<Rightarrow>
          (case claim_runs_by_ids_default claim_one is s' of
             (Inl e, s'') \<Rightarrow> (Inl e, s'')
           | (Inr rs, s'') \<Rightarrow> (Inr (case r of None \<Rightarrow> rs | Some x \<Rightarrow> x # rs), s'')))"

section \<open>Row changes of the contract\<close>

text \<open>The effect of a successful claim, release or completion on one job row, and its guards.\<close>

definition tick_claimable :: "time \<Rightarrow> job \<Rightarrow> bool" where
  "tick_claimable now j \<longleftrightarrow>
     j_enabled j \<and> (case j_claim_lease_until j of None \<Rightarrow> True | Some u \<Rightarrow> u < now)"

definition row_tick_claim :: "string \<Rightarrow> time \<Rightarrow> int \<Rightarrow> job \<Rightarrow> job" where
  "row_tick_claim claim_id now ttl j =
     j\<lparr>j_claim_lease_id := Some claim_id, j_claim_lease_until := Some (add_secs now ttl),
       j_updated_at := now\<rparr>"

definition row_tick_release :: "time \<Rightarrow> job \<Rightarrow> job" where
  "row_tick_release clk j =
     j\<lparr>j_claim_lease_id := None, j_claim_lease_until := None, j_updated_at := clk\<rparr>"

definition row_post_tick :: "time \<Rightarrow> time option \<Rightarrow> job \<Rightarrow> job" where
  "row_post_tick clk nra j =
     j\<lparr>j_next_run_at := nra, j_claim_lease_id := None, j_claim_lease_until := None,
       j_updated_at := clk\<rparr>"

definition once_claimable :: "string \<Rightarrow> time \<Rightarrow> job \<Rightarrow> bool" where
  "once_claimable by now j \<longleftrightarrow>
     j_run_once_completed_at j = None \<and>
     \<not> (j_run_once_claimed_at j \<noteq> None \<and>
        (case j_run_once_claim_expires_at j of None \<Rightarrow> False | Some e \<Rightarrow> now < e) \<and>
        j_run_once_claimed_by j \<noteq> Some by)"

definition row_once_claim :: "string \<Rightarrow> time \<Rightarrow> int \<Rightarrow> job \<Rightarrow> job" where
  "row_once_claim by now ttl j =
     j\<lparr>j_run_once_claimed_at := Some now, j_run_once_claimed_by := Some by,
       j_run_once_claim_expires_at := Some (add_secs now ttl), j_updated_at := now\<rparr>"

definition row_once_complete :: "time \<Rightarrow> time \<Rightarrow> job \<Rightarrow> job" where
  "row_once_complete clk at j =
     j\<lparr>j_run_once_completed_at := Some at, j_run_once_claimed_at := None,
       j_run_once_claimed_by := None, j_run_once_claim_expires_at := None, j_updated_at := clk\<rparr>"

definition row_once_release :: "string \<Rightarrow> time \<Rightarrow> job \<Rightarrow> job" where
  "row_once_release by now j =
     (if j_run_once_claimed_by j = Some by
      then j\<lparr>j_run_once_claimed_at := None, j_run_once_claimed_by := None,
             j_run_once_claim_expires_at := None, j_updated_at := now\<rparr>
      else j\<lparr>j_updated_at := now\<rparr>)"

section \<open>Contracts\<close>

text \<open>
  \<open>jobs_of\<close> and \<open>runs_of\<close> read the two tables out of a backend state. The contract of a mutation
  of one row: the row is missing and the operation reports it, or exactly that row changes.
\<close>

locale job_table =
  fixes S :: "'s scheduler_store"
    and invar :: "'s \<Rightarrow> bool"
    and jobs_of :: "'s \<Rightarrow> string \<Rightarrow> job option"
    and runs_of :: "'s \<Rightarrow> string \<Rightarrow> run option"
  assumes get_job: "invar s \<Longrightarrow> so_get_job S i s = (Inr (jobs_of s i), s)"
    and get_job_by_name_Some:
      "invar s \<Longrightarrow> so_get_job_by_name S n s = (Inr (Some j), s') \<Longrightarrow>
       s' = s \<and> jobs_of s (j_job_id j) = Some j \<and> j_job_name j = n"
    and get_job_by_name_None:
      "invar s \<Longrightarrow> so_get_job_by_name S n s = (Inr None, s') \<Longrightarrow>
       s' = s \<and> (\<forall>i j. jobs_of s i = Some j \<longrightarrow> j_job_name j \<noteq> n)"
    and get_job_by_name_ok: "invar s \<Longrightarrow> \<exists>r. so_get_job_by_name S n s = (Inr r, s)"
    and job_key: "invar s \<Longrightarrow> jobs_of s i = Some j \<Longrightarrow> j_job_id j = i"
    and name_unique:
      "invar s \<Longrightarrow> jobs_of s i = Some j \<Longrightarrow> jobs_of s i' = Some j' \<Longrightarrow>
       j_job_name j = j_job_name j' \<Longrightarrow> i = i'"
    and upsert_job_ok:
      "invar s \<Longrightarrow> (\<forall>i j'. jobs_of s i = Some j' \<longrightarrow> j_job_name j' = j_job_name j \<longrightarrow> i = j_job_id j) \<Longrightarrow>
       \<exists>s'. so_upsert_job S j s = (Inr (), s') \<and> invar s' \<and>
            jobs_of s' = (jobs_of s)(j_job_id j \<mapsto> j) \<and> runs_of s' = runs_of s"
    and upsert_job_taken:
      "invar s \<Longrightarrow> jobs_of s i = Some j' \<Longrightarrow> j_job_name j' = j_job_name j \<Longrightarrow> i \<noteq> j_job_id j \<Longrightarrow>
       so_upsert_job S j s = (Inl (JobNameTaken (j_job_name j) i), s)"

locale run_table = job_table S invar jobs_of runs_of
  for S :: "'s scheduler_store" and invar jobs_of runs_of +
  assumes create_run:
      "invar s \<Longrightarrow> runs_of s (r_run_id r) = None \<Longrightarrow>
       \<exists>s'. so_create_run S r s = (Inr (), s') \<and> invar s' \<and>
            runs_of s' = (runs_of s)(r_run_id r \<mapsto> r) \<and> jobs_of s' = jobs_of s"
    and get_run: "invar s \<Longrightarrow> so_get_run S i s = (Inr (runs_of s i), s)"
    and run_key: "invar s \<Longrightarrow> runs_of s i = Some r \<Longrightarrow> r_run_id r = i"
    and update_run_ok:
      "invar s \<Longrightarrow> runs_of s (r_run_id r) \<noteq> None \<Longrightarrow>
       \<exists>s'. so_update_run S r s = (Inr (), s') \<and> invar s' \<and>
            runs_of s' = (runs_of s)(r_run_id r \<mapsto> r) \<and> jobs_of s' = jobs_of s"
    and update_run_missing:
      "invar s \<Longrightarrow> runs_of s (r_run_id r) = None \<Longrightarrow>
       \<exists>s'. so_update_run S r s = (Inl (RunNotFound (r_run_id r)), s') \<and> invar s' \<and>
            runs_of s' = runs_of s \<and> jobs_of s' = jobs_of s"
    and list_runs_for_job:
      "invar s \<Longrightarrow> n \<le> 9223372036854775807 \<Longrightarrow> \<exists>rs. so_list_runs_for_job S i n s = (Inr rs, s) \<and> length rs \<le> n \<and>
         distinct rs \<and> set rs \<subseteq> {r. runs_of s (r_run_id r) = Some r \<and> r_job_id r = Some i} \<and>
         (length rs < n \<longrightarrow> set rs = {r. runs_of s (r_run_id r) = Some r \<and> r_job_id r = Some i})"

text \<open>
  \<open>once_free who now j\<close>: instance \<open>who\<close> may claim the run-once job \<open>j\<close> at \<open>now\<close>. Backends agree on rows
  that a claim or a completion wrote, which is what a coordinator relies on.
\<close>

locale coordinator_claims = run_table S invar jobs_of runs_of
  for S :: "'s scheduler_store" and invar jobs_of runs_of +
  fixes once_free :: "string \<Rightarrow> time \<Rightarrow> job \<Rightarrow> bool"
  assumes claim_tick_yes:
      "invar s \<Longrightarrow> jobs_of s i = Some j \<Longrightarrow> tick_claimable now j \<Longrightarrow>
       \<exists>s'. so_claim_job_for_tick S i cid now ttl s = (Inr True, s') \<and> invar s' \<and>
            jobs_of s' = (jobs_of s)(i \<mapsto> row_tick_claim cid now ttl j) \<and> runs_of s' = runs_of s"
    and claim_tick_no:
      "invar s \<Longrightarrow> (\<forall>j. jobs_of s i = Some j \<longrightarrow> \<not> tick_claimable now j) \<Longrightarrow>
       so_claim_job_for_tick S i cid now ttl s = (Inr False, s)"
    and release_tick:
      "invar s \<Longrightarrow> jobs_of s i = Some j \<Longrightarrow>
       \<exists>s'. so_release_job_tick_claim S clk i s = (Inr (), s') \<and> invar s' \<and>
            jobs_of s' = (jobs_of s)(i \<mapsto> row_tick_release clk j) \<and> runs_of s' = runs_of s"
    and persist_post_tick:
      "invar s \<Longrightarrow> jobs_of s i = Some j \<Longrightarrow>
       \<exists>s'. so_persist_post_tick_job_state S clk i nra s = (Inr (), s') \<and> invar s' \<and>
            jobs_of s' = (jobs_of s)(i \<mapsto> row_post_tick clk nra j) \<and> runs_of s' = runs_of s"
    and once_claim_yes:
      "invar s \<Longrightarrow> jobs_of s i = Some j \<Longrightarrow> once_free by now j \<Longrightarrow>
       \<exists>s'. so_try_claim_run_once S i by now ttl s = (Inr True, s') \<and> invar s' \<and>
            jobs_of s' = (jobs_of s)(i \<mapsto> row_once_claim by now ttl j) \<and> runs_of s' = runs_of s"
    and once_claim_no:
      "invar s \<Longrightarrow> (\<forall>j. jobs_of s i = Some j \<longrightarrow> \<not> once_free by now j) \<Longrightarrow>
       so_try_claim_run_once S i by now ttl s = (Inr False, s)"
    and once_complete:
      "invar s \<Longrightarrow> jobs_of s i = Some j \<Longrightarrow>
       \<exists>s' u. so_mark_run_once_completed S clk i at s = (Inr (), s') \<and> invar s' \<and>
            jobs_of s' = (jobs_of s)(i \<mapsto> row_once_complete u at j) \<and> runs_of s' = runs_of s"
    and once_blocked:
      "b \<noteq> a \<Longrightarrow> now' < add_secs now ttl \<Longrightarrow> \<not> once_free b now' (row_once_claim a now ttl j)"
    and once_completed: "j_run_once_completed_at j \<noteq> None \<Longrightarrow> \<not> once_free b now j"
    and once_ticked: "once_free b t (row_tick_claim cid now ttl j) = once_free b t j"

text \<open>What a worker relies on when it claims the next run.\<close>

locale run_claims = run_table S invar jobs_of runs_of
  for S :: "'s scheduler_store" and invar jobs_of runs_of +
  assumes claim_next_Some:
      "invar s \<Longrightarrow> so_claim_next_queued S pool wid now ttl s = (Inr (Some r), s') \<Longrightarrow>
       invar s' \<and> runs_of s (r_run_id r) \<noteq> None \<and> runs_of s' = (runs_of s)(r_run_id r \<mapsto> r) \<and>
       jobs_of s' = jobs_of s \<and> r_status r = Claimed \<and> r_claimed_by r = Some wid \<and>
       r_claim_lease_until r = Some (add_secs now ttl)"
    and claim_next_other:
      "invar s \<Longrightarrow> so_claim_next_queued S pool wid now ttl s = (a, s') \<Longrightarrow>
       (\<forall>r. a \<noteq> Inr (Some r)) \<Longrightarrow>
       a = Inr None \<and> invar s' \<and> runs_of s' = runs_of s \<and> jobs_of s' = jobs_of s"

text \<open>The revision log beside the job table, as the coordinator service relies on it.\<close>

locale revision_log = run_table S invar jobs_of runs_of
  for S :: "'s scheduler_store" and invar jobs_of runs_of +
  fixes revs_of :: "'s \<Rightarrow> string \<Rightarrow> job_revision list"
  assumes append_revision:
      "invar s \<Longrightarrow> \<exists>s'. so_append_revision S v s = (Inr (), s') \<and> invar s' \<and>
         jobs_of s' = jobs_of s \<and> runs_of s' = runs_of s \<and>
         revs_of s' = (revs_of s)(v_job_id v := revs_of s (v_job_id v) @ [v])"
    and list_revisions: "invar s \<Longrightarrow> so_list_revisions S i s = (Inr (revs_of s i), s)"
    and upsert_job_revs: "invar s \<Longrightarrow> revs_of (snd (so_upsert_job S j s)) = revs_of s"
    and create_run_revs: "invar s \<Longrightarrow> revs_of (snd (so_create_run S r s)) = revs_of s"

lemmas row_change_defs =
  row_tick_claim_def row_tick_release_def row_post_tick_def row_once_claim_def
  row_once_complete_def row_once_release_def

lemma row_once_claim_blocks:
  "b \<noteq> a \<Longrightarrow> now' < add_secs now ttl \<Longrightarrow> \<not> once_claimable b now' (row_once_claim a now ttl j)"
  by (simp add: once_claimable_def row_once_claim_def)

lemma row_once_complete_blocks: "\<not> once_claimable b now' (row_once_complete clk at j)"
  by (simp add: once_claimable_def row_once_complete_def)

lemma row_tick_claim_blocks:
  "now' \<le> add_secs now ttl \<Longrightarrow> \<not> tick_claimable now' (row_tick_claim cid now ttl j)"
  by (simp add: tick_claimable_def row_tick_claim_def)

context coordinator_claims
begin

lemma once_claimed_row:
  assumes "invar s" "so_try_claim_run_once S i a now ttl s = (Inr True, s1)"
  shows "\<exists>j. jobs_of s i = Some j \<and> once_free a now j \<and> invar s1 \<and>
             jobs_of s1 i = Some (row_once_claim a now ttl j)"
proof (cases "\<exists>j. jobs_of s i = Some j \<and> once_free a now j")
  case True
  then show ?thesis using once_claim_yes[OF assms(1), of i _ a now ttl] assms(2) by fastforce
next
  case False
  then show ?thesis using once_claim_no[OF assms(1), of i a now ttl] assms(2) by auto
qed

lemma once_claim_exclusive:
  assumes "invar s" "so_try_claim_run_once S i a now ttl s = (Inr True, s1)" "b \<noteq> a"
    "now' < add_secs now ttl"
  shows "so_try_claim_run_once S i b now' ttl' s1 = (Inr False, s1)"
  using once_claimed_row[OF assms(1,2)] assms(3,4)
  by (auto intro!: once_claim_no simp: once_blocked)

lemma once_completed_refused:
  assumes "invar s" "jobs_of s i = Some j" "so_mark_run_once_completed S clk i at s = (res, s1)"
  shows "so_try_claim_run_once S i b now' ttl' s1 = (Inr False, s1)"
  using once_complete[OF assms(1,2), of clk "at"] assms(3)
  by (auto intro!: once_claim_no simp: once_completed row_once_complete_def)

lemma tick_claimed_row:
  assumes "invar s" "so_claim_job_for_tick S i cid now ttl s = (Inr True, s1)"
  shows "\<exists>j. jobs_of s i = Some j \<and> tick_claimable now j \<and> invar s1 \<and>
             jobs_of s1 = (jobs_of s)(i \<mapsto> row_tick_claim cid now ttl j) \<and> runs_of s1 = runs_of s"
proof (cases "\<exists>j. jobs_of s i = Some j \<and> tick_claimable now j")
  case True
  then show ?thesis using claim_tick_yes[OF assms(1), of i _ now cid ttl] assms(2) by fastforce
next
  case False
  then show ?thesis using claim_tick_no[OF assms(1), of i now cid ttl] assms(2) by auto
qed

lemma tick_claim_exclusive:
  assumes "invar s" "so_claim_job_for_tick S i cid now ttl s = (Inr True, s1)"
    "now' \<le> add_secs now ttl"
  shows "so_claim_job_for_tick S i cid' now' ttl' s1 = (Inr False, s1)"
  using tick_claimed_row[OF assms(1,2)] assms(3)
  by (auto intro!: claim_tick_no simp: row_tick_claim_blocks)

end

text \<open>The coordinator's queries change nothing; a batch is bounded and names stored enabled jobs.\<close>

locale due_queries = coordinator_claims S invar jobs_of runs_of once_free
  for S :: "'s scheduler_store" and invar jobs_of runs_of once_free +
  assumes find_due:
      "invar s \<Longrightarrow> \<exists>ids. so_find_due_job_ids_in_partitions S clk owned due_until limit s = (Inr ids, s) \<and>
         length ids \<le> limit \<and> distinct ids \<and>
         (\<forall>i \<in> set ids. \<exists>j. jobs_of s i = Some j \<and> j_enabled j \<and>
            (\<exists>t. j_next_run_at j = Some t \<and> t \<le> due_until))"
    and min_next: "invar s \<Longrightarrow> \<exists>m. so_min_next_run_at_in_partitions S owned s = (Inr m, s)"

section \<open>Contracts of the coordination rows\<close>

text \<open>
  \<open>parts_of\<close> reads the partition table and \<open>leader_of\<close> the leader row out of a backend state.
\<close>

locale partition_table =
  fixes S :: "'s scheduler_store"
    and invar :: "'s \<Rightarrow> bool"
    and parts_of :: "'s \<Rightarrow> string \<Rightarrow> partition_assignment option"
  assumes list_partitions:
      "invar s \<Longrightarrow> \<exists>rows. so_list_partition_assignments S s = (Inr rows, s) \<and>
         distinct (map pa_partition_id rows) \<and>
         (\<forall>r. r \<in> set rows \<longleftrightarrow> parts_of s (pa_partition_id r) = Some r)"
    and partition_key: "invar s \<Longrightarrow> parts_of s k = Some r \<Longrightarrow> pa_partition_id r = k"
    and upsert_partition:
      "invar s \<Longrightarrow> \<exists>s'. so_upsert_partition_assignment S a s = (Inr (), s') \<and> invar s' \<and>
         parts_of s' = (parts_of s)(pa_partition_id a \<mapsto> a)"

definition leader_live_other :: "time \<Rightarrow> string \<Rightarrow> scheduler_leader option \<Rightarrow> bool" where
  "leader_live_other now i row \<longleftrightarrow>
     (case row of None \<Rightarrow> False
      | Some l \<Rightarrow> now < l_leader_lease_until l \<and> l_leader_instance_id l \<noteq> i)"

locale leader_row =
  fixes S :: "'s scheduler_store"
    and invar :: "'s \<Rightarrow> bool"
    and leader_of :: "'s \<Rightarrow> scheduler_leader option"
  assumes acquire_no:
      "invar s \<Longrightarrow> leader_live_other now i (leader_of s) \<Longrightarrow>
       so_try_acquire_leader S now i ttl s = (Inr False, s)"
    and acquire_yes:
      "invar s \<Longrightarrow> \<not> leader_live_other now i (leader_of s) \<Longrightarrow>
       \<exists>s' l. so_try_acquire_leader S now i ttl s = (Inr True, s') \<and> invar s' \<and>
         leader_of s' = Some l \<and> l_leader_instance_id l = i \<and>
         l_leader_lease_until l = add_secs now ttl"
    and renew_mine:
      "invar s \<Longrightarrow> leader_of s = Some l \<Longrightarrow> l_leader_instance_id l = i \<Longrightarrow>
       \<exists>s' l'. so_renew_leader_lease S now i ttl s = (Inr (), s') \<and> invar s' \<and>
         leader_of s' = Some l' \<and> l_leader_instance_id l' = i \<and>
         l_leader_lease_until l' = add_secs now ttl"
    and renew_other:
      "invar s \<Longrightarrow> (\<forall>l. leader_of s = Some l \<longrightarrow> l_leader_instance_id l \<noteq> i) \<Longrightarrow>
       so_renew_leader_lease S now i ttl s = (Inr (), s)"
    and get_leader: "invar s \<Longrightarrow> so_get_leader S s = (Inr (leader_of s), s)"

end
