(* ===== verification/Partitioning.thy ===== *)
theory Partitioning
  imports Store_Port
begin

text \<open>
  \<^verbatim>\<open>chronon-scheduler\<close>: cron expressions (\<^verbatim>\<open>cron.rs\<close>), environment flags (\<^verbatim>\<open>env.rs\<close>), partition
  buckets and the settings read from environment variables (\<^verbatim>\<open>partitioning.rs\<close>). An environment is
  a partial map from names to values; a value that is not Unicode counts as absent, as
  \<^verbatim>\<open>std::env::var(..).ok()\<close> does.
\<close>

type_synonym env = "string \<Rightarrow> string option"

section \<open>Cron expressions\<close>

record ('sc, 'tz) cron_expr =
  ce_expr :: string
  ce_schedule :: 'sc
  ce_timezone :: 'tz

definition cron_parse ::
  "('sc, 'tz) ext \<Rightarrow> string \<Rightarrow> string option \<Rightarrow> ('sc, 'tz) cron_expr res" where
  "cron_parse X expr timezone =
     (case x_cron_parse X expr of
        Inl e \<Rightarrow> Inl (InvalidCron (expr @ '': '' @ e))
      | Inr schedule \<Rightarrow>
          (case (case timezone of
                   Some tz_str \<Rightarrow>
                     (case x_tz_parse X tz_str of
                        None \<Rightarrow> Inl (InvalidTimezone tz_str) | Some tz \<Rightarrow> Inr tz)
                 | None \<Rightarrow> Inr (x_tz_utc X)) of
             Inl e \<Rightarrow> Inl e
           | Inr tz \<Rightarrow> Inr \<lparr>ce_expr = expr, ce_schedule = schedule, ce_timezone = tz\<rparr>))"

definition next_after ::
  "('sc, 'tz) ext \<Rightarrow> ('sc, 'tz) cron_expr \<Rightarrow> time \<Rightarrow> time option" where
  "next_after X c after = x_cron_next X (ce_schedule c) (ce_timezone c) after"

definition next_from_now ::
  "('sc, 'tz) ext \<Rightarrow> ('sc, 'tz) cron_expr \<Rightarrow> ('s, time option) proc" where
  "next_from_now X c = do { now \<leftarrow> utc_now; ret (next_after X c now) }"

text \<open>Number of maximal runs of non-space characters, as \<^verbatim>\<open>split_whitespace().count()\<close>.\<close>

function count_words :: "bool \<Rightarrow> string \<Rightarrow> nat" where
  "count_words in_word s =
     (if s = [] then 0
      else case ws_prefix s of
        Some w \<Rightarrow> count_words False (drop (length w) s)
      | None \<Rightarrow> (if in_word then 0 else 1) + count_words True (tl s))"
  by pat_completeness auto
termination
  by (relation "measure (length \<circ> snd)") (auto dest: ws_prefix_len)

declare count_words.simps [simp del]

definition has_seconds :: "('sc, 'tz) cron_expr \<Rightarrow> bool" where
  "has_seconds c \<longleftrightarrow> count_words False (ce_expr c) = 6"

section \<open>Environment\<close>

definition env_flag :: "env \<Rightarrow> string \<Rightarrow> bool" where
  "env_flag env name =
     (case env name of
        None \<Rightarrow> False
      | Some v \<Rightarrow> v = ''1'' \<or> to_ascii_lowercase v = ''true'')"

text \<open>A positive number in the range of the variable's type, or the default.\<close>

definition env_unsigned :: "env \<Rightarrow> string \<Rightarrow> nat \<Rightarrow> nat \<Rightarrow> nat" where
  "env_unsigned env name mx dflt =
     (case Option.bind (env name) (parse_unsigned mx) of
        None \<Rightarrow> dflt | Some n \<Rightarrow> if 1 \<le> n then n else dflt)"

definition env_i64 :: "env \<Rightarrow> string \<Rightarrow> int \<Rightarrow> int" where
  "env_i64 env name dflt =
     (case Option.bind (env name) (parse_signed i64_min i64_max) of
        None \<Rightarrow> dflt | Some n \<Rightarrow> if 1 \<le> n then n else dflt)"

definition num_partitions_from_env :: "env \<Rightarrow> nat" where
  "num_partitions_from_env env = env_unsigned env ''CHRONON_NUM_PARTITIONS'' u32_max 64"

definition tick_interval_ms_from_env :: "env \<Rightarrow> nat" where
  "tick_interval_ms_from_env env = env_unsigned env ''CHRONON_TICK_INTERVAL_MS'' u64_max 250"

definition tick_batch_limit_from_env :: "env \<Rightarrow> nat" where
  "tick_batch_limit_from_env env = env_unsigned env ''CHRONON_TICK_BATCH_LIMIT'' u32_max 500"

definition job_claim_lease_ttl_secs :: "env \<Rightarrow> int" where
  "job_claim_lease_ttl_secs env = env_i64 env ''CHRONON_JOB_CLAIM_LEASE_TTL_S'' 5"

definition partition_lease_ttl_secs :: "env \<Rightarrow> int" where
  "partition_lease_ttl_secs env = env_i64 env ''CHRONON_PARTITION_LEASE_TTL_S'' 30"

definition partition_lease_renew_interval_secs :: "env \<Rightarrow> nat" where
  "partition_lease_renew_interval_secs env =
     env_unsigned env ''CHRONON_PARTITION_LEASE_RENEW_S'' u64_max 5"

definition run_worker_lease_ttl_secs :: "env \<Rightarrow> int" where
  "run_worker_lease_ttl_secs env = env_i64 env ''CHRONON_RUN_LEASE_TTL_S'' 300"

definition run_worker_lease_renew_secs :: "env \<Rightarrow> nat" where
  "run_worker_lease_renew_secs env = env_unsigned env ''CHRONON_RUN_LEASE_RENEW_S'' u64_max 1"

definition worker_pool_from_env :: "env \<Rightarrow> string" where
  "worker_pool_from_env env =
     (case env ''CHRONON_WORKER_POOL'' of None \<Rightarrow> ''general'' | Some p \<Rightarrow> p)"

definition worker_concurrency_from_env :: "env \<Rightarrow> nat" where
  "worker_concurrency_from_env env = env_unsigned env ''CHRONON_WORKER_CONCURRENCY'' u64_max 4"

section \<open>Partitions and pools\<close>

definition partition_index_for_job_id :: "('sc, 'tz) ext \<Rightarrow> string \<Rightarrow> nat \<Rightarrow> nat" where
  "partition_index_for_job_id X job_id num_partitions =
     (let n = max num_partitions 1; h = x_xxh64 X job_id in h mod n)"

definition partition_hash_i64_for_job_id :: "('sc, 'tz) ext \<Rightarrow> env \<Rightarrow> string \<Rightarrow> int" where
  "partition_hash_i64_for_job_id X env job_id =
     int (partition_index_for_job_id X job_id (num_partitions_from_env env))"

abbreviation default_pool :: string where "default_pool \<equiv> ''general''"

definition job_execution_pool_id :: "job \<Rightarrow> string" where
  "job_execution_pool_id j =
     (case j_pool j of
        None \<Rightarrow> default_pool
      | Some s \<Rightarrow> let t = trim s in if t \<noteq> [] then t else default_pool)"

section \<open>Facts\<close>

lemma env_unsigned_pos: "1 \<le> dflt \<Longrightarrow> 1 \<le> env_unsigned env name mx dflt"
  by (auto simp: env_unsigned_def split: option.splits)

lemma env_i64_pos: "1 \<le> dflt \<Longrightarrow> 1 \<le> env_i64 env name dflt"
  by (auto simp: env_i64_def split: option.splits)

lemma env_i64_le: "dflt \<le> i64_max \<Longrightarrow> env_i64 env name dflt \<le> i64_max"
  by (auto simp: env_i64_def bind_eq_Some_conv dest!: parse_signed_range split: option.splits if_splits)

lemma env_unsigned_le: "dflt \<le> mx \<Longrightarrow> env_unsigned env name mx dflt \<le> mx"
  by (auto simp: env_unsigned_def bind_eq_Some_conv dest!: parse_unsigned_le split: option.splits if_splits)

lemmas env_defs =
  num_partitions_from_env_def tick_interval_ms_from_env_def tick_batch_limit_from_env_def
  job_claim_lease_ttl_secs_def partition_lease_ttl_secs_def partition_lease_renew_interval_secs_def
  run_worker_lease_ttl_secs_def run_worker_lease_renew_secs_def worker_concurrency_from_env_def

lemma partition_index_lt: "partition_index_for_job_id X i n < max n 1"
  by (simp add: partition_index_for_job_id_def)

lemma partition_hash_range:
  "0 \<le> partition_hash_i64_for_job_id X env i"
  "partition_hash_i64_for_job_id X env i < int (num_partitions_from_env env)"
  using partition_index_lt[of X i "num_partitions_from_env env"]
    env_unsigned_pos[of 64 env "''CHRONON_NUM_PARTITIONS''" u32_max]
  by (auto simp: partition_hash_i64_for_job_id_def num_partitions_from_env_def)

end
