(* ===== verification/Mem_Facts.thy ===== *)
theory Mem_Facts
  imports Mem_Store
begin

text \<open>
  Consistency of the in-memory maps, kept by every operation; the state machine of the backend
  and its reachable states; the interpretation of the port's contracts on the backend.
\<close>

section \<open>Consistency\<close>

text \<open>
  Keys are unique and agree with the identifier stored in the row; the name index holds exactly
  the names of the stored jobs.
\<close>

definition jobs_ok :: "mem_store \<Rightarrow> bool" where
  "jobs_ok st \<longleftrightarrow>
     hm_ok (m_jobs st) \<and> hm_ok (m_jobs_by_name st) \<and>
     (\<forall>i j. hm_get (m_jobs st) i = Some j \<longrightarrow> j_job_id j = i) \<and>
     (\<forall>n i. hm_get (m_jobs_by_name st) n = Some i \<longleftrightarrow>
        (\<exists>j. hm_get (m_jobs st) i = Some j \<and> j_job_name j = n))"

definition runs_ok :: "mem_store \<Rightarrow> bool" where
  "runs_ok st \<longleftrightarrow>
     hm_ok (m_runs st) \<and> (\<forall>i r. hm_get (m_runs st) i = Some r \<longrightarrow> r_run_id r = i)"

definition meta_ok :: "mem_store \<Rightarrow> bool" where
  "meta_ok st \<longleftrightarrow>
     hm_ok (m_revisions st) \<and> hm_ok (m_scripts st) \<and> hm_ok (m_partitions st) \<and>
     hm_ok (m_workers st) \<and>
     (\<forall>i vs. hm_get (m_revisions st) i = Some vs \<longrightarrow> (\<forall>v \<in> set vs. v_job_id v = i)) \<and>
     (\<forall>i a. hm_get (m_partitions st) i = Some a \<longrightarrow> pa_partition_id a = i) \<and>
     (\<forall>i w. hm_get (m_workers st) i = Some w \<longrightarrow> k_worker_id w = i)"

definition mem_inv :: "mem_store \<Rightarrow> bool" where
  "mem_inv st \<longleftrightarrow> jobs_ok st \<and> runs_ok st \<and> meta_ok st"

lemma mem_inv_new: "mem_inv mem_new"
  by (simp add: mem_inv_def jobs_ok_def runs_ok_def meta_ok_def mem_new_def)

lemmas frame_defs = jobs_ok_def runs_ok_def meta_ok_def

lemma jobs_okD:
  assumes "jobs_ok st"
  shows "hm_ok (m_jobs st)" "hm_ok (m_jobs_by_name st)"
    "hm_get (m_jobs st) i = Some j \<Longrightarrow> j_job_id j = i"
    "hm_get (m_jobs_by_name st) n = Some i \<longleftrightarrow>
       (\<exists>j. hm_get (m_jobs st) i = Some j \<and> j_job_name j = n)"
  using assms by (auto simp: jobs_ok_def)

lemma jobs_ok_name_unique:
  "jobs_ok st \<Longrightarrow> hm_get (m_jobs st) i = Some j \<Longrightarrow> hm_get (m_jobs st) i' = Some j' \<Longrightarrow>
   j_job_name j = j_job_name j' \<Longrightarrow> i = i'"
  using jobs_okD(4)[of st] by (metis option.inject)

text \<open>A row is replaced by one with the same identifier and name.\<close>

lemma jobs_ok_replace:
  assumes "jobs_ok st" "hm_get (m_jobs st) i = Some j" "j_job_id j' = j_job_id j"
    "j_job_name j' = j_job_name j"
  shows "jobs_ok (st\<lparr>m_jobs := hm_insert i j' (m_jobs st)\<rparr>)"
proof -
  have "\<forall>n k. (\<exists>x. ((hm_get (m_jobs st))(i \<mapsto> j')) k = Some x \<and> j_job_name x = n) \<longleftrightarrow>
              (\<exists>x. hm_get (m_jobs st) k = Some x \<and> j_job_name x = n)"
    using assms by auto
  with assms show ?thesis by (auto simp: jobs_ok_def hm_simps)
qed

lemma jobs_ok_insert_job:
  assumes ok: "jobs_ok st"
    and free: "\<forall>i. hm_get (m_jobs_by_name st) (j_job_name job) = Some i \<longrightarrow> i = j_job_id job"
  shows "jobs_ok (insert_job job st)"
proof -
  let ?J = "(hm_get (m_jobs st))(j_job_id job \<mapsto> job)"
  define bn where "bn = (case hm_get (m_jobs st) (j_job_id job) of
            Some previous \<Rightarrow>
              if j_job_name previous \<noteq> j_job_name job
              then hm_remove (j_job_name previous) (m_jobs_by_name st)
              else m_jobs_by_name st
          | None \<Rightarrow> m_jobs_by_name st)"
  have bn_ok: "hm_ok bn" using jobs_okD(2)[OF ok] by (auto simp: bn_def split: option.splits)
  have idx: "((hm_get bn)(j_job_name job \<mapsto> j_job_id job)) n = Some i \<longleftrightarrow>
             (\<exists>j. ?J i = Some j \<and> j_job_name j = n)" for n i
  proof (cases "hm_get (m_jobs st) (j_job_id job)")
    case None
    then have "bn = m_jobs_by_name st" by (simp add: bn_def)
    with None free jobs_okD(4)[OF ok] show ?thesis by (auto split: if_splits)
  next
    case (Some prev)
    have "hm_get bn = (hm_get (m_jobs_by_name st))(j_job_name prev :=
            if j_job_name prev \<noteq> j_job_name job then None
            else hm_get (m_jobs_by_name st) (j_job_name prev))"
      using Some by (auto simp: bn_def hm_simps)
    with Some free jobs_okD(4)[OF ok] jobs_ok_name_unique[OF ok] show ?thesis
      by (auto split: if_splits)
  qed
  have "insert_job job st = st\<lparr>m_jobs_by_name := hm_insert (j_job_name job) (j_job_id job) bn,
            m_jobs := hm_insert (j_job_id job) job (m_jobs st)\<rparr>"
    by (simp add: insert_job_def bn_def)
  with idx bn_ok ok show ?thesis by (simp add: jobs_ok_def hm_simps)
qed

lemma insert_job_frame [simp]:
  "m_runs (insert_job job st) = m_runs st" "m_revisions (insert_job job st) = m_revisions st"
  "m_scripts (insert_job job st) = m_scripts st" "m_leader (insert_job job st) = m_leader st"
  "m_partitions (insert_job job st) = m_partitions st" "m_workers (insert_job job st) = m_workers st"
  "hm_get (m_jobs (insert_job job st)) = (hm_get (m_jobs st))(j_job_id job \<mapsto> job)"
  by (simp_all add: insert_job_def Let_def hm_simps)

lemma jobs_ok_remove:
  assumes "jobs_ok st" "hm_get (m_jobs st) i = Some j"
  shows "jobs_ok (st\<lparr>m_jobs := hm_remove i (m_jobs st),
                     m_jobs_by_name := hm_remove (j_job_name j) (m_jobs_by_name st),
                     m_revisions := R\<rparr>)"
proof -
  have "((hm_get (m_jobs_by_name st))(j_job_name j := None)) n = Some k \<longleftrightarrow>
        (\<exists>x. ((hm_get (m_jobs st))(i := None)) k = Some x \<and> j_job_name x = n)" for n k
    using assms jobs_okD(4)[OF assms(1)] jobs_ok_name_unique[OF assms(1)]
    by (auto split: if_splits)
  with assms show ?thesis by (simp add: jobs_ok_def hm_simps)
qed

section \<open>Every operation keeps the store consistent\<close>

lemma inv_runs_insert:
  "mem_inv st \<Longrightarrow> r_run_id r = i \<Longrightarrow> mem_inv (st\<lparr>m_runs := hm_insert i r (m_runs st)\<rparr>)"
  by (auto simp: mem_inv_def frame_defs hm_simps split: if_splits)

lemma inv_jobs_replace:
  "mem_inv st \<Longrightarrow> hm_get (m_jobs st) i = Some j \<Longrightarrow> j_job_id j' = j_job_id j \<Longrightarrow>
   j_job_name j' = j_job_name j \<Longrightarrow> mem_inv (st\<lparr>m_jobs := hm_insert i j' (m_jobs st)\<rparr>)"
  using jobs_ok_replace[of st i j j'] by (auto simp: mem_inv_def runs_ok_def meta_ok_def)

lemma inv_upsert_job: "mem_inv st \<Longrightarrow> mem_inv (snd (mem_upsert_job job st))"
  using jobs_ok_insert_job[of st job]
  by (auto simp: mem_inv_def mem_upsert_job_def write_job_def runs_ok_def meta_ok_def
      split: option.splits)

lemma inv_delete_job: "mem_inv st \<Longrightarrow> mem_inv (snd (mem_delete_job i st))"
  using jobs_ok_remove[of st i]
  by (auto simp: mem_inv_def mem_delete_job_def remove_job_def runs_ok_def meta_ok_def hm_simps
      split: option.splits if_splits)

lemma inv_mutate_job:
  "mem_inv st \<Longrightarrow> (\<And>j. j_job_id (f j) = j_job_id j \<and> j_job_name (f j) = j_job_name j) \<Longrightarrow>
   mem_inv (snd (mutate_job clk i f st)) \<and> mem_inv (snd (mutate_job_at i clk f st))"
  by (auto simp: mutate_job_def mutate_job_at_def split: option.splits intro!: inv_jobs_replace)

lemmas mutate_op_defs =
  mem_pause_job_def mem_resume_job_def mem_mark_run_once_completed_def
  mem_release_run_once_claim_def mem_release_job_tick_claim_def mem_persist_post_tick_job_state_def

lemma inv_mutate_ops:
  assumes "mem_inv st"
  shows "mem_inv (snd (mem_pause_job clk i st))" "mem_inv (snd (mem_resume_job clk i st))"
    "mem_inv (snd (mem_mark_run_once_completed clk i at st))"
    "mem_inv (snd (mem_release_run_once_claim i by now st))"
    "mem_inv (snd (mem_release_job_tick_claim clk i st))"
    "mem_inv (snd (mem_persist_post_tick_job_state clk i nra st))"
  using assms by (auto simp: mutate_op_defs inv_mutate_job)

lemma inv_job_claims:
  assumes "mem_inv st"
  shows "mem_inv (snd (mem_try_claim_run_once i by now ttl st))"
    "mem_inv (snd (mem_claim_job_for_tick i cid now ttl st))"
  using assms
  by (auto simp: mem_try_claim_run_once_def mem_claim_job_for_tick_def
      split: option.splits intro!: inv_jobs_replace)

lemma runs_okD: "mem_inv st \<Longrightarrow> hm_get (m_runs st) i = Some r \<Longrightarrow> r_run_id r = i"
  by (auto simp: mem_inv_def runs_ok_def)

lemma inv_hm_runs: "mem_inv st \<Longrightarrow> hm_ok (m_runs st)"
  by (auto simp: mem_inv_def runs_ok_def)

lemma inv_hm_jobs: "mem_inv st \<Longrightarrow> hm_ok (m_jobs st)"
  by (auto simp: mem_inv_def jobs_ok_def)

lemma pick_candidate_in:
  "pick_candidate p now c rs = Some (i, r) \<Longrightarrow> c = Some (i, r) \<or> ((i, r) \<in> set rs \<and> claim_eligible p now r)"
  by (induction p now c rs rule: pick_candidate.induct) (fastforce split: if_splits)+

lemma pick_candidate_get:
  "mem_inv st \<Longrightarrow> pick_candidate p now None (m_runs st) = Some (i, r) \<Longrightarrow>
   hm_get (m_runs st) i = Some r \<and> claim_eligible p now r \<and> r_run_id r = i"
  by (auto dest!: pick_candidate_in simp: hm_entry_iff inv_hm_runs intro: runs_okD)

lemma mark_claimed_sel [simp]:
  "r_run_id (mark_claimed w now ttl r) = r_run_id r"
  "r_status (mark_claimed w now ttl r) = Claimed"
  "r_claimed_by (mark_claimed w now ttl r) = Some w"
  "r_claim_lease_until (mark_claimed w now ttl r) = Some (add_secs now ttl)"
  "r_scheduled_for (mark_claimed w now ttl r) = r_scheduled_for r"
  "r_job_id (mark_claimed w now ttl r) = r_job_id r"
  by (simp_all add: mark_claimed_def)

lemma requeue_sel [simp]:
  "r_run_id (requeue r) = r_run_id r" "r_status (requeue r) = Queued"
  "r_claimed_by (requeue r) = None" "r_claim_lease_until (requeue r) = None"
  by (simp_all add: requeue_def)

lemma inv_run_ops:
  assumes "mem_inv st"
  shows "mem_inv (snd (mem_create_run r st))" "mem_inv (snd (mem_update_run r st))"
    "mem_inv (snd (mem_claim_next_queued p w now ttl st))"
    "mem_inv (snd (mem_claim_run_by_id i p w now ttl st))"
    "mem_inv (snd (mem_renew_run_lease i w now ttl st))"
  using assms
  by (auto simp: mem_create_run_def mem_update_run_def mem_claim_next_queued_def
      mem_claim_run_by_id_def mem_renew_run_lease_def Let_def
      split: option.splits dest: pick_candidate_get runs_okD intro!: inv_runs_insert)

lemma inv_reclaim: "mem_inv st \<Longrightarrow> mem_inv (snd (mem_reclaim_expired_run_leases now st))"
  by (auto simp: mem_inv_def frame_defs mem_reclaim_expired_run_leases_def hm_simps
      split: if_splits)

lemma inv_meta_ops:
  assumes "mem_inv st"
  shows "mem_inv (snd (mem_upsert_script s st))"
    "mem_inv (snd (mem_try_acquire_leader now inst ttl st))"
    "mem_inv (snd (mem_renew_leader_lease now inst ttl st))"
    "mem_inv (snd (mem_upsert_partition_assignment a st))"
    "mem_inv (snd (mem_register_worker w st))" "mem_inv (snd (mem_heartbeat_worker i at st))"
  using assms
  by (auto simp: mem_inv_def frame_defs mem_upsert_script_def
      mem_try_acquire_leader_def mem_renew_leader_lease_def mem_upsert_partition_assignment_def
      mem_register_worker_def mem_heartbeat_worker_def hm_simps opt_or_def
      split: option.splits if_splits)

lemma inv_append_revision: "mem_inv st \<Longrightarrow> mem_inv (snd (mem_append_revision v st))"
  by (cases "hm_get (m_revisions st) (v_job_id v)")
    (auto simp: mem_inv_def frame_defs mem_append_revision_def hm_simps opt_or_def)

lemmas mem_inv_ops = inv_append_revision
  inv_upsert_job inv_delete_job inv_mutate_ops inv_job_claims inv_run_ops inv_reclaim inv_meta_ops

section \<open>The backend as a state machine\<close>

text \<open>One rule per operation of the port that writes; any client may call any of them.\<close>

inductive mem_step :: "mem_store \<Rightarrow> mem_store \<Rightarrow> bool" where
  "mem_step st (snd (mem_upsert_job j st))"
| "mem_step st (snd (mem_delete_job i st))"
| "mem_step st (snd (mem_pause_job clk i st))"
| "mem_step st (snd (mem_resume_job clk i st))"
| "mem_step st (snd (mem_create_run r st))"
| "mem_step st (snd (mem_update_run r st))"
| "mem_step st (snd (mem_claim_next_queued p w now ttl st))"
| "mem_step st (snd (mem_claim_run_by_id i p w now ttl st))"
| "mem_step st (snd (mem_renew_run_lease i w now ttl st))"
| "mem_step st (snd (mem_reclaim_expired_run_leases now st))"
| "mem_step st (snd (mem_try_claim_run_once i by now ttl st))"
| "mem_step st (snd (mem_mark_run_once_completed clk i at st))"
| "mem_step st (snd (mem_release_run_once_claim i by now st))"
| "mem_step st (snd (mem_claim_job_for_tick i cid now ttl st))"
| "mem_step st (snd (mem_release_job_tick_claim clk i st))"
| "mem_step st (snd (mem_persist_post_tick_job_state clk i nra st))"
| "mem_step st (snd (mem_append_revision v st))"
| "mem_step st (snd (mem_upsert_script s st))"
| "mem_step st (snd (mem_try_acquire_leader now inst ttl st))"
| "mem_step st (snd (mem_renew_leader_lease now inst ttl st))"
| "mem_step st (snd (mem_upsert_partition_assignment a st))"
| "mem_step st (snd (mem_register_worker wk st))"
| "mem_step st (snd (mem_heartbeat_worker wid at st))"

inductive mem_reachable :: "mem_store \<Rightarrow> bool" where
  init: "mem_reachable mem_new"
| step: "mem_reachable st \<Longrightarrow> mem_step st st' \<Longrightarrow> mem_reachable st'"

lemma mem_step_inv: "mem_step st st' \<Longrightarrow> mem_inv st \<Longrightarrow> mem_inv st'"
  by (induction rule: mem_step.induct) (auto intro: mem_inv_ops)

section \<open>The backend keeps the contracts of the port\<close>

lemma mem_get_job_by_name_iff:
  assumes "mem_inv st"
  shows "mem_get_job_by_name n st =
     (Inr (case hm_get (m_jobs_by_name st) n of None \<Rightarrow> None | Some i \<Rightarrow> hm_get (m_jobs st) i), st)"
  by (simp add: mem_get_job_by_name_def mem_get_job_def split: option.splits)

lemma name_index:
  "mem_inv st \<Longrightarrow> hm_get (m_jobs_by_name st) n = Some i \<longleftrightarrow>
     (\<exists>j. hm_get (m_jobs st) i = Some j \<and> j_job_name j = n)"
  by (auto simp: mem_inv_def jobs_okD(4))

lemma name_index_None:
  "mem_inv st \<Longrightarrow> hm_get (m_jobs_by_name st) n = None \<longleftrightarrow>
     (\<forall>i j. hm_get (m_jobs st) i = Some j \<longrightarrow> j_job_name j \<noteq> n)"
  using name_index[of st n] by (metis not_None_eq)

lemma job_keyD: "mem_inv st \<Longrightarrow> hm_get (m_jobs st) i = Some j \<Longrightarrow> j_job_id j = i"
  by (auto simp: mem_inv_def jobs_okD(3))

lemma mem_upsert_ok:
  assumes "mem_inv st" "\<forall>i j'. hm_get (m_jobs st) i = Some j' \<longrightarrow> j_job_name j' = j_job_name j \<longrightarrow> i = j_job_id j"
  shows "mem_upsert_job j st = (Inr (), insert_job j st)"
  using assms by (auto simp: mem_upsert_job_def write_job_def name_index split: option.splits)

lemma mem_upsert_taken:
  assumes "mem_inv st" "hm_get (m_jobs st) i = Some j'" "j_job_name j' = j_job_name j" "i \<noteq> j_job_id j"
  shows "mem_upsert_job j st = (Inl (JobNameTaken (j_job_name j) i), st)"
proof -
  have "hm_get (m_jobs_by_name st) (j_job_name j) = Some i" using assms by (simp add: name_index)
  with assms(4) show ?thesis by (simp add: mem_upsert_job_def write_job_def)
qed

lemma newest_first_set [simp]: "set (newest_first rs) = set rs"
  by (simp add: newest_first_def)

interpretation mem_jobs: job_table mem_ops mem_inv "\<lambda>s. hm_get (m_jobs s)" "\<lambda>s. hm_get (m_runs s)"
proof (unfold_locales, goal_cases)
  case (1 s i) then show ?case by (simp add: mem_ops_def mem_get_job_def)
next
  case (2 s n j s') then show ?case
    by (auto simp: mem_ops_def mem_get_job_by_name_iff name_index job_keyD split: option.splits)
next
  case (3 s n s') then show ?case
    by (auto simp: mem_ops_def mem_get_job_by_name_iff name_index name_index_None split: option.splits)
next
  case (4 s n) then show ?case by (simp add: mem_ops_def mem_get_job_by_name_iff)
next
  case (5 s i j) then show ?case by (rule job_keyD)
next
  case (6 s i j i' j') then show ?case using jobs_ok_name_unique by (auto simp: mem_inv_def)
next
  case (7 s j) then show ?case
    using inv_upsert_job[of s j] by (auto simp: mem_ops_def mem_upsert_ok)
next
  case (8 s i j' j) then show ?case by (simp add: mem_ops_def mem_upsert_taken)
qed

lemma mem_runs_distinct:
  assumes "mem_inv st"
  shows "distinct (hm_values (m_runs st))"
proof -
  have "map r_run_id (hm_values (m_runs st)) = map fst (m_runs st)"
    using assms by (auto simp: hm_values_def hm_entry_iff inv_hm_runs runs_okD)
  then have "distinct (map r_run_id (hm_values (m_runs st)))"
    using inv_hm_runs[OF assms] by (simp add: hm_ok_def)
  then show ?thesis by (simp add: distinct_map)
qed

interpretation mem_runs: run_table mem_ops mem_inv "\<lambda>s. hm_get (m_jobs s)" "\<lambda>s. hm_get (m_runs s)"
proof (unfold_locales, goal_cases)
  case (1 s r) then show ?case
    using inv_run_ops(1)[of s r] by (simp add: mem_ops_def mem_create_run_def hm_simps)
next
  case (2 s i) then show ?case by (simp add: mem_ops_def mem_get_run_def)
next
  case (3 s i r) then show ?case by (rule runs_okD)
next
  case (4 s r) then show ?case
    using inv_run_ops(2)[of s r] by (auto simp: mem_ops_def mem_update_run_def hm_simps)
next
  case (5 s r) then show ?case by (simp add: mem_ops_def mem_update_run_def)
next
  case (6 s n i)
  let ?all = "newest_first (filter (\<lambda>r. r_job_id r = Some i) (hm_values (m_runs s)))"
  have all: "set ?all = {r. hm_get (m_runs s) (r_run_id r) = Some r \<and> r_job_id r = Some i}"
    using 6(1) by (auto simp: hm_value_iff inv_hm_runs dest: runs_okD)
  have "distinct ?all" using mem_runs_distinct[OF 6(1)] by (simp add: newest_first_def)
  moreover have "length (take n ?all) < n \<Longrightarrow> take n ?all = ?all" by auto
  moreover have "set (take n ?all) \<subseteq> set ?all" by (auto dest: in_set_takeD)
  ultimately show ?case
    using all by (auto simp: mem_ops_def mem_list_runs_for_job_def simp del: newest_first_set)
qed

interpretation mem_run_claims: run_claims mem_ops mem_inv "\<lambda>s. hm_get (m_jobs s)" "\<lambda>s. hm_get (m_runs s)"
proof (unfold_locales, goal_cases)
  case (1 s pool wid now ttl r s')
  then obtain i c where c: "pick_candidate pool now None (m_runs s) = Some (i, c)"
    "r = mark_claimed wid now ttl c" "s' = s\<lparr>m_runs := hm_insert i r (m_runs s)\<rparr>"
    by (auto simp: mem_ops_def mem_claim_next_queued_def Let_def split: option.splits)
  have g: "hm_get (m_runs s) i = Some c" using pick_candidate_get[OF 1(1) c(1)] by blast
  then have k: "r_run_id c = i" using runs_okD[OF 1(1)] by blast
  have "mem_inv s'" using c(3) inv_runs_insert[OF 1(1), of r] k c(2) by simp
  with c g k show ?case by (auto simp: hm_simps mark_claimed_def)
next
  case (2 s pool wid now ttl a s')
  then show ?case
    by (auto simp: mem_ops_def mem_claim_next_queued_def Let_def split: option.splits)
qed

interpretation mem_revisions: revision_log mem_ops mem_inv "\<lambda>s. hm_get (m_jobs s)"
  "\<lambda>s. hm_get (m_runs s)" "\<lambda>s i. opt_or (hm_get (m_revisions s) i) []"
proof (unfold_locales, goal_cases)
  case (1 s v)
  then show ?case
    using inv_append_revision[OF 1, of v]
    by (auto simp: mem_ops_def mem_append_revision_def hm_simps opt_or_def fun_eq_iff)
next
  case (2 s i) then show ?case by (simp add: mem_ops_def mem_list_revisions_def)
next
  case (3 s j) then show ?case
    by (simp add: mem_ops_def mem_upsert_job_def write_job_def insert_job_def Let_def split: option.splits)
next
  case (4 s r) then show ?case by (simp add: mem_ops_def mem_create_run_def)
qed

lemmas mem_claim_defs =
  mem_ops_def mem_claim_job_for_tick_def mem_try_claim_run_once_def mutate_op_defs mutate_job_def
  tick_claimable_def once_claimable_def is_some_and_def row_change_defs

lemma mem_tick_claim_ok:
  assumes "mem_inv s" "hm_get (m_jobs s) i = Some j" "tick_claimable now j"
  shows "mem_claim_job_for_tick i cid now ttl s =
    (Inr True, s\<lparr>m_jobs := hm_insert i (row_tick_claim cid now ttl j) (m_jobs s)\<rparr>)"
  using assms by (auto simp: mem_claim_defs split: option.splits)

lemma mem_once_claim_ok:
  assumes "mem_inv s" "hm_get (m_jobs s) i = Some j" "once_claimable by now j"
  shows "mem_try_claim_run_once i by now ttl s =
    (Inr True, s\<lparr>m_jobs := hm_insert i (row_once_claim by now ttl j) (m_jobs s)\<rparr>)"
  using assms by (auto simp: mem_claim_defs split: option.splits)

interpretation mem: coordinator_claims mem_ops mem_inv "\<lambda>s. hm_get (m_jobs s)" "\<lambda>s. hm_get (m_runs s)"
  once_claimable
proof (unfold_locales, goal_cases)
  case (1 s i j now cid ttl) then show ?case
    using inv_job_claims(2)[of s i cid now ttl] by (simp add: mem_ops_def mem_tick_claim_ok hm_simps)
next
  case (2 s i now cid ttl) then show ?case by (auto simp: mem_claim_defs split: option.splits)
next
  case (3 s i j clk) then show ?case
    using inv_mutate_ops(5)[of s clk i] by (simp add: mem_claim_defs hm_simps)
next
  case (4 s i j clk nra) then show ?case
    using inv_mutate_ops(6)[of s clk i nra] by (simp add: mem_claim_defs hm_simps)
next
  case (5 s i j who now ttl) then show ?case
    using inv_job_claims(1)[of s i who now ttl] by (simp add: mem_ops_def mem_once_claim_ok hm_simps)
next
  case (6 s i who now ttl) then show ?case by (auto simp: mem_claim_defs split: option.splits)
next
  case (7 s i j clk at) then show ?case
    using inv_mutate_ops(3)[of s clk i "at"] by (auto simp: mem_claim_defs hm_simps)
next
  case (8 b a now' now ttl j) then show ?case by (rule row_once_claim_blocks)
next
  case (9 j b now) then show ?case by (simp add: once_claimable_def)
next
  case (10 b t cid now ttl j) then show ?case by (simp add: once_claimable_def row_tick_claim_def)
qed

lemma mem_job_ids_distinct:
  assumes "mem_inv st"
  shows "distinct (map j_job_id (hm_values (m_jobs st)))"
proof -
  have "map j_job_id (hm_values (m_jobs st)) = map fst (m_jobs st)"
    using assms by (auto simp: hm_values_def hm_entry_iff inv_hm_jobs job_keyD)
  then show ?thesis using inv_hm_jobs[OF assms] by (simp add: hm_ok_def)
qed

lemma due_ids_distinct:
  assumes "mem_inv st"
  shows "distinct (map j_job_id (take n (sort_key f (filter P (hm_values (m_jobs st))))))"
proof -
  have "distinct (map j_job_id (filter P (hm_values (m_jobs st))))"
    using mem_job_ids_distinct[OF assms] by (rule distinct_map_filter)
  then have "distinct (map j_job_id (sort_key f (filter P (hm_values (m_jobs st)))))"
    by (auto simp: distinct_map)
  then show ?thesis unfolding take_map[symmetric] by (rule distinct_take)
qed

interpretation mem_due: due_queries mem_ops mem_inv "\<lambda>s. hm_get (m_jobs s)" "\<lambda>s. hm_get (m_runs s)"
  once_claimable
proof (unfold_locales, goal_cases)
  case (1 s clk owned due_until limit)
  let ?P = "due_in_partitions clk owned due_until" let ?f = "\<lambda>j. opt_or (j_next_run_at j) due_until"
  let ?js = "take limit (sort_key ?f (filter ?P (hm_values (m_jobs s))))"
  have "\<exists>j'. hm_get (m_jobs s) (j_job_id j) = Some j' \<and> j_enabled j' \<and>
     (\<exists>t. j_next_run_at j' = Some t \<and> t \<le> due_until)" if "j \<in> set ?js" for j
    using that 1 by (auto dest!: in_set_takeD simp: hm_value_iff inv_hm_jobs due_in_partitions_def
        is_some_and_def job_keyD split: option.splits)
  then show ?case
    using due_ids_distinct[OF 1, of limit ?f ?P]
    by (auto simp: mem_ops_def mem_find_due_job_ids_in_partitions_def)
next
  case (2 s owned) then show ?case
    by (auto simp: mem_ops_def mem_min_next_run_at_in_partitions_def)
qed

interpretation mem_partitions: partition_table mem_ops mem_inv "\<lambda>s. hm_get (m_partitions s)"
proof (unfold_locales, goal_cases)
  case (1 s)
  have ok: "hm_ok (m_partitions s)"
    and key: "\<And>k r. hm_get (m_partitions s) k = Some r \<Longrightarrow> pa_partition_id r = k"
    using 1 by (auto simp: mem_inv_def meta_ok_def)
  have "map pa_partition_id (hm_values (m_partitions s)) = map fst (m_partitions s)"
    using key by (auto simp: hm_values_def hm_entry_iff ok)
  then have "distinct (map pa_partition_id (hm_values (m_partitions s)))"
    using ok by (simp add: hm_ok_def)
  with ok key show ?case
    by (auto simp: mem_ops_def mem_list_partition_assignments_def hm_value_iff)
next
  case (2 s k r) then show ?case by (auto simp: mem_inv_def meta_ok_def)
next
  case (3 s a) then show ?case
    using inv_meta_ops(4)[of s a] by (simp add: mem_ops_def mem_upsert_partition_assignment_def hm_simps)
qed

interpretation mem_leader: leader_row mem_ops mem_inv m_leader
proof (unfold_locales, goal_cases)
  case (1 s now i ttl) then show ?case
    by (auto simp: mem_ops_def mem_try_acquire_leader_def leader_live_other_def is_some_and_def
        split: option.splits)
next
  case (2 s now i ttl) then show ?case
    using inv_meta_ops(2)[of s now i ttl]
    by (auto simp: mem_ops_def mem_try_acquire_leader_def leader_live_other_def is_some_and_def
        split: option.splits)
next
  case (3 s l i now ttl) then show ?case
    using inv_meta_ops(3)[of s now i ttl] by (simp add: mem_ops_def mem_renew_leader_lease_def)
next
  case (4 s i now ttl) then show ?case
    by (auto simp: mem_ops_def mem_renew_leader_lease_def split: option.splits)
next
  case (5 s) then show ?case by (simp add: mem_ops_def mem_get_leader_def)
qed

end
