(* ===== verification/Coordinator_Service.thy ===== *)
theory Coordinator_Service
  imports Partitioning Mem_Facts
begin

text \<open>
  \<^verbatim>\<open>chronon-runtime/src/coordinator_service.rs\<close>: the job and run operations that HTTP handlers and
  hosts call. Each method is asynchronous code over the store of the service; the lookups that
  swallow a storage error return an option.
\<close>

definition svc_revision ::
  "('sc, 'tz) ext \<Rightarrow> 's scheduler_store \<Rightarrow> job \<Rightarrow> int \<Rightarrow> ('s, unit res) proc" where
  "svc_revision X S job n =
     (case x_job_to X job of
        Inl e \<Rightarrow> ret (Inl (ParamError e))
      | Inr snapshot \<Rightarrow> do {
          uuid \<leftarrow> new_uuid;
          now \<leftarrow> utc_now;
          call (so_append_revision S
            (job_revision_new uuid now (j_job_id job) n (j_actor_json job) snapshot)) })"

text \<open>\<^verbatim>\<open>upsert_job\<close> after the partition hash and the next fire time are filled in.\<close>

definition svc_store_job :: "('sc, 'tz) ext \<Rightarrow> 's scheduler_store \<Rightarrow> job \<Rightarrow> ('s, unit res) proc" where
  "svc_store_job X S job0 =
     do {
       clk \<leftarrow> utc_now;
       let job = job0\<lparr>j_updated_at := clk\<rparr>;
       bind_ok (call (so_get_job S (j_job_id job))) (\<lambda>found. case found of
         Some existing \<Rightarrow>
           if j_script_name existing \<noteq> j_script_name job
           then ret (Inl (ScriptMismatch (j_script_name existing) (j_script_name job) (j_job_name job)))
           else if j_current_revision existing \<noteq> j_current_revision job
           then bind_ok (svc_revision X S job (j_current_revision job))
                  (\<lambda>_. call (so_upsert_job S job))
           else call (so_upsert_job S job)
       | None \<Rightarrow>
           bind_ok (call (so_get_job_by_name S (j_job_name job))) (\<lambda>holder. case holder of
             Some h \<Rightarrow> ret (Inl (JobNameTaken (j_job_name job) (j_job_id h)))
           | None \<Rightarrow> bind_ok (svc_revision X S job 1) (\<lambda>_. call (so_upsert_job S job)))) }"

definition svc_with_partition :: "('sc, 'tz) ext \<Rightarrow> env \<Rightarrow> job \<Rightarrow> job" where
  "svc_with_partition X env job =
     (if j_partition_hash job = None
      then job\<lparr>j_partition_hash := Some (partition_hash_i64_for_job_id X env (j_job_id job))\<rparr>
      else job)"

definition svc_cron :: "job \<Rightarrow> string option" where
  "svc_cron job = (if j_schedule_kind job = Cron then j_cron_expr job else None)"

definition svc_upsert_job :: "('sc, 'tz) ext \<Rightarrow> 's scheduler_store \<Rightarrow> job \<Rightarrow> ('s, unit res) proc" where
  "svc_upsert_job X S job0 =
     do {
       env \<leftarrow> env_vars;
       let job = svc_with_partition X env job0;
       case svc_cron job of
         Some expr \<Rightarrow>
           (case cron_parse X expr (j_timezone job) of
              Inl e \<Rightarrow> ret (Inl e)
            | Inr cron \<Rightarrow> do {
                next \<leftarrow> next_from_now X cron;
                svc_store_job X S (job\<lparr>j_next_run_at := next\<rparr>) })
       | None \<Rightarrow> svc_store_job X S job }"

definition svc_delete_job :: "'s scheduler_store \<Rightarrow> string \<Rightarrow> ('s, bool res) proc" where
  "svc_delete_job S job_id = call (so_delete_job S job_id)"

definition ok_flatten :: "'a option res \<Rightarrow> 'a option" where
  "ok_flatten r = (case r of Inr x \<Rightarrow> x | Inl _ \<Rightarrow> None)"

definition svc_get_job :: "'s scheduler_store \<Rightarrow> string \<Rightarrow> ('s, job option) proc" where
  "svc_get_job S job_id = do { r \<leftarrow> call (so_get_job S job_id); ret (ok_flatten r) }"

definition svc_get_job_by_name :: "'s scheduler_store \<Rightarrow> string \<Rightarrow> ('s, job option) proc" where
  "svc_get_job_by_name S job_name =
     do { r \<leftarrow> call (so_get_job_by_name S job_name); ret (ok_flatten r) }"

definition svc_list_jobs :: "'s scheduler_store \<Rightarrow> ('s, job list res) proc" where
  "svc_list_jobs S = call (so_list_jobs S)"

text \<open>The stores stamp the row with their own clock reading.\<close>

definition svc_pause_job :: "'s scheduler_store \<Rightarrow> string \<Rightarrow> ('s, unit res) proc" where
  "svc_pause_job S job_id = do { clk \<leftarrow> utc_now; call (so_pause_job S clk job_id) }"

definition svc_resume_job :: "'s scheduler_store \<Rightarrow> string \<Rightarrow> ('s, unit res) proc" where
  "svc_resume_job S job_id = do { clk \<leftarrow> utc_now; call (so_resume_job S clk job_id) }"

fun parse_run_status :: "string \<Rightarrow> run_status option" where
  "parse_run_status s =
     (let l = to_ascii_lowercase s in
      if l = ''queued'' then Some Queued else if l = ''claimed'' then Some Claimed
      else if l = ''running'' then Some Running else if l = ''success'' then Some Success
      else if l = ''failed'' then Some Failed else if l = ''canceled'' then Some Canceled
      else if l = ''timeout'' then Some Timeout else None)"

definition svc_list_runs ::
  "'s scheduler_store \<Rightarrow> string option \<Rightarrow> string option \<Rightarrow> nat \<Rightarrow> nat \<Rightarrow> ('s, run list res) proc" where
  "svc_list_runs S job_id status offset limit =
     call (so_list_runs_filtered S job_id (Option.bind status parse_run_status) offset limit)"

definition svc_get_run :: "'s scheduler_store \<Rightarrow> string \<Rightarrow> ('s, run option res) proc" where
  "svc_get_run S run_id = call (so_get_run S run_id)"

definition svc_list_revisions :: "'s scheduler_store \<Rightarrow> string \<Rightarrow> ('s, job_revision list res) proc" where
  "svc_list_revisions S job_id = call (so_list_revisions S job_id)"

definition now_run :: "string \<Rightarrow> time \<Rightarrow> job \<Rightarrow> json option \<Rightarrow> json option \<Rightarrow> run" where
  "now_run uuid now job params_override actor_override =
     (run_for_job uuid (j_job_id job) (j_script_name job) now)
       \<lparr>r_actor_json := (case actor_override of None \<Rightarrow> j_actor_json job | Some a \<Rightarrow> a),
        r_params_json := (case params_override of None \<Rightarrow> j_params_json job | Some p \<Rightarrow> p),
        r_pool_id := Some (job_execution_pool_id job)\<rparr>"

definition run_now_with_params_and_actor ::
  "'s scheduler_store \<Rightarrow> string \<Rightarrow> json option \<Rightarrow> json option \<Rightarrow> ('s, string res) proc" where
  "run_now_with_params_and_actor S job_id params_override actor_override =
     bind_ok (call (so_get_job S job_id)) (\<lambda>found. case found of
       None \<Rightarrow> ret (Inl (JobNotFound job_id))
     | Some job \<Rightarrow> do {
         now \<leftarrow> utc_now;
         uuid \<leftarrow> new_uuid;
         bind_ok (call (so_create_run S (now_run uuid now job params_override actor_override)))
           (\<lambda>_. ret (Inr uuid)) })"

definition run_now_with_params ::
  "'s scheduler_store \<Rightarrow> string \<Rightarrow> json option \<Rightarrow> ('s, string res) proc" where
  "run_now_with_params S job_id params_override =
     run_now_with_params_and_actor S job_id params_override None"

definition run_now :: "'s scheduler_store \<Rightarrow> string \<Rightarrow> ('s, string res) proc" where
  "run_now S job_id = run_now_with_params S job_id None"

section \<open>Effect on a store that keeps the contract\<close>

text \<open>The row that an accepted \<^verbatim>\<open>upsert_job\<close> stores, with the clock readings it takes.\<close>

definition upserted_job :: "('sc, 'tz) ext \<Rightarrow> env \<Rightarrow> time \<Rightarrow> time \<Rightarrow> job \<Rightarrow> job res" where
  "upserted_job X env t1 t2 job0 =
     (let job = svc_with_partition X env job0 in
      case svc_cron job of
        Some expr \<Rightarrow>
          (case cron_parse X expr (j_timezone job) of
             Inl e \<Rightarrow> Inl e
           | Inr cron \<Rightarrow> Inr (job\<lparr>j_next_run_at := next_after X cron t1, j_updated_at := t2\<rparr>))
      | None \<Rightarrow> Inr (job\<lparr>j_updated_at := t1\<rparr>))"

context revision_log
begin

lemma run_now_found:
  assumes "invar (w_store w)" "jobs_of (w_store w) i = Some job"
    and "runs_of (w_store w) (w_uuid w (w_uuids w)) = None"
  shows "wp (run_now_with_params_and_actor S i p a) (\<lambda>r w'. r = Inr (w_uuid w (w_uuids w)) \<and>
     invar (w_store w') \<and> jobs_of (w_store w') = jobs_of (w_store w) \<and>
     runs_of (w_store w') = (runs_of (w_store w))(w_uuid w (w_uuids w) \<mapsto>
       now_run (w_uuid w (w_uuids w)) (w_clock w (w_reads w)) job p a)) w"
proof -
  let ?u = "w_uuid w (w_uuids w)"
  let ?r = "now_run ?u (w_clock w (w_reads w)) job p a"
  have id: "r_run_id ?r = ?u" by (simp add: now_run_def)
  then obtain s where "so_create_run S ?r (w_store w) = (Inr (), s)" "invar s"
      "runs_of s = (runs_of (w_store w))(?u \<mapsto> ?r)" "jobs_of s = jobs_of (w_store w)"
    using create_run[OF assms(1), of ?r] assms(3) by auto
  then show ?thesis
    by (simp add: run_now_with_params_and_actor_def wp_simps wp_call get_job[OF assms(1)] assms(2))
qed

lemma run_now_missing:
  assumes "invar (w_store w)" "jobs_of (w_store w) i = None"
  shows "wp (run_now_with_params_and_actor S i p a) (\<lambda>r w'. r = Inl (JobNotFound i) \<and> w' = w) w"
  by (simp add: run_now_with_params_and_actor_def wp_simps wp_call get_job[OF assms(1)] assms(2))

text \<open>Storing a job: the refusals change no table, the acceptances store the row and its revision.\<close>

definition same_tables :: "'s world \<Rightarrow> 's world \<Rightarrow> bool" where
  "same_tables w w' \<longleftrightarrow> jobs_of (w_store w') = jobs_of (w_store w) \<and>
     runs_of (w_store w') = runs_of (w_store w) \<and> revs_of (w_store w') = revs_of (w_store w)"

lemma store_new_taken:
  assumes "invar (w_store w)" "jobs_of (w_store w) (j_job_id job) = None"
    and "jobs_of (w_store w) i = Some h" "j_job_name h = j_job_name job"
  shows "wp (svc_store_job X S job) (\<lambda>r w'. r = Inl (JobNameTaken (j_job_name job) i) \<and> same_tables w w') w"
proof -
  obtain r where r: "so_get_job_by_name S (j_job_name job) (w_store w) = (Inr r, w_store w)"
    using get_job_by_name_ok[OF assms(1)] by blast
  have "r = Some h"
  proof (cases r)
    case None
    then show ?thesis using get_job_by_name_None[OF assms(1), of "j_job_name job"] r assms(3,4) by blast
  next
    case (Some h')
    then have "jobs_of (w_store w) (j_job_id h') = Some h'" "j_job_name h' = j_job_name h"
      using get_job_by_name_Some[OF assms(1), of "j_job_name job" h'] r assms(4) by auto
    then show ?thesis using name_unique[OF assms(1) _ assms(3)] Some assms(3) by (metis option.inject)
  qed
  with r assms show ?thesis
    by (simp add: svc_store_job_def Let_def wp_simps wp_call get_job[OF assms(1)] same_tables_def
        job_key[OF assms(1) assms(3)])
qed

lemma store_mismatch:
  assumes "invar (w_store w)" "jobs_of (w_store w) (j_job_id job) = Some e"
    "j_script_name e \<noteq> j_script_name job"
  shows "wp (svc_store_job X S job) (\<lambda>r w'. same_tables w w' \<and>
    r = Inl (ScriptMismatch (j_script_name e) (j_script_name job) (j_job_name job))) w"
  using assms by (simp add: svc_store_job_def Let_def wp_simps wp_call get_job[OF assms(1)] same_tables_def)


lemma revision_wp:
  assumes inv: "invar (w_store w)" and snap: "x_job_to X job = Inr snap"
    and Q: "\<And>s v. invar s \<Longrightarrow> jobs_of s = jobs_of (w_store w) \<Longrightarrow> runs_of s = runs_of (w_store w) \<Longrightarrow>
      v_revision_number v = n \<Longrightarrow> v_snapshot_json v = snap \<Longrightarrow>
      revs_of s = (revs_of (w_store w))(j_job_id job := revs_of (w_store w) (j_job_id job) @ [v]) \<Longrightarrow>
      Q (Inr ()) (w\<lparr>w_uuids := Suc (w_uuids w), w_reads := Suc (w_reads w), w_store := s\<rparr>)"
  shows "wp (svc_revision X S job n) Q w"
proof -
  let ?v = "job_revision_new (w_uuid w (w_uuids w)) (w_clock w (w_reads w)) (j_job_id job) n
    (j_actor_json job) snap"
  obtain s where s: "so_append_revision S ?v (w_store w) = (Inr (), s)" "invar s"
    "jobs_of s = jobs_of (w_store w)" "runs_of s = runs_of (w_store w)"
    "revs_of s = (revs_of (w_store w))(j_job_id job := revs_of (w_store w) (j_job_id job) @ [?v])"
    using append_revision[OF inv, of ?v] by (auto simp: job_revision_new_def)
  then show ?thesis
    using Q[OF s(2-4), of ?v] by (simp add: svc_revision_def snap wp_simps wp_call job_revision_new_def)
qed

lemma upsert_effect:
  assumes "invar s" "\<forall>i j'. jobs_of s i = Some j' \<longrightarrow> j_job_name j' = j_job_name j \<longrightarrow> i = j_job_id j"
  shows "\<exists>s'. so_upsert_job S j s = (Inr (), s') \<and> invar s' \<and> jobs_of s' = (jobs_of s)(j_job_id j \<mapsto> j) \<and>
    runs_of s' = runs_of s \<and> revs_of s' = revs_of s"
  using upsert_job_ok[OF assms] upsert_job_revs[OF assms(1), of j] by auto

text \<open>An accepted row \<open>job\<close>, with the revisions \<open>vs\<close> that were appended for it.\<close>

definition accepted :: "'s world \<Rightarrow> job \<Rightarrow> job_revision list \<Rightarrow> 's world \<Rightarrow> bool" where
  "accepted w job vs w' \<longleftrightarrow> invar (w_store w') \<and>
     jobs_of (w_store w') = (jobs_of (w_store w))(j_job_id job \<mapsto> job) \<and>
     runs_of (w_store w') = runs_of (w_store w) \<and>
     revs_of (w_store w') = (revs_of (w_store w))(j_job_id job := revs_of (w_store w) (j_job_id job) @ vs)"

lemma upsert_accepts:
  assumes "invar s" "jobs_of s = jobs_of (w_store w)" "runs_of s = runs_of (w_store w)"
    and "revs_of s = (revs_of (w_store w))(j_job_id job := revs_of (w_store w) (j_job_id job) @ vs)"
    and "\<forall>i h. jobs_of (w_store w) i = Some h \<longrightarrow> j_job_name h = j_job_name job \<longrightarrow> i = j_job_id job"
    and "w_store w1 = s"
  shows "wp (call (so_upsert_job S job)) (\<lambda>r w'. r = Inr () \<and> accepted w job vs w') w1"
  using upsert_effect[OF assms(1), of job] assms(2-6) by (auto simp: wp_call accepted_def)

lemma store_new_free:
  assumes inv: "invar (w_store w)" and new: "jobs_of (w_store w) (j_job_id job) = None"
    and free: "\<forall>i h. jobs_of (w_store w) i = Some h \<longrightarrow> j_job_name h \<noteq> j_job_name job"
    and snap: "x_job_to X (job\<lparr>j_updated_at := w_clock w (w_reads w)\<rparr>) = Inr snap"
  shows "wp (svc_store_job X S job) (\<lambda>r w'. r = Inr () \<and>
    (\<exists>v. v_revision_number v = 1 \<and> accepted w (job\<lparr>j_updated_at := w_clock w (w_reads w)\<rparr>) [v] w')) w"
proof -
  let ?job = "job\<lparr>j_updated_at := w_clock w (w_reads w)\<rparr>"
  obtain r where r: "so_get_job_by_name S (j_job_name job) (w_store w) = (Inr r, w_store w)"
    using get_job_by_name_ok[OF inv] by blast
  have none: "r = None"
    using get_job_by_name_Some[OF inv, of "j_job_name job"] r free by (cases r) auto
  show ?thesis
    unfolding svc_store_job_def Let_def wp_simps wp_call
    apply (simp add: get_job[OF inv] new r none wp_simps wp_call)
    apply (rule revision_wp[where snap = snap])
      apply (simp_all add: inv snap)
    apply (rule wp_mono[OF upsert_accepts[where w = w and job = ?job]])
    using free by auto
qed

lemma store_existing:
  assumes inv: "invar (w_store w)" and old: "jobs_of (w_store w) (j_job_id job) = Some e"
    and script: "j_script_name e = j_script_name job"
    and free: "\<forall>i h. jobs_of (w_store w) i = Some h \<longrightarrow> j_job_name h = j_job_name job \<longrightarrow> i = j_job_id job"
    and snap: "x_job_to X (job\<lparr>j_updated_at := w_clock w (w_reads w)\<rparr>) = Inr snap"
  shows "wp (svc_store_job X S job) (\<lambda>r w'. r = Inr () \<and>
    (\<exists>vs. map v_revision_number vs =
            (if j_current_revision e = j_current_revision job then [] else [j_current_revision job]) \<and>
          accepted w (job\<lparr>j_updated_at := w_clock w (w_reads w)\<rparr>) vs w')) w"
proof -
  let ?job = "job\<lparr>j_updated_at := w_clock w (w_reads w)\<rparr>" and ?w1 = "w\<lparr>w_reads := Suc (w_reads w)\<rparr>"
  have same: "wp (call (so_upsert_job S ?job)) (\<lambda>r w'. r = Inr () \<and> accepted w ?job [] w') ?w1"
    using free inv by (intro upsert_accepts[where s = "w_store w"]) auto
  have rev: "wp (bind_ok (svc_revision X S ?job (j_current_revision job)) (\<lambda>_. call (so_upsert_job S ?job)))
      (\<lambda>r w'. r = Inr () \<and> (\<exists>v. v_revision_number v = j_current_revision job \<and> accepted w ?job [v] w')) ?w1"
    unfolding wp_bind_ok
    apply (rule revision_wp[where snap = snap])
      apply (simp_all add: inv snap)
    apply (rule wp_mono[OF upsert_accepts[where w = w and job = ?job]])
    using free by auto
  have eq: "wp (svc_store_job X S job) Q w =
      (if j_current_revision e = j_current_revision job then wp (call (so_upsert_job S ?job)) Q ?w1
       else wp (bind_ok (svc_revision X S ?job (j_current_revision job)) (\<lambda>_. call (so_upsert_job S ?job))) Q ?w1)" for Q
    using old script
    by (simp add: svc_store_job_def Let_def wp_simps wp_call[of "so_get_job S _"] get_job[OF inv])
  show ?thesis
  proof (cases "j_current_revision e = j_current_revision job")
    case True
    with eq show ?thesis by (auto intro!: wp_mono[OF same])
  next
    case False
    have "wp (bind_ok (svc_revision X S ?job (j_current_revision job)) (\<lambda>_. call (so_upsert_job S ?job)))
      (\<lambda>r w'. r = Inr () \<and> (\<exists>vs. map v_revision_number vs = [j_current_revision job] \<and> accepted w ?job vs w')) ?w1"
      by (rule wp_mono[OF rev]) (auto intro: exI[of _ "[v]" for v])
    with eq False show ?thesis by simp
  qed
qed

text \<open>
  Renaming a stored job to a name that another job holds: the store refuses the row after the
  revision was appended.
\<close>

lemma store_rename_taken:
  assumes inv: "invar (w_store w)" and old: "jobs_of (w_store w) (j_job_id job) = Some e"
    and script: "j_script_name e = j_script_name job"
    and rev: "j_current_revision e \<noteq> j_current_revision job"
    and held: "jobs_of (w_store w) i = Some h" "j_job_name h = j_job_name job" "i \<noteq> j_job_id job"
    and snap: "x_job_to X (job\<lparr>j_updated_at := w_clock w (w_reads w)\<rparr>) = Inr snap"
  shows "wp (svc_store_job X S job) (\<lambda>r w'. r = Inl (JobNameTaken (j_job_name job) i) \<and>
    jobs_of (w_store w') = jobs_of (w_store w) \<and>
    (\<exists>v. revs_of (w_store w') (j_job_id job) = revs_of (w_store w) (j_job_id job) @ [v])) w"
  unfolding svc_store_job_def Let_def wp_simps wp_call
  apply (simp add: get_job[OF inv] old script rev wp_simps)
  apply (rule revision_wp[where snap = snap])
  using held by (auto simp: inv snap wp_call upsert_job_taken)

end

text \<open>\<^verbatim>\<open>svc_upsert_job\<close> is the storing of the prepared row, from the next clock reading.\<close>

lemma with_partition_id [simp]: "j_job_id (svc_with_partition X env j) = j_job_id j"
  by (simp add: svc_with_partition_def)

lemma upsert_prepared:
  assumes "upserted_job X (w_env w) (w_clock w (w_reads w)) (w_clock w (Suc (w_reads w))) job0 = Inr job"
  shows "\<exists>job1 n. job = job1\<lparr>j_updated_at := w_clock w n\<rparr> \<and> j_job_id job1 = j_job_id job0 \<and>
    run_state (svc_upsert_job X S job0) w = run_state (svc_store_job X S job1) (w\<lparr>w_reads := n\<rparr>)"
proof -
  let ?j = "svc_with_partition X (w_env w) job0"
  show ?thesis
  proof (cases "svc_cron ?j")
    case None
    with assms show ?thesis
      by (intro exI[of _ ?j] exI[of _ "w_reads w"])
        (simp add: upserted_job_def Let_def svc_upsert_job_def world_simps)
  next
    case (Some expr)
    with assms obtain c where "cron_parse X expr (j_timezone ?j) = Inr c"
      "job = ?j\<lparr>j_next_run_at := next_after X c (w_clock w (w_reads w)), j_updated_at := w_clock w (Suc (w_reads w))\<rparr>"
      by (auto simp: upserted_job_def Let_def split: sum.splits)
    with Some show ?thesis
      by (intro exI[of _ "?j\<lparr>j_next_run_at := next_after X c (w_clock w (w_reads w))\<rparr>"]
          exI[of _ "Suc (w_reads w)"])
        (simp add: svc_upsert_job_def Let_def world_simps next_from_now_def)
  qed
qed

lemma upsert_invalid_cron:
  "upserted_job X (w_env w) t1 t2 job0 = Inl e \<Longrightarrow> run_state (svc_upsert_job X S job0) w = (Inl e, w)"
  by (auto simp: upserted_job_def Let_def svc_upsert_job_def world_simps split: option.splits sum.splits)

lemma parse_status_roundtrip: "parse_run_status (run_status_to_string st) = Some st"
  by (cases st) (simp_all add: to_ascii_lowercase_def ascii_lower_def)

end
