(* ===== verification/Log_Capture.thy ===== *)
theory Log_Capture
  imports Rust_Str F64
begin

text \<open>
  The crate \<^verbatim>\<open>chronon-telemetry\<close>: the per-run capture of tracing events into the two text streams of
  a run (\<^verbatim>\<open>log_capture.rs\<close>), the recording sink (\<^verbatim>\<open>recording.rs\<close>) and the sinks that write to
  tracing or nowhere (\<^verbatim>\<open>console.rs\<close>, \<^verbatim>\<open>noop.rs\<close>). A tracing event is its level and its fields in
  recording order; the formatting machinery of the tracing crate is outside the repository, so a
  field that is recorded through its debug format carries the formatted text.
\<close>

section \<open>Captured streams\<close>

record captured_logs =
  stdout_text :: "string option"
  stderr_text :: "string option"

definition no_logs :: captured_logs where
  "no_logs = \<lparr>stdout_text = None, stderr_text = None\<rparr>"

definition has_text :: "captured_logs \<Rightarrow> bool" where
  "has_text l \<longleftrightarrow>
     (case stdout_text l of None \<Rightarrow> False | Some s \<Rightarrow> s \<noteq> []) \<or>
     (case stderr_text l of None \<Rightarrow> False | Some s \<Rightarrow> s \<noteq> [])"

abbreviation newline :: char where "newline \<equiv> CHR 0x0A"

definition ensure_stderr_message :: "string \<Rightarrow> captured_logs \<Rightarrow> captured_logs" where
  "ensure_stderr_message message l =
     (if message = [] then l
      else case stderr_text l of
        Some (c # existing) \<Rightarrow>
          if str_contains message (c # existing) then l
          else l\<lparr>stderr_text := Some ((c # existing) @ newline # message)\<rparr>
      | _ \<Rightarrow> l\<lparr>stderr_text := Some message\<rparr>)"

section \<open>The capture buffer\<close>

abbreviation default_max_capture_bytes :: nat where "default_max_capture_bytes \<equiv> 1000000"

record capture_inner =
  ci_max_bytes :: nat
  ci_used :: nat
  ci_stdout :: string
  ci_stderr :: string
  ci_active :: bool

definition dest_text :: "bool \<Rightarrow> capture_inner \<Rightarrow> string" where
  "dest_text to_stderr g = (if to_stderr then ci_stderr g else ci_stdout g)"

definition set_dest :: "bool \<Rightarrow> string \<Rightarrow> capture_inner \<Rightarrow> capture_inner" where
  "set_dest to_stderr t g = (if to_stderr then g\<lparr>ci_stderr := t\<rparr> else g\<lparr>ci_stdout := t\<rparr>)"

text \<open>\<^verbatim>\<open>CaptureInner::append\<close>; \<open>None\<close> is the panic of a slice off a character boundary.\<close>

definition append_line :: "bool \<Rightarrow> string \<Rightarrow> capture_inner \<Rightarrow> capture_inner option" where
  "append_line to_stderr line g =
     (if line = [] \<or> ci_used g \<ge> ci_max_bytes g then Some g
      else let budget = ci_max_bytes g - ci_used g in
        case (if length line > budget then slice line 0 budget else Some line) of
          None \<Rightarrow> None
        | Some chunk \<Rightarrow>
            if dest_text to_stderr g \<noteq> [] \<and> ci_used g + 1 > ci_max_bytes g then Some g
            else let g1 = (if dest_text to_stderr g \<noteq> []
                           then (set_dest to_stderr (dest_text to_stderr g @ [newline]) g)
                                  \<lparr>ci_used := ci_used g + 1\<rparr>
                           else g);
                     remain = ci_max_bytes g1 - ci_used g1;
                     n = min (length chunk) remain
                 in case slice chunk 0 n of
                      None \<Rightarrow> None
                    | Some part \<Rightarrow>
                        Some ((set_dest to_stderr (dest_text to_stderr g1 @ part) g1)
                                \<lparr>ci_used := ci_used g1 + n\<rparr>))"

definition opt_text :: "string \<Rightarrow> string option" where
  "opt_text s = (if s = [] then None else Some s)"

definition drain :: "capture_inner \<Rightarrow> captured_logs \<times> capture_inner" where
  "drain g =
     (\<lparr>stdout_text = opt_text (ci_stdout g), stderr_text = opt_text (ci_stderr g)\<rparr>,
      g\<lparr>ci_stdout := [], ci_stderr := [], ci_used := 0\<rparr>)"

definition capture_new :: "nat \<Rightarrow> capture_inner" where
  "capture_new max_bytes =
     \<lparr>ci_max_bytes = max max_bytes 1, ci_used = 0, ci_stdout = [], ci_stderr = [],
      ci_active = False\<rparr>"

definition capture_enter :: "capture_inner \<Rightarrow> capture_inner" where
  "capture_enter g = g\<lparr>ci_active := True, ci_stdout := [], ci_stderr := [], ci_used := 0\<rparr>"

definition capture_finish :: "capture_inner \<Rightarrow> captured_logs \<times> capture_inner" where
  "capture_finish g = drain (g\<lparr>ci_active := False\<rparr>)"

definition capture_drop :: "bool \<Rightarrow> capture_inner \<Rightarrow> capture_inner" where
  "capture_drop finished g =
     (if finished then g else snd (drain (g\<lparr>ci_active := False\<rparr>)))"

section \<open>The tracing layer\<close>

datatype level = ERROR | WARN | INFO | DEBUG | TRACE

datatype field_value = FStr string | FDebug string

record log_event =
  le_level :: level
  le_fields :: "(string \<times> field_value) list"

definition trim_quotes :: "string \<Rightarrow> string" where
  "trim_quotes s = rev (dropWhile (\<lambda>c. c = CHR 0x22) (rev (dropWhile (\<lambda>c. c = CHR 0x22) s)))"

text \<open>\<^verbatim>\<open>MessageVisitor\<close>: the last field named \<^verbatim>\<open>message\<close> wins.\<close>

fun visit_field :: "string option \<Rightarrow> string \<times> field_value \<Rightarrow> string option" where
  "visit_field m (name, FStr v) = (if name = ''message'' then Some v else m)"
| "visit_field m (name, FDebug v) = (if name = ''message'' then Some (trim_quotes v) else m)"

definition event_message :: "log_event \<Rightarrow> string option" where
  "event_message ev = foldl visit_field None (le_fields ev)"

definition on_event :: "log_event \<Rightarrow> capture_inner \<Rightarrow> capture_inner option" where
  "on_event ev g =
     (if \<not> ci_active g then Some g
      else case event_message ev of
        None \<Rightarrow> Some g
      | Some msg \<Rightarrow> append_line (le_level ev \<in> {ERROR, WARN}) msg g)"

primrec on_events :: "log_event list \<Rightarrow> capture_inner \<Rightarrow> capture_inner option" where
  "on_events [] g = Some g"
| "on_events (ev # evs) g = Option.bind (on_event ev g) (on_events evs)"

text \<open>One capture scope around the events of a script, as \<^verbatim>\<open>execute_script\<close> uses it.\<close>

definition capture_scope :: "nat \<Rightarrow> log_event list \<Rightarrow> captured_logs option" where
  "capture_scope max_bytes evs =
     map_option (\<lambda>g. fst (capture_finish g)) (on_events evs (capture_enter (capture_new max_bytes)))"

section \<open>Sinks\<close>

text \<open>
  A sink is called with the samples and events of the \<open>tele\<close> type. \<open>console_events\<close> are the tracing
  events that \<^verbatim>\<open>ConsoleSink\<close> emits for one call, \<open>noop_events\<close> those of \<^verbatim>\<open>NoOpSink\<close>; a tracing
  message is recorded through its debug format, and so are numbers and the label lists (\<open>dbg\<close>, \<open>dbg_f\<close>
  are the formats of label lists and of doubles). No component of the repository samples a gauge,
  so \<open>tele\<close> has no case for it and the sinks take it as an operation of its own.
\<close>

fun console_events :: "((string \<times> string) list \<Rightarrow> string) \<Rightarrow> tele \<Rightarrow> log_event list" where
  "console_events dbg (Counter name labels delta) =
     [\<lparr>le_level = INFO,
       le_fields = [(''message'', FDebug ''counter''), (''name'', FStr name),
                    (''delta'', FDebug (nat_to_string delta)), (''labels'', FDebug (dbg labels))]\<rparr>]"
| "console_events dbg (LogEvent schema flds) =
     [\<lparr>le_level = INFO,
       le_fields = [(''message'', FDebug ''telemetry event''), (''schema'', FStr schema),
                    (''fields'', FDebug (dbg flds))]\<rparr>]"

definition console_gauge ::
  "((string \<times> string) list \<Rightarrow> string) \<Rightarrow> (f64 \<Rightarrow> string) \<Rightarrow> string \<Rightarrow> (string \<times> string) list \<Rightarrow> f64
   \<Rightarrow> log_event list" where
  "console_gauge dbg dbg_f name labels v =
     [\<lparr>le_level = INFO,
       le_fields = [(''message'', FDebug ''gauge''), (''name'', FStr name),
                    (''value'', FDebug (dbg_f v)), (''labels'', FDebug (dbg labels))]\<rparr>]"

definition noop_events :: "tele \<Rightarrow> log_event list" where
  "noop_events t = []"

record recorded_counter =
  rc_name :: string
  rc_labels :: "(string \<times> string) list"
  rc_delta :: nat

record recorded_gauge =
  rg_name :: string
  rg_labels :: "(string \<times> string) list"
  rg_value :: f64

record recorded_event =
  re_schema :: string
  re_fields :: "(string, string) hashmap"

record recording_sink =
  rs_counters :: "recorded_counter list"
  rs_gauges :: "recorded_gauge list"
  rs_events :: "recorded_event list"

definition recording_new :: recording_sink where
  "recording_new = \<lparr>rs_counters = [], rs_gauges = [], rs_events = []\<rparr>"

definition recording_clear :: "recording_sink \<Rightarrow> recording_sink" where
  "recording_clear s = s\<lparr>rs_counters := [], rs_gauges := [], rs_events := []\<rparr>"

definition record_counter ::
  "string \<Rightarrow> (string \<times> string) list \<Rightarrow> nat \<Rightarrow> recording_sink \<Rightarrow> recording_sink" where
  "record_counter name labels delta s =
     s\<lparr>rs_counters :=
         rs_counters s @ [\<lparr>rc_name = name, rc_labels = labels, rc_delta = delta\<rparr>]\<rparr>"

definition record_gauge ::
  "string \<Rightarrow> (string \<times> string) list \<Rightarrow> f64 \<Rightarrow> recording_sink \<Rightarrow> recording_sink" where
  "record_gauge name labels v s =
     s\<lparr>rs_gauges := rs_gauges s @ [\<lparr>rg_name = name, rg_labels = labels, rg_value = v\<rparr>]\<rparr>"

definition collect_fields :: "(string \<times> string) list \<Rightarrow> (string, string) hashmap" where
  "collect_fields flds = foldl (\<lambda>m (k, v). AList.update k v m) [] flds"

definition log_event_recorded ::
  "string \<Rightarrow> (string \<times> string) list \<Rightarrow> recording_sink \<Rightarrow> recording_sink" where
  "log_event_recorded schema flds s =
     s\<lparr>rs_events :=
         rs_events s @ [\<lparr>re_schema = schema, re_fields = collect_fields flds\<rparr>]\<rparr>"

definition labels_contain :: "(string \<times> string) list \<Rightarrow> (string \<times> string) list \<Rightarrow> bool" where
  "labels_contain labels sub \<longleftrightarrow>
     list_all (\<lambda>(k, v). list_ex (\<lambda>(lk, lv). lk = k \<and> lv = v) labels) sub"

definition recorded_counters_matching ::
  "string \<Rightarrow> (string \<times> string) list \<Rightarrow> recording_sink \<Rightarrow> recorded_counter list" where
  "recorded_counters_matching name sub s =
     filter (\<lambda>c. rc_name c = name \<and> labels_contain (rc_labels c) sub) (rs_counters s)"

definition recorded_events_for :: "string \<Rightarrow> recording_sink \<Rightarrow> recorded_event list" where
  "recorded_events_for schema s = filter (\<lambda>e. re_schema e = schema) (rs_events s)"

section \<open>The budget of a capture\<close>

definition capture_inv :: "capture_inner \<Rightarrow> bool" where
  "capture_inv g \<longleftrightarrow>
     0 < ci_max_bytes g \<and> ci_used g \<le> ci_max_bytes g \<and>
     ci_used g = length (ci_stdout g) + length (ci_stderr g)"

lemma set_dest_sel [simp]:
  "ci_max_bytes (set_dest b t g) = ci_max_bytes g"
  "ci_used (set_dest b t g) = ci_used g"
  "ci_active (set_dest b t g) = ci_active g"
  "ci_stdout (set_dest b t g) = (if b then ci_stdout g else t)"
  "ci_stderr (set_dest b t g) = (if b then t else ci_stderr g)"
  "dest_text b (set_dest b t g) = t"
  "set_dest b t (g\<lparr>ci_used := n\<rparr>) = (set_dest b t g)\<lparr>ci_used := n\<rparr>"
  "set_dest b t (set_dest b t' g) = set_dest b t g"
  by (simp_all add: set_dest_def dest_text_def)

lemma dest_text_used [simp]: "dest_text b (g\<lparr>ci_used := n\<rparr>) = dest_text b g"
  by (simp add: dest_text_def)

lemma slice_0 [simp]: "slice s 0 n = (if n \<le> length s \<and> is_char_boundary s n then Some (take n s) else None)"
  by (simp add: slice_def is_char_boundary_def)

lemma append_line_some:
  assumes "append_line b line g = Some g'"
  shows "g' = g \<or>
    (\<exists>sep part. (sep = [] \<or> sep = [newline]) \<and> prefix part line \<and> set part \<subseteq> set line \<and>
       g' = (set_dest b (dest_text b g @ sep @ part) g)
              \<lparr>ci_used := ci_used g + length sep + length part\<rparr> \<and>
       ci_used g + length sep + length part \<le> ci_max_bytes g)"
proof (cases "line = [] \<or> ci_used g \<ge> ci_max_bytes g")
  case True
  then show ?thesis using assms by (simp add: append_line_def)
next
  case False
  define sep where "sep = (if dest_text b g = [] then [] else [newline])"
  define chunk where "chunk = (if length line > ci_max_bytes g - ci_used g
    then take (ci_max_bytes g - ci_used g) line else line)"
  define n where "n = min (length chunk) (ci_max_bytes g - (ci_used g + length sep))"
  have pc: "prefix (take n chunk) line"
    by (simp add: chunk_def take_is_prefix)
  have g': "g' = (set_dest b (dest_text b g @ sep @ take n chunk) g)
              \<lparr>ci_used := ci_used g + length sep + n\<rparr>"
    using assms False
    by (auto simp: append_line_def Let_def sep_def chunk_def n_def split: if_splits)
  have len: "n = length (take n chunk)" by (simp add: n_def)
  have "length sep \<le> 1" by (simp add: sep_def)
  with False have "ci_used g + length sep + n \<le> ci_max_bytes g" by (auto simp: n_def)
  with g' pc len show ?thesis
    by (intro disjI2 exI[of _ sep] exI[of _ "take n chunk"])
      (auto simp: sep_def dest: set_mono_prefix)
qed


lemma append_line_inv: "append_line b line g = Some g' \<Longrightarrow> capture_inv g \<Longrightarrow> capture_inv g'"
  by (auto simp: capture_inv_def set_dest_def dest_text_def dest!: append_line_some split: if_splits)

lemma append_line_max: "append_line b line g = Some g' \<Longrightarrow> ci_max_bytes g' = ci_max_bytes g"
  by (auto dest!: append_line_some)

lemma append_line_ascii: "ascii_str line \<Longrightarrow> append_line b line g \<noteq> None"
  by (auto simp: append_line_def Let_def ascii_boundary)

lemma on_events_inv: "on_events evs g = Some g' \<Longrightarrow> capture_inv g \<Longrightarrow> capture_inv g'"
  by (induction evs arbitrary: g)
    (auto simp: on_event_def append_line_inv bind_eq_Some_conv split: if_splits option.splits)

lemma on_events_max: "on_events evs g = Some g' \<Longrightarrow> ci_max_bytes g' = ci_max_bytes g"
  by (induction evs arbitrary: g)
    (auto simp: on_event_def append_line_max bind_eq_Some_conv split: if_splits option.splits)

lemma on_events_ascii:
  "(\<And>ev msg. ev \<in> set evs \<Longrightarrow> event_message ev = Some msg \<Longrightarrow> ascii_str msg) \<Longrightarrow>
   on_events evs g \<noteq> None"
proof (induction evs arbitrary: g)
  case (Cons ev evs)
  have "on_event ev g \<noteq> None"
    using Cons.prems append_line_ascii by (fastforce simp: on_event_def split: option.splits)
  then obtain g' where "on_event ev g = Some g'" by blast
  moreover have "on_events evs g' \<noteq> None" using Cons.prems by (intro Cons.IH) auto
  ultimately show ?case by simp
qed simp

lemma capture_enter_inv: "capture_inv (capture_enter (capture_new n))"
  by (simp add: capture_inv_def capture_enter_def capture_new_def)

section \<open>What a capture holds below its budget\<close>

text \<open>
  The abstract view of a scope: the non-empty messages of one stream, in order, and the text that
  joins them with line breaks.
\<close>

definition stream :: "bool \<Rightarrow> log_event list \<Rightarrow> string list" where
  "stream to_stderr evs =
     concat (map (\<lambda>ev. case event_message ev of
        None \<Rightarrow> []
      | Some m \<Rightarrow> if m \<noteq> [] \<and> (le_level ev \<in> {ERROR, WARN}) = to_stderr then [m] else []) evs)"

abbreviation stream_text :: "bool \<Rightarrow> log_event list \<Rightarrow> string" where
  "stream_text b evs \<equiv> join [newline] (stream b evs)"

lemma stream_ne: "[] \<notin> set (stream b evs)"
  by (auto simp: stream_def split: option.splits if_splits)

lemma join_snoc: "join d (xs @ [x]) = (if xs = [] then x else join d xs @ d @ x)"
  by (induction d xs rule: join.induct) auto

lemma join_nonempty: "[] \<notin> set xs \<Longrightarrow> join d xs = [] \<longleftrightarrow> xs = []"
  by (induction d xs rule: join.induct) auto

lemma append_line_fits:
  assumes "line \<noteq> []"
    and "ci_used g + (if dest_text b g = [] then 0 else 1) + length line \<le> ci_max_bytes g"
  shows "append_line b line g =
    Some ((set_dest b (if dest_text b g = [] then line else dest_text b g @ newline # line) g)
            \<lparr>ci_used := ci_used g + (if dest_text b g = [] then 0 else 1) + length line\<rparr>)"
proof -
  have "length line \<noteq> 0" using assms(1) by simp
  then show ?thesis
    using assms(2) by (auto simp: append_line_def Let_def is_char_boundary_def split: if_splits)
qed

lemma on_events_snoc: "on_events (evs @ [ev]) g = Option.bind (on_events evs g) (on_event ev)"
  by (induction evs arbitrary: g) (auto split: Option.bind_splits)

lemma on_events_fit:
  assumes "ci_active g" "ci_stdout g = []" "ci_stderr g = []" "ci_used g = 0"
    and "length (stream_text False evs) + length (stream_text True evs) \<le> ci_max_bytes g"
  shows "on_events evs g =
    Some (g\<lparr>ci_stdout := stream_text False evs, ci_stderr := stream_text True evs,
            ci_used := length (stream_text False evs) + length (stream_text True evs)\<rparr>)"
  using assms(5)
proof (induction evs rule: rev_induct)
  case Nil
  then show ?case using assms(1-4) by (simp add: stream_def)
next
  case (snoc ev evs)
  show ?case
  proof (cases "event_message ev")
    case None
    with snoc assms(1) show ?thesis by (simp add: on_events_snoc on_event_def stream_def)
  next
    case (Some m)
    show ?thesis
    proof (cases "m = []")
      case True
      with snoc Some assms(1) show ?thesis
        by (simp add: on_events_snoc on_event_def stream_def append_line_def)
    next
      case False
      define b where "b = (le_level ev \<in> {ERROR, WARN})"
      have st: "stream c (evs @ [ev]) = stream c evs @ (if c = b then [m] else [])" for c
        using Some False by (auto simp: stream_def b_def)
      have ne: "stream_text c evs = [] \<longleftrightarrow> stream c evs = []" for c
        using join_nonempty stream_ne by blast
      have le: "length (stream_text False evs) + length (stream_text True evs) \<le> ci_max_bytes g"
        using snoc.prems by (cases b) (auto simp: st join_snoc split: if_splits)
      let ?g1 = "g\<lparr>ci_stdout := stream_text False evs, ci_stderr := stream_text True evs,
        ci_used := length (stream_text False evs) + length (stream_text True evs)\<rparr>"
      have d: "dest_text b ?g1 = stream_text b evs" by (simp add: dest_text_def)
      have "ci_used ?g1 + (if dest_text b ?g1 = [] then 0 else 1) + length m \<le> ci_max_bytes ?g1"
        using snoc.prems unfolding d ne by (cases b) (auto simp: st join_snoc split: if_splits)
      note fit = append_line_fits[OF False this, unfolded d ne]
      have "on_events (evs @ [ev]) g = append_line b m ?g1"
        using Some assms(1) by (simp add: on_events_snoc snoc.IH[OF le] on_event_def b_def)
      then show ?thesis
        unfolding fit st by (cases b) (auto simp: join_snoc set_dest_def)
    qed
  qed
qed

section \<open>Properties\<close>

text \<open>
  A capture scope never keeps more bytes than its budget (at least one byte), whatever the
  script logs, and with messages in ASCII it never panics.
\<close>
lemma capture_within_budget:
  assumes "\<forall>ev msg. ev \<in> set evs \<and> event_message ev = Some msg \<longrightarrow> ascii_str msg"
  shows "\<exists>logs. capture_scope max_bytes evs = Some logs \<and>
    length (case stdout_text logs of None \<Rightarrow> [] | Some s \<Rightarrow> s) +
    length (case stderr_text logs of None \<Rightarrow> [] | Some s \<Rightarrow> s) \<le> max max_bytes 1"
proof -
  have "on_events evs (capture_enter (capture_new max_bytes)) \<noteq> None"
    using assms by (intro on_events_ascii) blast
  then obtain g where g: "on_events evs (capture_enter (capture_new max_bytes)) = Some g" by blast
  have "capture_inv g" using on_events_inv[OF g] capture_enter_inv by blast
  moreover have "ci_max_bytes g = max max_bytes 1"
    using on_events_max[OF g] by (simp add: capture_enter_def capture_new_def)
  ultimately show ?thesis
    by (simp add: capture_scope_def g capture_finish_def drain_def capture_inv_def opt_text_def
        split: option.splits)
qed

text \<open>
  (C19) Below the budget a capture loses nothing: the two streams of the run are the messages of the
  script joined by line breaks, errors and warnings on the one, everything else on the other, in
  the order they were logged and in any encoding.
\<close>
theorem capture_refines_streams:
  assumes "length (stream_text False evs) + length (stream_text True evs) \<le> max_bytes"
  shows "capture_scope max_bytes evs =
    Some \<lparr>stdout_text = opt_text (stream_text False evs),
          stderr_text = opt_text (stream_text True evs)\<rparr>"
proof -
  let ?g = "capture_enter (capture_new max_bytes)"
  have g: "ci_active ?g" "ci_stdout ?g = []" "ci_stderr ?g = []" "ci_used ?g = 0"
    "ci_max_bytes ?g = max max_bytes 1"
    by (simp_all add: capture_enter_def capture_new_def)
  show ?thesis
    using on_events_fit[OF g(1-4), of evs] assms
    by (simp add: g(5) capture_scope_def capture_finish_def drain_def)
qed

theorem capture_refines_streams_witness:
  "capture_scope 100
     [\<lparr>le_level = INFO, le_fields = [(''message'', FDebug ''a'')]\<rparr>,
      \<lparr>le_level = WARN, le_fields = [(''message'', FStr ''b'')]\<rparr>,
      \<lparr>le_level = DEBUG, le_fields = [(''message'', FStr ''c'')]\<rparr>] =
   Some \<lparr>stdout_text = Some [CHR ''a'', newline, CHR ''c''], stderr_text = Some ''b''\<rparr>"
  using capture_refines_streams[of
     "[\<lparr>le_level = INFO, le_fields = [(''message'', FDebug ''a'')]\<rparr>,
       \<lparr>le_level = WARN, le_fields = [(''message'', FStr ''b'')]\<rparr>,
       \<lparr>le_level = DEBUG, le_fields = [(''message'', FStr ''c'')]\<rparr>]" 100]
  by (simp add: stream_def event_message_def trim_quotes_def opt_text_def)

text \<open>
  A message in well-formed UTF-8 that has to be cut inside a character makes the capture
  panic, within the script that logged it.
\<close>
lemma capture_panics_on_utf8:
  "utf8_valid [CHR 0x61, CHR 0xC3, CHR 0xA9] \<and>
   capture_scope 2 [\<lparr>le_level = INFO, le_fields = [(''message'', FStr [CHR 0x61, CHR 0xC3, CHR 0xA9])]\<rparr>] =
     None"
  by code_simp

end
