(* ===== verification/Executor.thy ===== *)
theory Executor
  imports Core_Models Log_Capture "HOL-Library.List_Lexorder" "HOL-Library.Char_ord"
begin

text \<open>
  The crate \<^verbatim>\<open>chronon-executor\<close> (\<^verbatim>\<open>descriptor.rs\<close>, \<^verbatim>\<open>registry.rs\<close>, \<^verbatim>\<open>invoke.rs\<close>, \<^verbatim>\<open>lib.rs\<close>) with the
  script contexts of \<^verbatim>\<open>chronon-core/src/context.rs\<close>: the script registry, the invocation of a
  script with captured logs, and the asynchronous dispatch of a run with its lifecycle events.

  A script handler is code of the host. It is modelled as asynchronous code that returns the
  tracing events it emitted and its result, where no result is a panic. When a tracing event makes
  the capture panic, the panic is reported at the end of the handler.
\<close>

section \<open>Script contexts\<close>

record script_context =
  ctx_label :: string
  ctx_actor_json :: json

type_synonym context_factory = "json \<Rightarrow> script_context res"

definition noop_context_factory :: context_factory where
  "noop_context_factory actor_json = Inr \<lparr>ctx_label = ''noop'', ctx_actor_json = JNull\<rparr>"

text \<open>The label is the JSON text of the actor, printed by \<^verbatim>\<open>serde_json\<close>.\<close>

definition json_context_factory :: "(json \<Rightarrow> string) \<Rightarrow> context_factory" where
  "json_context_factory json_to_string actor_json =
     Inr \<lparr>ctx_label = json_to_string actor_json, ctx_actor_json = actor_json\<rparr>"

definition identity_error_into :: "string \<Rightarrow> chronon_error" where
  "identity_error_into msg = Identity msg"

section \<open>The script registry\<close>

type_synonym script_result = "log_event list \<times> unit res option"
type_synonym 's invoke_fn = "script_context \<Rightarrow> json \<Rightarrow> ('s, script_result) proc"

record 's script_descriptor =
  d_name :: string
  d_invoke :: "'s invoke_fn"
  d_signature_json :: string
  d_signature_hash :: nat

definition descriptor_new :: "string \<Rightarrow> 's invoke_fn \<Rightarrow> 's script_descriptor" where
  "descriptor_new name invoke =
     \<lparr>d_name = name, d_invoke = invoke, d_signature_json = ''{}'', d_signature_hash = 0\<rparr>"

definition descriptor_with_signature ::
  "string \<Rightarrow> 's invoke_fn \<Rightarrow> string \<Rightarrow> nat \<Rightarrow> 's script_descriptor" where
  "descriptor_with_signature name invoke signature_json signature_hash =
     \<lparr>d_name = name, d_invoke = invoke, d_signature_json = signature_json,
      d_signature_hash = signature_hash\<rparr>"

text \<open>
  \<^verbatim>\<open>StoredScript\<close> and \<^verbatim>\<open>ScriptDescriptorRef\<close> hold the four fields of a descriptor.
\<close>

type_synonym 's script_registry = "(string, 's script_descriptor) hashmap"

definition registry_new :: "'s script_registry" where
  "registry_new = []"

definition registry_register :: "'s script_descriptor \<Rightarrow> 's script_registry \<Rightarrow> 's script_registry" where
  "registry_register desc reg =
     hm_insert (d_name desc)
       \<lparr>d_name = d_name desc, d_invoke = d_invoke desc, d_signature_json = d_signature_json desc,
        d_signature_hash = d_signature_hash desc\<rparr> reg"

primrec register_from_inventory ::
  "'s script_descriptor list \<Rightarrow> 's script_registry \<Rightarrow> 's script_registry" where
  "register_from_inventory [] reg = reg"
| "register_from_inventory (desc # inventory) reg =
     register_from_inventory inventory
       (registry_register
          (descriptor_with_signature (d_name desc) (d_invoke desc) (d_signature_json desc)
             (d_signature_hash desc)) reg)"

definition from_inventory :: "'s script_descriptor list \<Rightarrow> 's script_registry" where
  "from_inventory inventory = register_from_inventory inventory registry_new"

definition registry_get :: "'s script_registry \<Rightarrow> string \<Rightarrow> 's script_descriptor option" where
  "registry_get reg name =
     map_option (\<lambda>s. \<lparr>d_name = d_name s, d_invoke = d_invoke s,
        d_signature_json = d_signature_json s, d_signature_hash = d_signature_hash s\<rparr>)
       (hm_get reg name)"

definition get_or_err :: "'s script_registry \<Rightarrow> string \<Rightarrow> 's script_descriptor res" where
  "get_or_err reg name =
     (case registry_get reg name of None \<Rightarrow> Inl (ScriptNotFound name) | Some d \<Rightarrow> Inr d)"

definition registry_len :: "'s script_registry \<Rightarrow> nat" where
  "registry_len reg = length reg"

definition registry_is_empty :: "'s script_registry \<Rightarrow> bool" where
  "registry_is_empty reg \<longleftrightarrow> reg = []"

definition registry_contains :: "'s script_registry \<Rightarrow> string \<Rightarrow> bool" where
  "registry_contains reg name \<longleftrightarrow> hm_get reg name \<noteq> None"

definition registry_list :: "'s script_registry \<Rightarrow> 's script_descriptor list" where
  "registry_list reg = sort_key d_name (hm_values reg)"

section \<open>Invocation\<close>

record 's executor =
  ex_registry :: "'s script_registry"
  ex_context_factory :: context_factory
  ex_sink_events :: "tele \<Rightarrow> log_event list"
  ex_run_slots :: nat

text \<open>
  The telemetry sink of the executor records every call in the process state; \<open>ex_sink_events\<close> are
  the tracing events the installed sink emits while it does so (none for most sinks).
\<close>

definition executor_new ::
  "'s script_registry \<Rightarrow> context_factory \<Rightarrow> (tele \<Rightarrow> log_event list) \<Rightarrow> nat \<Rightarrow> 's executor" where
  "executor_new registry context_factory sink max_in_flight =
     \<lparr>ex_registry = registry, ex_context_factory = context_factory, ex_sink_events = sink,
      ex_run_slots = max max_in_flight 1\<rparr>"

definition script_count :: "'s executor \<Rightarrow> nat" where
  "script_count ex = registry_len (ex_registry ex)"

definition executor_concurrency_from_env :: "(string \<Rightarrow> string option) \<Rightarrow> nat" where
  "executor_concurrency_from_env env =
     (case Option.bind (env ''CHRONON_EXECUTOR_CONCURRENCY'') (parse_unsigned u64_max) of
        Some n \<Rightarrow> if n \<ge> 1 then n else 4
      | None \<Rightarrow> 4)"

definition event_channel_capacity_from_env :: "(string \<Rightarrow> string option) \<Rightarrow> nat" where
  "event_channel_capacity_from_env env =
     (case Option.bind (env ''CHRONON_EVENT_CHANNEL_CAPACITY'') (parse_unsigned u64_max) of
        Some n \<Rightarrow> if n \<ge> 1 then n else 1024
      | None \<Rightarrow> 1024)"

record execute_request =
  q_script_name :: string
  q_actor_json :: json
  q_params_json :: json
  q_job_name :: string
  q_run_id :: string

record execute_outcome =
  o_result :: "unit res"
  o_logs :: captured_logs

definition executor_error_event :: "execute_request \<Rightarrow> string \<Rightarrow> string \<Rightarrow> tele" where
  "executor_error_event q phase message =
     LogEvent ''chronon_executor_error''
       [(''job_name'', q_job_name q), (''run_id'', q_run_id q), (''script_name'', q_script_name q),
        (''phase'', phase), (''message'', message)]"

definition record_executor_error ::
  "'s executor \<Rightarrow> execute_request \<Rightarrow> string \<Rightarrow> string \<Rightarrow> ('s, log_event list) proc" where
  "record_executor_error ex q phase message =
     do { emit (executor_error_event q phase message);
          ret (ex_sink_events ex (executor_error_event q phase message)) }"

definition param_error_hints :: "string list" where
  "param_error_hints =
     [''missing field'', ''invalid type'', ''expected'', ''unknown field'', ''parameter error'',
      ''deserializing'']"

definition is_likely_param_error :: "string \<Rightarrow> bool" where
  "is_likely_param_error message \<longleftrightarrow>
     (let lower = to_ascii_lowercase message
      in list_ex (\<lambda>h. str_contains h lower) param_error_hints)"

fun map_invoke_error :: "chronon_error \<Rightarrow> chronon_error" where
  "map_invoke_error (Internal message) =
     (if is_likely_param_error message then ParamError message else Internal message)"
| "map_invoke_error e = e"

definition invoke_inner :: "'s executor \<Rightarrow> execute_request \<Rightarrow> ('s, script_result) proc" where
  "invoke_inner ex q =
     (case get_or_err (ex_registry ex) (q_script_name q) of
        Inl e \<Rightarrow> do {
          evs \<leftarrow> record_executor_error ex q ''registry_lookup'' (error_to_string e);
          ret (evs, Some (Inl e)) }
      | Inr descriptor \<Rightarrow>
          (case ex_context_factory ex (q_actor_json q) of
             Inl e \<Rightarrow> do {
               evs \<leftarrow> record_executor_error ex q ''context_build'' (error_to_string e);
               ret (evs, Some (Inl e)) }
           | Inr ctx \<Rightarrow> do {
               out \<leftarrow> d_invoke descriptor ctx (q_params_json q);
               case out of
                 (evs, Some (Inl e)) \<Rightarrow> do {
                   evs' \<leftarrow> record_executor_error ex q ''script_invoke'' (error_to_string e);
                   ret (evs @ evs', Some (Inl (map_invoke_error e))) }
               | _ \<Rightarrow> ret out }))"

text \<open>
  \<^verbatim>\<open>execute_script\<close>: a capture scope around the invocation; a failure also puts its message on
  \<^verbatim>\<open>stderr\<close>. \<open>None\<close> is a panic, of the handler or of the capture.
\<close>

definition execute_script ::
  "'s executor \<Rightarrow> execute_request \<Rightarrow> ('s, execute_outcome option) proc" where
  "execute_script ex q =
     do {
       (evs, result) \<leftarrow> invoke_inner ex q;
       ret (case (capture_scope default_max_capture_bytes evs, result) of
              (Some logs, Some r) \<Rightarrow>
                Some \<lparr>o_result = r,
                      o_logs = (case r of
                                  Inl e \<Rightarrow> ensure_stderr_message (error_to_string e) logs
                                | Inr _ \<Rightarrow> logs)\<rparr>
            | _ \<Rightarrow> None)
     }"

section \<open>Dispatch of a run\<close>

datatype executor_event =
    RunStarted (ev_run_id: string)
  | RunCompleted (ev_run_id: string) (ev_duration_ms: int) (ev_logs: captured_logs)
  | RunFailed (ev_run_id: string) (ev_error: string) (ev_logs: captured_logs)

definition run_labels :: "execute_request \<Rightarrow> (string \<times> string) list" where
  "run_labels q = [(''script'', q_script_name q), (''job'', q_job_name q)]"

text \<open>The script comes from the job, actor and parameters from the run.\<close>

definition spawn_request :: "job \<Rightarrow> run \<Rightarrow> execute_request" where
  "spawn_request job run =
     \<lparr>q_script_name = j_script_name job, q_actor_json = r_actor_json run,
      q_params_json = r_params_json run, q_job_name = j_job_name job, q_run_id = r_run_id run\<rparr>"

text \<open>
  The task of \<^verbatim>\<open>spawn_run\<close> once it holds a run slot. \<open>started_open\<close> and \<open>finished_open\<close> say whether the
  event channel is still open at the two sends; the value is the list of events sent. A panic of
  the script ends the task.
\<close>

definition run_task ::
  "'s executor \<Rightarrow> bool \<Rightarrow> bool \<Rightarrow> execute_request \<Rightarrow> ('s, executor_event list) proc" where
  "run_task ex started_open finished_open q =
     (if \<not> started_open then ret []
      else do {
        emit (Counter ''chronon_runs_started'' (run_labels q) 1);
        started \<leftarrow> utc_now;
        out \<leftarrow> execute_script ex q;
        case out of
          None \<Rightarrow> ret [RunStarted (q_run_id q)]
        | Some outcome \<Rightarrow> do {
            finished \<leftarrow> utc_now;
            let duration_ms = num_milliseconds (finished - started);
            case o_result outcome of
              Inr _ \<Rightarrow> do {
                emit (Counter ''chronon_runs_completed'' (run_labels q) 1);
                ret (RunStarted (q_run_id q) #
                     (if finished_open
                      then [RunCompleted (q_run_id q) duration_ms (o_logs outcome)] else [])) }
            | Inl e \<Rightarrow> do {
                emit (Counter ''chronon_runs_failed'' (run_labels q) 1);
                emit (LogEvent ''chronon_run_failed''
                  [(''run_id'', q_run_id q), (''job'', q_job_name q),
                   (''error'', error_to_string e)]);
                ret (RunStarted (q_run_id q) #
                     (if finished_open
                      then [RunFailed (q_run_id q) (error_to_string e) (o_logs outcome)]
                      else [])) } } })"

definition spawn_run ::
  "'s executor \<Rightarrow> bool \<Rightarrow> bool \<Rightarrow> job \<Rightarrow> run \<Rightarrow> ('s, executor_event list) proc" where
  "spawn_run ex started_open finished_open job run =
     run_task ex started_open finished_open (spawn_request job run)"

section \<open>Run slots\<close>

text \<open>
  The semaphore that bounds concurrent tasks, as a transition system: \<^verbatim>\<open>spawn_run\<close> adds a waiting
  task, a waiting task takes a permit in arrival order, and the permit is returned when the task
  ends (also by a panic, which drops the permit).
\<close>

record slots =
  sl_permits :: nat
  sl_waiting :: "string list"
  sl_running :: "string list"
  sl_ended :: "string list"

definition slots_init :: "'s executor \<Rightarrow> slots" where
  "slots_init ex = \<lparr>sl_permits = ex_run_slots ex, sl_waiting = [], sl_running = [], sl_ended = []\<rparr>"

inductive slot_step :: "slots \<Rightarrow> slots \<Rightarrow> bool" where
  spawn: "slot_step sl (sl\<lparr>sl_waiting := sl_waiting sl @ [r]\<rparr>)"
| acquire: "sl_waiting sl = r # rs \<Longrightarrow> sl_permits sl = Suc n \<Longrightarrow>
    slot_step sl (sl\<lparr>sl_permits := n, sl_waiting := rs, sl_running := r # sl_running sl\<rparr>)"
| release: "r \<in> set (sl_running sl) \<Longrightarrow>
    slot_step sl (sl\<lparr>sl_permits := Suc (sl_permits sl), sl_running := remove1 r (sl_running sl),
                     sl_ended := r # sl_ended sl\<rparr>)"

inductive_cases slot_stepE: "slot_step sl sl'"

definition slots_reachable :: "'s executor \<Rightarrow> slots \<Rightarrow> bool" where
  "slots_reachable ex sl \<longleftrightarrow> slot_step\<^sup>*\<^sup>* (slots_init ex) sl"

definition slots_inv :: "'s executor \<Rightarrow> slots \<Rightarrow> bool" where
  "slots_inv ex sl \<longleftrightarrow> sl_permits sl + length (sl_running sl) = ex_run_slots ex"

lemma slot_step_inv: "slot_step sl sl' \<Longrightarrow> slots_inv ex sl \<Longrightarrow> slots_inv ex sl'"
proof (erule slot_stepE, goal_cases)
  case (3 r)
  then obtain n where "length (sl_running sl) = Suc n"
    by (metis length_pos_if_in_set gr0_implies_Suc)
  with 3 show ?case by (simp add: slots_inv_def length_remove1)
qed (simp_all add: slots_inv_def)

lemma slots_reachable_inv: "slots_reachable ex sl \<Longrightarrow> slots_inv ex sl"
  unfolding slots_reachable_def
  by (induction rule: rtranclp_induct) (simp add: slots_inv_def slots_init_def, rule slot_step_inv)

text \<open>Finishing the running tasks lets every waiting task run.\<close>

lemma slots_finish_one:
  assumes "sl_running sl = r # rs"
  shows "slot_step sl (sl\<lparr>sl_permits := Suc (sl_permits sl), sl_running := rs,
                          sl_ended := r # sl_ended sl\<rparr>)"
  using slot_step.release[of r sl] assms by simp

lemma slots_drain:
  assumes "0 < sl_permits sl + length (sl_running sl)"
  shows "\<exists>sl'. slot_step\<^sup>*\<^sup>* sl sl' \<and> sl_waiting sl' = [] \<and> sl_running sl' = [] \<and>
           set (sl_ended sl') = set (sl_waiting sl) \<union> set (sl_running sl) \<union> set (sl_ended sl)"
  using assms
proof (induction "2 * length (sl_waiting sl) + length (sl_running sl)" arbitrary: sl rule: less_induct)
  case less
  consider (idle) "sl_waiting sl = []" "sl_running sl = []"
    | (busy) r rs where "sl_running sl = r # rs"
    | (wait) r rs n where "sl_waiting sl = r # rs" "sl_permits sl = Suc n" "sl_running sl = []"
    using less.prems
    by (cases "sl_running sl"; cases "sl_waiting sl"; cases "sl_permits sl") auto
  then show ?case
  proof cases
    case idle
    then show ?thesis by (intro exI[of _ sl]) simp
  next
    case busy
    let ?n = "sl\<lparr>sl_permits := Suc (sl_permits sl), sl_running := rs, sl_ended := r # sl_ended sl\<rparr>"
    have "slot_step sl ?n" using busy by (rule slots_finish_one)
    with less.hyps[of ?n] busy show ?thesis
      by (auto intro: converse_rtranclp_into_rtranclp)
  next
    case wait
    let ?n = "sl\<lparr>sl_permits := n, sl_waiting := rs, sl_running := r # sl_running sl\<rparr>"
    have "slot_step sl ?n" using wait(1,2) by (rule slot_step.acquire)
    with less.hyps[of ?n] wait show ?thesis
      by (auto intro: converse_rtranclp_into_rtranclp)
  qed
qed

section \<open>Registry and invocation facts\<close>

lemma registry_get_register:
  "registry_get (registry_register d reg) = (registry_get reg)(d_name d \<mapsto> d)"
  by (auto simp: registry_get_def registry_register_def hm_simps fun_eq_iff)

lemma registry_get_inventory:
  "registry_get (register_from_inventory ds reg) n =
     (case map_of (rev (map (\<lambda>d. (d_name d, d)) ds)) n of
        None \<Rightarrow> registry_get reg n | Some d \<Rightarrow> Some d)"
  by (induction ds arbitrary: reg)
    (auto simp: registry_get_register descriptor_with_signature_def map_add_def split: option.splits)

definition registry_inv :: "'s script_registry \<Rightarrow> bool" where
  "registry_inv reg \<longleftrightarrow> hm_ok reg \<and> (\<forall>n d. hm_get reg n = Some d \<longrightarrow> d_name d = n)"

lemma registry_inv_new: "registry_inv registry_new"
  by (simp add: registry_inv_def registry_new_def)

lemma registry_inv_register: "registry_inv reg \<Longrightarrow> registry_inv (registry_register d reg)"
  by (auto simp: registry_inv_def registry_register_def hm_simps)

lemma registry_inv_inventory: "registry_inv reg \<Longrightarrow> registry_inv (register_from_inventory ds reg)"
  by (induction ds arbitrary: reg) (simp_all add: registry_inv_register)

lemma registry_names:
  "registry_inv reg \<Longrightarrow> distinct (map d_name (hm_values reg))"
proof -
  assume inv: "registry_inv reg"
  have "map d_name (hm_values reg) = map fst reg"
    using inv by (auto simp: registry_inv_def hm_values_def hm_ok_def map_of_eq_Some_iff)
  with inv show ?thesis by (simp add: registry_inv_def hm_ok_def)
qed

lemma str_contains_append: "str_contains p (a @ p)"
proof -
  have "prefix p (drop (length a) (a @ p))" by simp
  then show ?thesis unfolding str_contains_def str_find_None
    by (metis length_append le_add1)
qed

lemma str_contains_line: "str_contains p (c # a @ newline # p)"
  using str_contains_append[of p "c # a @ [newline]"] by simp

lemma ensure_stderr_contains:
  assumes "m \<noteq> []"
  shows "\<exists>s. stderr_text (ensure_stderr_message m l) = Some s \<and> str_contains m s"
proof (cases "stderr_text l")
  case None
  then show ?thesis using assms str_contains_append[of m "[]"] by (simp add: ensure_stderr_message_def)
next
  case (Some s)
  then show ?thesis
    using assms str_contains_append[of m "[]"] str_contains_line[of m]
    by (cases s) (simp_all add: ensure_stderr_message_def)
qed

lemma error_to_string_ne: "error_to_string e \<noteq> []"
  by (cases e) simp_all

lemma execute_failed_stderr:
  "fst (run_state (execute_script ex q) w) = Some out \<Longrightarrow> o_result out = Inl e \<Longrightarrow>
   \<exists>s. stderr_text (o_logs out) = Some s \<and> str_contains (error_to_string e) s"
  using ensure_stderr_contains[OF error_to_string_ne]
  by (auto simp: execute_script_def run_state_bind split: prod.splits option.splits sum.splits)

section \<open>Properties\<close>

text \<open>
  (C29) Lookup after registration: the registry built from the linked inventory holds, for each name,
  the last descriptor of that name, its listing is sorted by name without repetition, and contains
  exactly the registered scripts.
\<close>
theorem inventory_registry_spec:
  "registry_get (from_inventory ds) n = map_of (rev (map (\<lambda>d. (d_name d, d)) ds)) n \<and>
   (registry_contains (from_inventory ds) n \<longleftrightarrow> (\<exists>d \<in> set ds. d_name d = n)) \<and>
   sorted (map d_name (registry_list (from_inventory ds))) \<and>
   distinct (map d_name (registry_list (from_inventory ds))) \<and>
   (d \<in> set (registry_list (from_inventory ds)) \<longleftrightarrow>
      registry_get (from_inventory ds) (d_name d) = Some d)"
proof (intro conjI)
  let ?reg = "from_inventory ds"
  have inv: "registry_inv ?reg"
    unfolding from_inventory_def by (rule registry_inv_inventory) (rule registry_inv_new)
  show get: "registry_get ?reg n = map_of (rev (map (\<lambda>d. (d_name d, d)) ds)) n" for n
    by (simp add: from_inventory_def registry_get_inventory registry_new_def
        registry_get_def[of "[]"] split: option.splits)
  show "registry_contains ?reg n \<longleftrightarrow> (\<exists>d \<in> set ds. d_name d = n)"
  proof -
    have "registry_contains ?reg n \<longleftrightarrow> registry_get ?reg n \<noteq> None"
      by (simp add: registry_contains_def registry_get_def)
    also have "\<dots> \<longleftrightarrow> n \<in> d_name ` set ds"
      unfolding get map_of_eq_None_iff by (simp add: image_image)
    finally show ?thesis by auto
  qed
  show "sorted (map d_name (registry_list ?reg))" "distinct (map d_name (registry_list ?reg))"
    using registry_names[OF inv] by (simp_all add: registry_list_def distinct_map)
  have "d \<in> set (hm_values ?reg) \<longleftrightarrow> map_of ?reg (d_name d) = Some d"
    using inv by (auto simp: registry_inv_def hm_value_iff)
  then show "d \<in> set (registry_list ?reg) \<longleftrightarrow> registry_get ?reg (d_name d) = Some d"
    by (auto simp: registry_list_def registry_get_def)
qed

text \<open>
  (C17) Fail closed: when the script is not registered, or the actor of the run is refused by the
  context factory, the handler is not invoked. The outcome is that error with its text on
  \<^verbatim>\<open>stderr\<close>, and the process state changes only by one executor error event.
\<close>
theorem execute_script_fail_closed:
  assumes "get_or_err (ex_registry ex) (q_script_name q) = Inl e \<and> phase = ''registry_lookup'' \<or>
           get_or_err (ex_registry ex) (q_script_name q) = Inr d \<and>
           ex_context_factory ex (q_actor_json q) = Inl e \<and> phase = ''context_build''"
    and "ex_sink_events ex = noop_events"
  shows "run_state (execute_script ex q) w =
    (Some \<lparr>o_result = Inl e,
           o_logs = \<lparr>stdout_text = None, stderr_text = Some (error_to_string e)\<rparr>\<rparr>,
     w\<lparr>w_tele := w_tele w @ [executor_error_event q phase (error_to_string e)]\<rparr>)"
  using assms error_to_string_ne[of e]
  by (auto simp: execute_script_def invoke_inner_def record_executor_error_def world_simps
      noop_events_def capture_scope_def capture_enter_def capture_new_def capture_finish_def
      drain_def opt_text_def ensure_stderr_message_def)

definition quiet_executor :: "unit executor" where
  "quiet_executor =
     executor_new (from_inventory [descriptor_new ''noop'' (\<lambda>_ _. ret ([], Some (Inr ())))])
       (\<lambda>actor. if actor = JNull then Inl (identity_error_into ''no actor'') else noop_context_factory actor)
       noop_events 4"

definition null_world :: "unit world" where
  "null_world = \<lparr>w_store = (), w_clock = int, w_reads = 0, w_uuid = nat_to_string, w_uuids = 0,
     w_env = (\<lambda>_. None), w_tele = [], w_sleeps = []\<rparr>"

definition sample_request :: "string \<Rightarrow> execute_request" where
  "sample_request name = \<lparr>q_script_name = name, q_actor_json = JNull, q_params_json = JObject [],
     q_job_name = ''job'', q_run_id = ''run-1''\<rparr>"

theorem execute_script_fail_closed_witness:
  "fst (run_state (execute_script quiet_executor (sample_request ''missing'')) null_world) =
     Some \<lparr>o_result = Inl (ScriptNotFound ''missing''),
           o_logs = \<lparr>stdout_text = None, stderr_text = Some ''script not found: missing''\<rparr>\<rparr> \<and>
   fst (run_state (execute_script quiet_executor (sample_request ''noop'')) null_world) =
     Some \<lparr>o_result = Inl (Identity ''no actor''),
           o_logs = \<lparr>stdout_text = None, stderr_text = Some ''identity error: no actor''\<rparr>\<rparr>"
proof -
  let ?d = "descriptor_new ''noop'' (\<lambda>_ _. ret ([], Some (Inr ()))) :: unit script_descriptor"
  have reg: "get_or_err (ex_registry quiet_executor) n =
      (if n = ''noop'' then Inr ?d else Inl (ScriptNotFound n))" for n
    by (simp add: quiet_executor_def executor_new_def from_inventory_def registry_new_def
        get_or_err_def registry_get_register descriptor_with_signature_def descriptor_new_def)
      (simp add: registry_get_def)
  have 1: "get_or_err (ex_registry quiet_executor) (q_script_name (sample_request ''missing'')) =
      Inl (ScriptNotFound ''missing'')"
    by (simp add: reg sample_request_def)
  have 2: "get_or_err (ex_registry quiet_executor) (q_script_name (sample_request ''noop'')) = Inr ?d \<and>
      ex_context_factory quiet_executor (q_actor_json (sample_request ''noop'')) =
        Inl (Identity ''no actor'')"
    by (simp add: reg sample_request_def)
      (simp add: quiet_executor_def executor_new_def identity_error_into_def)
  have 3: "ex_sink_events quiet_executor = noop_events"
    by (simp add: quiet_executor_def executor_new_def)
  show ?thesis
    using execute_script_fail_closed[of quiet_executor _ _ _ undefined, OF disjI1 3] 1
      execute_script_fail_closed[OF disjI2 3] 2
    by simp
qed

text \<open>
  With an open event channel, a dispatched run sends \<^verbatim>\<open>RunStarted\<close> first and then at most one
  event more: completion with the captured logs when the handler returned, failure with its text on
  \<^verbatim>\<open>stderr\<close> when it returned an error, and nothing when it panicked.
\<close>
lemma spawn_run_events:
  "let q = spawn_request job run;
       w1 = w\<lparr>w_tele := w_tele w @ [Counter ''chronon_runs_started'' (run_labels q) 1],
              w_reads := Suc (w_reads w)\<rparr>;
       evs = fst (run_state (spawn_run ex True True job run) w)
   in case fst (run_state (execute_script ex q) w1) of
     None \<Rightarrow> evs = [RunStarted (r_run_id run)]
   | Some out \<Rightarrow>
      (case o_result out of
         Inr _ \<Rightarrow> \<exists>d. evs = [RunStarted (r_run_id run), RunCompleted (r_run_id run) d (o_logs out)]
       | Inl e \<Rightarrow>
           evs = [RunStarted (r_run_id run), RunFailed (r_run_id run) (error_to_string e) (o_logs out)] \<and>
           (\<exists>s. stderr_text (o_logs out) = Some s \<and> str_contains (error_to_string e) s))"
proof -
  let ?evs = "fst (run_state (spawn_run ex True True job run) w)"
  let ?q = "spawn_request job run"
  define w1 where "w1 = w\<lparr>w_tele := w_tele w @ [Counter ''chronon_runs_started'' (run_labels ?q) 1],
    w_reads := Suc (w_reads w)\<rparr>"
  have id: "q_run_id ?q = r_run_id run" by (simp add: spawn_request_def)
  obtain r w2 where ex: "run_state (execute_script ex ?q) w1 = (r, w2)" by fastforce
  have "case r of None \<Rightarrow> ?evs = [RunStarted (r_run_id run)]
   | Some out \<Rightarrow>
      (case o_result out of
         Inr _ \<Rightarrow> \<exists>d. ?evs = [RunStarted (r_run_id run), RunCompleted (r_run_id run) d (o_logs out)]
       | Inl e \<Rightarrow>
           ?evs = [RunStarted (r_run_id run), RunFailed (r_run_id run) (error_to_string e) (o_logs out)])"
    using ex
    by (auto simp: spawn_run_def run_task_def world_simps id w1_def run_state_bind Let_def
        split: option.splits sum.splits)
  moreover have "\<exists>s. stderr_text (o_logs out) = Some s \<and> str_contains (error_to_string e) s"
    if "r = Some out" "o_result out = Inl e" for out e
    using execute_failed_stderr[of ex ?q w1] ex that by simp
  ultimately show ?thesis
    unfolding Let_def w1_def[symmetric] ex fst_conv by (auto split: option.splits sum.splits)
qed



text \<open>
  No spawned run is stranded: from every reachable state there are steps in which each running
  task ends and each waiting task runs and ends.
\<close>
lemma executor_slots_drain:
  assumes "slots_reachable (executor_new reg factory sink max_in_flight) sl"
  shows "\<exists>sl'. slot_step\<^sup>*\<^sup>* sl sl' \<and> sl_waiting sl' = [] \<and> sl_running sl' = [] \<and>
           set (sl_ended sl') = set (sl_waiting sl) \<union> set (sl_running sl) \<union> set (sl_ended sl)"
  using slots_reachable_inv[OF assms]
  by (intro slots_drain) (simp add: slots_inv_def executor_new_def)

end
