(* ===== verification/Redaction.thy ===== *)
theory Redaction
  imports Core_Models
begin

text \<open>
  \<^verbatim>\<open>chronon-core/src/redact.rs\<close> and \<^verbatim>\<open>sanitize.rs\<close>: what is done to an endpoint or an error text
  before it is persisted, logged or returned over HTTP. Every function works on the bytes of a
  string; \<open>None\<close> is a panic of a slice off a character boundary.
\<close>

section \<open>Endpoints\<close>

definition redact_single_endpoint :: "string \<Rightarrow> string" where
  "redact_single_endpoint endpoint =
     (case str_find ''://'' endpoint of
        None \<Rightarrow> endpoint
      | Some scheme_end \<Rightarrow>
          let authority_start = scheme_end + 3;
              authority = drop authority_start endpoint
          in case str_find ''@'' authority of
               None \<Rightarrow> endpoint
             | Some userinfo_end \<Rightarrow>
                 let host_start = authority_start + userinfo_end + 1;
                     userinfo = take userinfo_end authority
                 in if list_ex (\<lambda>c. c = CHR ''/'' \<or> c = CHR ''?'' \<or> c = CHR ''#'') userinfo
                    then endpoint
                    else take authority_start endpoint @ ''***@'' @ drop host_start endpoint)"

definition redact_endpoint :: "string \<Rightarrow> string" where
  "redact_endpoint endpoint =
     join '','' (map redact_single_endpoint (split_on CHR '','' endpoint))"

definition endpoint_stop :: "string \<Rightarrow> bool" where
  "endpoint_stop s \<longleftrightarrow>
     starts_with_ws s \<or> (s \<noteq> [] \<and> hd s \<in> {CHR 0x22, CHR 0x27, CHR '')'', CHR '']''})"

definition consume_endpoint_prefix :: "string \<Rightarrow> nat" where
  "consume_endpoint_prefix s =
     (case str_find ''://'' s of
        None \<Rightarrow> length s
      | Some scheme_end \<Rightarrow>
          let after_scheme = scheme_end + 3; rest = drop after_scheme s
          in after_scheme +
             (case find_char endpoint_stop rest of None \<Rightarrow> length rest | Some i \<Rightarrow> i))"

section \<open>Free text\<close>

definition scheme_char :: "char \<Rightarrow> bool" where
  "scheme_char c \<longleftrightarrow> is_ascii_alphanumeric c \<or> c \<in> {CHR ''+'', CHR ''.'', CHR ''-''}"

text \<open>
  The byte index at which the scheme that ends at \<open>sep\<close> starts: one byte after the last character
  before it that cannot be part of a scheme, or the scan position when there is none.
\<close>

definition scheme_start_at :: "string \<Rightarrow> nat \<Rightarrow> nat \<Rightarrow> nat" where
  "scheme_start_at input i sep =
     (case rfind_char (\<lambda>s. \<not> scheme_char (hd s)) (take sep input) of None \<Rightarrow> i | Some j \<Rightarrow> j + 1)"

lemma scheme_start_le: "i \<le> sep \<Longrightarrow> sep \<le> length input \<Longrightarrow> scheme_start_at input i sep \<le> sep"
  by (auto simp: scheme_start_at_def dest!: rfind_char_Some split: option.splits)

lemma consume_pos: "s \<noteq> [] \<Longrightarrow> 0 < consume_endpoint_prefix s"
  by (auto simp: consume_endpoint_prefix_def Let_def split: option.splits)

function redact_from :: "string \<Rightarrow> nat \<Rightarrow> string option" where
  "redact_from input i =
     (if i < length input then
        (case str_find ''://'' (drop i input) of
           Some rel \<Rightarrow>
             let sep = i + rel;
                 scheme_start = scheme_start_at input i sep
             in (case slice input i scheme_start of
                   None \<Rightarrow> None
                 | Some before \<Rightarrow>
                     let consumed = consume_endpoint_prefix (drop scheme_start input);
                         endpoint = take consumed (drop scheme_start input)
                     in map_option (\<lambda>out. before @ redact_endpoint endpoint @ out)
                          (redact_from input (scheme_start + consumed)))
         | None \<Rightarrow> Some (drop i input))
      else Some [])"
  by pat_completeness auto
termination
proof (relation "measure (\<lambda>(input, i). length input - i)", goal_cases)
  case (2 input i rel sep ss before consumed endpoint)
  have "rel + 3 \<le> length input - i"
    using str_find_Some[OF 2(2)] by simp
  then have "sep < length input" using 2(1,3) by linarith
  then have le: "ss < length input"
    using 2(3,4) scheme_start_le[of i sep input] by simp
  moreover have "i \<le> ss" using 2(5) by (auto simp: slice_def split: if_splits)
  moreover have "0 < consumed" using le 2(6) consume_pos[of "drop ss input"] by simp
  ultimately show ?case by simp
qed simp

declare redact_from.simps [simp del]

definition redact_credentials_in_text :: "string \<Rightarrow> string option" where
  "redact_credentials_in_text input = redact_from input 0"

section \<open>Sanitizing error messages\<close>

abbreviation max_error_message_chars :: nat where "max_error_message_chars \<equiv> 512"

definition needles :: "string list" where
  "needles = [''password='', ''Password='', ''secret='', ''Secret='', ''token='', ''Token='',
              ''Bearer '', ''authorization:'']"

definition redact_needle :: "string \<Rightarrow> string \<Rightarrow> string option" where
  "redact_needle needle out =
     (case str_find needle out of
        None \<Rightarrow> Some out
      | Some idx \<Rightarrow>
          let e = min (idx + length needle + 8) (length out)
          in replace_range out idx e (needle @ ''[redacted]''))"

fun redact_needles :: "string list \<Rightarrow> string \<Rightarrow> string option" where
  "redact_needles [] out = Some out"
| "redact_needles (n # ns) out =
     (case redact_needle n out of None \<Rightarrow> None | Some out' \<Rightarrow> redact_needles ns out')"

definition ellipsis :: string where
  "ellipsis = [CHR 0xE2, CHR 0x80, CHR 0xA6]"

definition sanitize_error_message :: "string \<Rightarrow> string option" where
  "sanitize_error_message raw =
     (case redact_needles needles (filter (\<lambda>c. c \<noteq> CHR 0x00) raw) of
        None \<Rightarrow> None
      | Some out \<Rightarrow>
          Some (if max_error_message_chars < chars_count out
                then take_chars max_error_message_chars out @ ellipsis else out))"

text \<open>The composition applied to every persisted or returned error input.\<close>

definition safe_message :: "string \<Rightarrow> string option" where
  "safe_message raw = Option.bind (redact_credentials_in_text raw) sanitize_error_message"

section \<open>Endpoint facts\<close>

lemma redact_single_no_scheme: "str_find ''://'' e = None \<Longrightarrow> redact_single_endpoint e = e"
  by (simp add: redact_single_endpoint_def)

lemma set_redact_single: "set (redact_single_endpoint e) \<subseteq> set e \<union> {CHR ''*''} \<union> {CHR ''@''}"
  by (auto simp: redact_single_endpoint_def Let_def split: option.splits
      dest: in_set_takeD in_set_dropD)

lemma redact_single_no_comma: "CHR '','' \<notin> set e \<Longrightarrow> CHR '','' \<notin> set (redact_single_endpoint e)"
  using set_redact_single by fastforce

lemma ascii_redact_single: "ascii_str e \<Longrightarrow> ascii_str (redact_single_endpoint e)"
  using set_redact_single[of e] by (force simp: ascii_str_def list_all_iff is_ascii_def)

lemma prefix_take: "prefix p (take k s) \<longleftrightarrow> length p \<le> k \<and> prefix p s"
  by (metis append_eq_conv_conj length_take min.bounded_iff prefix_def prefix_length_le
      prefix_order.trans take_is_prefix take_take min_absorb1)

lemma str_find_prefix_append:
  "p \<noteq> [] \<Longrightarrow> str_find p (x @ p @ y) = Some (length x) \<Longrightarrow> str_find p (x @ p @ z) = Some (length x)"
proof (induction x)
  case Nil
  then show ?case by (cases p) auto
next
  case (Cons a x)
  have np: "\<not> prefix p (a # x @ p @ y)" using Cons.prems by (auto split: if_splits)
  have "\<not> prefix p (a # x @ p @ z)"
  proof
    assume "prefix p (a # x @ p @ z)"
    then have "take (length p) (a # x @ p @ z) = p" by (metis append_eq_conv_conj prefix_def)
    then have "take (length p) ((a # x @ p) @ z) = p" by simp
    then have "take (length p) (a # x @ p) = p" by (subst (asm) take_append) simp
    then have "take (length p) ((a # x @ p) @ y) = p" by (subst take_append) simp
    then have "prefix p (a # x @ p @ y)" by (metis append_Cons append_assoc take_is_prefix)
    with np show False by simp
  qed
  with Cons show ?case by (simp split: if_splits)
qed

lemma str_find_at: "str_find p s = Some i \<Longrightarrow> \<exists>y. s = take i s @ p @ y \<and> i = length (take i s)"
  using str_find_append_split[of p s i] str_find_Some[of p s i] by force

lemma redact_single_hit:
  assumes "str_find ''://'' (sch @ ''://'' @ ui @ CHR ''@'' # host) = Some (length sch)"
    and "set ui \<inter> {CHR ''@'', CHR ''/'', CHR ''?'', CHR ''#''} = {}"
  shows "redact_single_endpoint (sch @ ''://'' @ ui @ CHR ''@'' # host) = sch @ ''://***@'' @ host"
proof -
  have "str_find ''@'' (ui @ CHR ''@'' # host) = Some (length ui)"
    using assms(2) by (induction ui) auto
  moreover have "\<not> list_ex (\<lambda>c. c = CHR ''/'' \<or> c = CHR ''?'' \<or> c = CHR ''#'') ui"
    using assms(2) by (auto simp: list_ex_iff)
  ultimately show ?thesis
    using assms(1) by (simp add: redact_single_endpoint_def Let_def eval_nat_numeral)
qed

lemma redact_single_cases:
  obtains (same) "redact_single_endpoint e = e"
  | (hit) sch ui host where
      "e = sch @ ''://'' @ ui @ CHR ''@'' # host"
      "redact_single_endpoint e = sch @ ''://***@'' @ host"
      "str_find ''://'' e = Some (length sch)"
proof (cases "redact_single_endpoint e = e")
  case False
  then obtain k u where k: "str_find ''://'' e = Some k"
    and u: "str_find ''@'' (drop (k + 3) e) = Some u"
    and r: "redact_single_endpoint e =
              take (k + 3) e @ ''***@'' @ drop (k + 3 + u + 1) e"
    by (auto simp: redact_single_endpoint_def Let_def split: option.splits if_splits)
  define sch where "sch = take k e"
  define rest where "rest = drop (k + 3) e"
  have e1: "e = sch @ ''://'' @ rest"
    using str_find_append_split[OF k] by (simp add: sch_def rest_def eval_nat_numeral)
  have kl: "k = length sch" using str_find_Some[OF k] by (simp add: sch_def)
  define ui where "ui = take u rest"
  define host where "host = drop (u + 1) rest"
  have e2: "rest = ui @ CHR ''@'' # host"
    using str_find_append_split[OF u] by (simp add: ui_def host_def rest_def add.commute)
  have "take (k + 3) e = sch @ ''://''" using e1 kl by simp
  moreover have "drop (k + 3 + u + 1) e = host"
    by (simp add: host_def rest_def add.commute add.left_commute)
  ultimately show ?thesis using hit r e1 e2 k kl by simp
qed (rule same)

lemma redact_single_idem: "redact_single_endpoint (redact_single_endpoint e) = redact_single_endpoint e"
proof (cases e rule: redact_single_cases)
  case (hit sch ui host)
  have "str_find ''://'' (sch @ ''://'' @ ''***'' @ CHR ''@'' # host) = Some (length sch)"
    using str_find_prefix_append[of "''://''" sch] hit(1,3) by simp
  then have "redact_single_endpoint (sch @ ''://'' @ ''***'' @ CHR ''@'' # host) = sch @ ''://***@'' @ host"
    by (rule redact_single_hit) simp
  with hit(2) show ?thesis by simp
qed simp

lemma redact_endpoint_map:
  "(\<forall>x \<in> set xs. CHR '','' \<notin> set x) \<Longrightarrow> xs \<noteq> [] \<Longrightarrow>
   redact_endpoint (join '','' xs) = join '','' (map redact_single_endpoint xs)"
  by (simp add: redact_endpoint_def split_join)

section \<open>Totality on ASCII text\<close>

lemma slice_ascii: "ascii_str s \<Longrightarrow> a \<le> b \<Longrightarrow> b \<le> length s \<Longrightarrow> slice s a b = Some (take (b - a) (drop a s))"
  by (simp add: slice_def ascii_boundary)

lemma ws_head:
  assumes "starts_with_ws (c # s)" "is_ascii c"
  shows "c \<in> {CHR 0x20, CHR 0x09, CHR 0x0A, CHR 0x0B, CHR 0x0C, CHR 0x0D}"
proof -
  obtain w where w: "w \<in> set ws_chars" "prefix w (c # s)"
    using assms(1) by (auto simp: starts_with_ws_def ws_prefix_def dest: find_SomeD)
  have "hd w \<in> {CHR 0x20, CHR 0x09, CHR 0x0A, CHR 0x0B, CHR 0x0C, CHR 0x0D} \<or> \<not> is_ascii (hd w)"
    using w(1) by (auto simp: ws_chars_def is_ascii_def)
  moreover have "hd w = c"
    using w(2) ws_chars_ne[OF w(1)] by (auto simp: prefix_def neq_Nil_conv)
  ultimately show ?thesis using assms(2) by simp
qed

lemma endpoint_stop_not_colon: "endpoint_stop (CHR '':'' # s) \<Longrightarrow> False"
  using ws_head[of "CHR '':''" s] by (auto simp: endpoint_stop_def is_ascii_def)

lemma endpoint_stop_head: "endpoint_stop (c # s) \<Longrightarrow> is_ascii c \<Longrightarrow> \<not> scheme_char c"
  using ws_head[of c s]
  by (auto simp: endpoint_stop_def scheme_char_def is_ascii_alphanumeric_def is_ascii_digit_def)

lemma rfind_char_ge:
  "i < length s \<Longrightarrow> \<not> is_cont (s ! i) \<Longrightarrow> P (drop i s) \<Longrightarrow> \<exists>j. rfind_char P s = Some j \<and> i \<le> j"
proof (induction s arbitrary: i)
  case (Cons c s)
  show ?case
  proof (cases i)
    case 0
    with Cons.prems show ?thesis by (auto split: option.splits)
  next
    case (Suc k)
    with Cons obtain j where "rfind_char P s = Some j" "k \<le> j" by force
    with Suc show ?thesis by auto
  qed
qed simp

text \<open>The scan position is the start, the end, or the delimiter that ended the last endpoint.\<close>

definition scan_pos :: "string \<Rightarrow> nat \<Rightarrow> bool" where
  "scan_pos s i \<longleftrightarrow> i = 0 \<or> length s \<le> i \<or> endpoint_stop (drop i s)"

lemma scheme_start_ge:
  assumes "ascii_str s" "scan_pos s i" "str_find ''://'' (drop i s) = Some rel" "i < length s"
  shows "i \<le> scheme_start_at s i (i + rel)"
proof (cases "i = 0")
  case False
  with assms(2,4) have stop: "endpoint_stop (drop i s)" by (simp add: scan_pos_def)
  obtain c t where d: "drop i s = c # t" using assms(4) by (cases "drop i s") auto
  have a: "is_ascii c" using assms(1) d by (metis ascii_str_simps(2) ascii_str_take_drop(2))
  have "rel \<noteq> 0"
  proof
    assume "rel = 0"
    with str_find_Some[OF assms(3)] d have "c = CHR '':''" by simp
    with stop d endpoint_stop_not_colon show False by metis
  qed
  moreover have "rel + 3 \<le> length s - i" using str_find_Some[OF assms(3)] by simp
  moreover have "s ! i = c" using d by (metis assms(4) hd_drop_conv_nth list.sel(1))
  ultimately have "\<exists>j. rfind_char (\<lambda>s. \<not> scheme_char (hd s)) (take (i + rel) s) = Some j \<and> i \<le> j"
    using endpoint_stop_head[OF stop[unfolded d] a] a assms(4) d
    by (intro rfind_char_ge) (auto simp: hd_drop_conv_nth drop_take take_Cons')
  then show ?thesis by (auto simp: scheme_start_at_def)
qed simp

lemma consume_scan_pos:
  assumes "k \<le> length s"
  shows "scan_pos s (k + consume_endpoint_prefix (drop k s))"
proof (cases "str_find ''://'' (drop k s)")
  case None
  with assms show ?thesis by (simp add: consume_endpoint_prefix_def scan_pos_def)
next
  case (Some e)
  with str_find_Some[OF Some] assms show ?thesis
    by (auto simp: consume_endpoint_prefix_def scan_pos_def Let_def algebra_simps
        split: option.splits dest: find_char_Some)
qed

lemma redact_from_total: "ascii_str s \<Longrightarrow> scan_pos s i \<Longrightarrow> \<exists>out. redact_from s i = Some out"
proof (induction s i rule: redact_from.induct)
  case (1 s i)
  show ?case
  proof (cases "i < length s")
    case True
    show ?thesis
    proof (cases "str_find ''://'' (drop i s)")
      case None
      with True show ?thesis by (subst redact_from.simps) simp
    next
      case (Some rel)
      define ss where "ss = scheme_start_at s i (i + rel)"
      have "rel + 3 \<le> length s - i" using str_find_Some[OF Some] by simp
      then have "i + rel \<le> length s" by linarith
      then have ss: "i \<le> ss" "ss \<le> length s"
        using scheme_start_ge[OF 1(2,3) Some True] scheme_start_le[of i "i + rel" s]
        by (simp_all add: ss_def)
      have sl: "slice s i ss = Some (take (ss - i) (drop i s))"
        by (rule slice_ascii) (use 1 ss in auto)
      have "\<exists>out. redact_from s (ss + consume_endpoint_prefix (drop ss s)) = Some out"
        using 1(1)[OF True Some refl ss_def sl refl refl 1(2)] consume_scan_pos[OF ss(2)] by simp
      with True Some sl show ?thesis
        by (subst redact_from.simps) (auto simp: Let_def ss_def)
    qed
  qed (subst redact_from.simps, simp)
qed

lemma ascii_redact_endpoint: "ascii_str e \<Longrightarrow> ascii_str (redact_endpoint e)"
  unfolding redact_endpoint_def
  by (intro ascii_join) (auto simp: is_ascii_def intro: ascii_redact_single ascii_split_on)

lemma redact_from_ascii: "ascii_str s \<Longrightarrow> redact_from s i = Some out \<Longrightarrow> ascii_str out"
proof (induction s i arbitrary: out rule: redact_from.induct)
  case (1 s i)
  from "1.prems" show ?case
    by (subst (asm) redact_from.simps)
      (auto simp: Let_def slice_def ascii_redact_endpoint split: if_splits option.splits
        dest!: "1.IH"[OF _ _ refl refl _ refl refl])
qed

lemma redact_needle_ascii:
  "ascii_str s \<Longrightarrow> ascii_str n \<Longrightarrow> \<exists>out. redact_needle n s = Some out \<and> ascii_str out"
  by (auto simp: redact_needle_def replace_range_def Let_def ascii_boundary is_ascii_def
      split: option.splits dest: str_find_Some)

lemma redact_needles_ascii:
  "ascii_str s \<Longrightarrow> list_all ascii_str ns \<Longrightarrow> \<exists>out. redact_needles ns s = Some out"
proof (induction ns arbitrary: s)
  case (Cons n ns)
  then show ?case using redact_needle_ascii[of s n] by fastforce
qed simp

lemma set_redact_needle:
  "redact_needle n s = Some out \<Longrightarrow> set out \<subseteq> set s \<union> set n \<union> set ''[redacted]''"
  by (fastforce simp: redact_needle_def replace_range_def Let_def split: option.splits if_splits
      dest: in_set_takeD in_set_dropD)

lemma set_redact_needles:
  "redact_needles ns s = Some out \<Longrightarrow> set out \<subseteq> set s \<union> set (concat ns) \<union> set ''[redacted]''"
proof (induction ns arbitrary: s)
  case (Cons n ns)
  then obtain s' where "redact_needle n s = Some s'" "redact_needles ns s' = Some out"
    by (auto split: option.splits)
  with Cons.IH[of s'] set_redact_needle[of n s s'] show ?case
    by (auto simp only: concat.simps set_append Un_iff subset_iff)
qed auto

section \<open>Properties\<close>



text \<open>
  Redacting an endpoint string is idempotent, for every string, including comma-separated
  lists of endpoints.
\<close>
lemma redact_endpoint_idem: "redact_endpoint (redact_endpoint e) = redact_endpoint e"
proof -
  let ?xs = "map redact_single_endpoint (split_on CHR '','' e)"
  have "\<forall>x \<in> set ?xs. CHR '','' \<notin> set x"
    by (auto dest: split_on_no_delim redact_single_no_comma)
  then have "redact_endpoint (join '','' ?xs) = join '','' (map redact_single_endpoint ?xs)"
    by (intro redact_endpoint_map) auto
  also have "map redact_single_endpoint ?xs = ?xs"
    by (simp add: redact_single_idem)
  finally show ?thesis by (simp add: redact_endpoint_def)
qed

text \<open>
  (C27) On ASCII text the composition used before an error is persisted or returned terminates
  without a panic, and its result has at most 513 characters and no NUL byte, however long the
  input is.
\<close>
theorem safe_message_ascii:
  assumes "ascii_str raw"
  shows "\<exists>out. safe_message raw = Some out \<and>
           chars_count out \<le> max_error_message_chars + 1 \<and> CHR 0x00 \<notin> set out"
proof -
  obtain mid where mid: "redact_credentials_in_text raw = Some mid"
    using redact_from_total[OF assms, of 0] by (auto simp: redact_credentials_in_text_def scan_pos_def)
  then have "ascii_str mid" using redact_from_ascii[OF assms] by (simp add: redact_credentials_in_text_def)
  then obtain out where out: "redact_needles needles (filter (\<lambda>c. c \<noteq> CHR 0x00) mid) = Some out"
    using redact_needles_ascii[of "filter (\<lambda>c. c \<noteq> CHR 0x00) mid" needles]
    by (auto simp: needles_def is_ascii_def)
  have nul: "CHR 0x00 \<notin> set out"
    using set_redact_needles[OF out] by (fastforce simp: needles_def)
  have "chars_count ellipsis = 1" by (simp add: ellipsis_def is_cont_def)
  with mid out nul chars_count_take_chars[of max_error_message_chars out] set_take_chars[of _ out]
  show ?thesis
    by (auto simp: safe_message_def sanitize_error_message_def ellipsis_def dest: subsetD)
qed

theorem safe_message_ascii_witness:
  "\<exists>out. safe_message ''db failed password=hunter2 more'' = Some out \<and>
     chars_count out \<le> max_error_message_chars + 1 \<and> CHR 0x00 \<notin> set out"
  by (rule safe_message_ascii) (simp add: is_ascii_def)


end
