(* ===== verification/Http_Api.thy ===== *)
theory Http_Api
  imports Coordinator_Service Executor Redaction
begin

text \<open>
  The HTTP surface (\<^verbatim>\<open>chronon-axum\<close>): admin authentication, the actor policy for external callers
  (\<^verbatim>\<open>chronon-core/src/actor_policy.rs\<close>), the response envelope and the handlers. A handler gets its
  request as the JSON and query decoders deliver it. Its value is \<open>None\<close> when the redaction of an
  error text panics; times are printed by chrono's \<^verbatim>\<open>to_rfc3339\<close>, the argument \<open>fmt\<close>.
\<close>

section \<open>Actor policy\<close>

datatype enqueue_trust = TrustInternal | TrustExternal

definition is_system_shaped_actor :: "json \<Rightarrow> bool" where
  "is_system_shaped_actor a \<longleftrightarrow> json_get ''System'' a \<noteq> None"

definition is_service_user_shaped_actor :: "json \<Rightarrow> bool" where
  "is_service_user_shaped_actor a \<longleftrightarrow> json_get ''ServiceUser'' a \<noteq> None"

definition reject_external_privileged :: "enqueue_trust \<Rightarrow> json \<Rightarrow> unit res" where
  "reject_external_privileged trust a =
     (if trust = TrustExternal \<and> (is_system_shaped_actor a \<or> is_service_user_shaped_actor a)
      then Inl (ParamError ''external actor_json cannot use a System or ServiceUser actor'')
      else Inr ())"

definition default_http_enqueue_actor :: json where
  "default_http_enqueue_actor =
     JObject [(''Service'', JObject [(''name'', JString ''chronon_api'')])]"

section \<open>Admin authentication\<close>

text \<open>
  The request parts that a verifier sees: header names with their values, \<open>None\<close> for a value that is
  not visible ASCII. A verifier accepts or rejects with a message.
\<close>

record http_parts =
  hp_headers :: "(string \<times> string option) list"

type_synonym admin_auth = "http_parts \<Rightarrow> string + unit"

definition require_admin_auth_from_env :: "env \<Rightarrow> bool" where
  "require_admin_auth_from_env env =
     (case env ''CHRONON_REQUIRE_ADMIN_AUTH'' of
        Some v \<Rightarrow> to_ascii_lowercase (trim v) \<in> {''1'', ''true'', ''yes''}
      | None \<Rightarrow> False)"

definition allow_all_admin_auth :: admin_auth where
  "allow_all_admin_auth parts = Inr ()"

definition static_token_admin_auth :: "string \<Rightarrow> admin_auth" where
  "static_token_admin_auth token parts =
     (case Option.bind (map_of (hp_headers parts) ''x-chronon-admin-token'') id of
        Some got \<Rightarrow> if got = token then Inr () else Inl ''missing or invalid x-chronon-admin-token''
      | None \<Rightarrow> Inl ''missing or invalid x-chronon-admin-token'')"

record 's chronon_state =
  cs_registry :: "'s script_registry"
  cs_admin_auth :: "admin_auth option"
  cs_require_admin_auth :: bool
  cs_http_upsert_actor :: "json option"

definition chronon_state_new :: "env \<Rightarrow> 's script_registry \<Rightarrow> 's chronon_state" where
  "chronon_state_new env registry =
     \<lparr>cs_registry = registry, cs_admin_auth = None,
      cs_require_admin_auth = require_admin_auth_from_env env, cs_http_upsert_actor = None\<rparr>"

definition state_builder_build :: "'s chronon_state \<Rightarrow> 's chronon_state res" where
  "state_builder_build b =
     (if cs_require_admin_auth b \<and> cs_admin_auth b = None
      then Inl (Internal ''CHRONON_REQUIRE_ADMIN_AUTH is set but no AdminAuth verifier was configured'')
      else Inr b)"

definition default_upsert_actor_json :: "'s chronon_state \<Rightarrow> json" where
  "default_upsert_actor_json st =
     (case cs_http_upsert_actor st of Some a \<Rightarrow> a | None \<Rightarrow> default_http_enqueue_actor)"

text \<open>The extractor \<^verbatim>\<open>RequireAdmin\<close>: the message of the rejection, or access.\<close>

definition require_admin :: "'s chronon_state \<Rightarrow> http_parts \<Rightarrow> string + unit" where
  "require_admin st parts =
     (case cs_admin_auth st of
        Some auth \<Rightarrow> auth parts
      | None \<Rightarrow> if cs_require_admin_auth st
                then Inl ''admin auth required but no AdminAuth verifier configured'' else Inr ())"

section \<open>Responses\<close>

record 'a api_response =
  api_success :: bool
  api_data :: "'a option"
  api_error :: "string option"

type_synonym 'a http = "(nat \<times> 'a api_response) option"

definition api_ok :: "'a \<Rightarrow> 'a api_response" where
  "api_ok x = \<lparr>api_success = True, api_data = Some x, api_error = None\<rparr>"

definition api_err :: "nat \<Rightarrow> string \<Rightarrow> 'a http" where
  "api_err code msg =
     map_option (\<lambda>m. (code, \<lparr>api_success = False, api_data = None, api_error = Some m\<rparr>))
       (safe_message msg)"

definition unauthorized :: "string \<Rightarrow> 'a http" where
  "unauthorized msg = Some (401, \<lparr>api_success = False, api_data = None, api_error = Some msg\<rparr>)"

fun chronon_status :: "chronon_error \<Rightarrow> nat" where
  "chronon_status (JobNotFound _) = 404"
| "chronon_status (RunNotFound _) = 404"
| "chronon_status (ScriptNotFound _) = 400"
| "chronon_status (InvalidCron _) = 400"
| "chronon_status (InvalidTimezone _) = 400"
| "chronon_status (ParamError _) = 400"
| "chronon_status (Identity _) = 400"
| "chronon_status (ScriptMismatch _ _ _) = 409"
| "chronon_status (JobNameTaken _ _) = 409"
| "chronon_status (StorageError _ _) = 500"
| "chronon_status (Internal _) = 500"
| "chronon_status (InternalSource _ _) = 500"

definition chronon_err :: "chronon_error \<Rightarrow> 'a http" where
  "chronon_err e = api_err (chronon_status e) (error_to_string e)"

definition respond :: "('a \<Rightarrow> 'b) \<Rightarrow> 'a res \<Rightarrow> 'b http" where
  "respond f r = (case r of Inr x \<Rightarrow> Some (200, api_ok (f x)) | Inl e \<Rightarrow> chronon_err e)"

definition with_admin ::
  "'s chronon_state \<Rightarrow> http_parts \<Rightarrow> ('s, 'a http) proc \<Rightarrow> ('s, 'a http) proc" where
  "with_admin st parts handler =
     (case require_admin st parts of
        Inl msg \<Rightarrow> ret (unauthorized msg)
      | Inr _ \<Rightarrow> handler)"

section \<open>Requests and results\<close>

record upsert_job_request =
  u_job_name :: string
  u_script_name :: string
  u_cron_expr :: "string option"
  u_timezone :: "string option"
  u_schedule_kind :: schedule_kind
  u_params :: json
  u_enabled :: bool
  u_concurrency :: int
  u_timeout_ms :: "int option"
  u_actor_json :: "json option"
  u_retry_policy :: "json option"
  u_misfire_policy :: "json option"
  u_pool :: "string option"

record job_response =
  jr_job_id :: string
  jr_job_name :: string
  jr_script_name :: string
  jr_enabled :: bool
  jr_schedule_kind :: schedule_kind
  jr_cron_expr :: "string option"
  jr_timezone :: "string option"
  jr_next_run_at :: "string option"
  jr_current_revision :: int
  jr_created_at :: string
  jr_updated_at :: string
  jr_pool :: "string option"

definition job_response_from :: "(time \<Rightarrow> string) \<Rightarrow> job \<Rightarrow> job_response" where
  "job_response_from fmt j =
     \<lparr>jr_job_id = j_job_id j, jr_job_name = j_job_name j, jr_script_name = j_script_name j,
      jr_enabled = j_enabled j, jr_schedule_kind = j_schedule_kind j, jr_cron_expr = j_cron_expr j,
      jr_timezone = j_timezone j, jr_next_run_at = map_option fmt (j_next_run_at j),
      jr_current_revision = j_current_revision j, jr_created_at = fmt (j_created_at j),
      jr_updated_at = fmt (j_updated_at j), jr_pool = j_pool j\<rparr>"

record run_response =
  rr_run_id :: string
  rr_job_id :: "string option"
  rr_script_name :: string
  rr_status :: string
  rr_scheduled_for :: string
  rr_started_at :: "string option"
  rr_finished_at :: "string option"
  rr_duration_ms :: "int option"
  rr_attempt :: int
  rr_pool_id :: "string option"
  rr_claimed_by :: "string option"

definition run_response_from :: "(time \<Rightarrow> string) \<Rightarrow> run \<Rightarrow> run_response" where
  "run_response_from fmt r =
     \<lparr>rr_run_id = r_run_id r, rr_job_id = r_job_id r, rr_script_name = r_script_name r,
      rr_status = run_status_to_string (r_status r), rr_scheduled_for = fmt (r_scheduled_for r),
      rr_started_at = map_option fmt (r_started_at r),
      rr_finished_at = map_option fmt (r_finished_at r), rr_duration_ms = r_duration_ms r,
      rr_attempt = r_attempt r, rr_pool_id = r_pool_id r, rr_claimed_by = r_claimed_by r\<rparr>"

record script_response =
  sr_name :: string
  sr_signature_json :: string
  sr_signature_hash :: nat

record list_jobs_query =
  lj_job_name :: "string option"
  lj_script_name :: "string option"
  lj_enabled :: "bool option"
  lj_schedule_kind :: "string option"
  lj_offset :: "nat option"
  lj_limit :: "nat option"

record list_runs_query =
  lr_job_id :: "string option"
  lr_status :: "string option"
  lr_offset :: "nat option"
  lr_limit :: "nat option"

section \<open>Handlers\<close>

definition clamp_list_limit :: "nat option \<Rightarrow> nat" where
  "clamp_list_limit limit = min (case limit of None \<Rightarrow> 100 | Some n \<Rightarrow> n) max_list_limit"

abbreviation max_pool_chars :: nat where "max_pool_chars \<equiv> 128"

definition pool_char :: "char \<Rightarrow> bool" where
  "pool_char c \<longleftrightarrow> is_ascii_alphanumeric c \<or> c \<in> {CHR ''.'', CHR ''_'', CHR ''/'', CHR ''-''}"

definition normalize_pool :: "string \<Rightarrow> string + string option" where
  "normalize_pool raw =
     (let pool = trim raw in
      if pool = [] then Inr None
      else if length pool \<le> max_pool_chars \<and> list_all pool_char pool then Inr (Some pool)
      else Inl ''Invalid pool: use at most 128 characters from [A-Za-z0-9._/-]'')"

text \<open>The field assignments of \<^verbatim>\<open>upsert_job\<close>; \<open>Inl\<close> is the response of an early return.\<close>

definition request_fields :: "upsert_job_request \<Rightarrow> job \<Rightarrow> job" where
  "request_fields req j =
     j\<lparr>j_enabled := u_enabled req, j_schedule_kind := u_schedule_kind req,
       j_cron_expr := u_cron_expr req, j_timezone := u_timezone req, j_params_json := u_params req,
       j_concurrency := u_concurrency req, j_timeout_ms := u_timeout_ms req\<rparr>"

definition request_actor :: "upsert_job_request \<Rightarrow> job \<Rightarrow> 'a http + job" where
  "request_actor req j =
     (case u_actor_json req of
        Some actor \<Rightarrow>
          if actor = JNull then Inr j
          else (case reject_external_privileged TrustExternal actor of
                  Inl e \<Rightarrow> Inl (chronon_err e)
                | Inr _ \<Rightarrow> Inr (j\<lparr>j_actor_json := actor\<rparr>))
      | None \<Rightarrow> Inr j)"

definition request_policies :: "upsert_job_request \<Rightarrow> job \<Rightarrow> job" where
  "request_policies req j =
     (let j1 = (case u_retry_policy req of
                  Some p \<Rightarrow> if p = JNull then j else j\<lparr>j_retry_policy_json := p\<rparr> | None \<Rightarrow> j)
      in case u_misfire_policy req of
           Some p \<Rightarrow> if p = JNull then j1 else j1\<lparr>j_misfire_policy_json := p\<rparr> | None \<Rightarrow> j1)"

definition request_pool :: "upsert_job_request \<Rightarrow> job \<Rightarrow> 'a http + job" where
  "request_pool req j =
     (case u_pool req of
        None \<Rightarrow> Inr j
      | Some raw \<Rightarrow>
          (case normalize_pool raw of
             Inl msg \<Rightarrow> Inl (api_err 400 msg) | Inr pool \<Rightarrow> Inr (j\<lparr>j_pool := pool\<rparr>)))"

definition request_job :: "('sc, 'tz) ext \<Rightarrow> upsert_job_request \<Rightarrow> job \<Rightarrow> 'a http + job" where
  "request_job X req j =
     (case request_actor req (request_fields req j) of
        Inl r \<Rightarrow> Inl r
      | Inr j1 \<Rightarrow>
          (case request_pool req (request_policies req j1) of
             Inl r \<Rightarrow> Inl r
           | Inr j2 \<Rightarrow> Inr (job_clamp_security_bounds X j2)))"

text \<open>The end of \<^verbatim>\<open>upsert_job\<close>: next fire time, then the coordinator service.\<close>

definition http_store_job ::
  "('sc, 'tz) ext \<Rightarrow> (time \<Rightarrow> string) \<Rightarrow> 's scheduler_store \<Rightarrow> job \<Rightarrow> ('s, job_response http) proc" where
  "http_store_job X fmt S job =
     (case svc_cron job of
        Some expr \<Rightarrow>
          (case cron_parse X expr (j_timezone job) of
             Inl e \<Rightarrow> ret (api_err 400 (''Invalid cron expression: '' @ error_to_string e))
           | Inr cron \<Rightarrow> do {
               next \<leftarrow> next_from_now X cron;
               let job1 = job\<lparr>j_next_run_at := next\<rparr>;
               r \<leftarrow> svc_upsert_job X S job1;
               ret (respond (\<lambda>_. job_response_from fmt job1) r) })
      | None \<Rightarrow> do {
          r \<leftarrow> svc_upsert_job X S job;
          ret (respond (\<lambda>_. job_response_from fmt job) r) })"

definition http_upsert_job ::
  "('sc, 'tz) ext \<Rightarrow> (time \<Rightarrow> string) \<Rightarrow> 's scheduler_store \<Rightarrow> 's chronon_state \<Rightarrow> http_parts \<Rightarrow>
   upsert_job_request \<Rightarrow> ('s, job_response http) proc" where
  "http_upsert_job X fmt S st parts req =
     with_admin st parts
       (if \<not> registry_contains (cs_registry st) (u_script_name req)
        then ret (api_err 400 (''Script '' @ quoted (u_script_name req) @ '' not found''))
        else do {
          found \<leftarrow> svc_get_job_by_name S (u_job_name req);
          base \<leftarrow> (case found of
                     Some e \<Rightarrow> ret (e\<lparr>j_script_name := u_script_name req,
                                       j_current_revision := sat_i32 (j_current_revision e + 1)\<rparr>)
                   | None \<Rightarrow> do { uuid \<leftarrow> new_uuid; now \<leftarrow> utc_now;
                                  ret (job_new X uuid now (u_job_name req) (u_script_name req)) });
          case request_job X req base of
            Inl r \<Rightarrow> ret r
          | Inr job \<Rightarrow> http_store_job X fmt S job })"

definition kind_name :: "schedule_kind \<Rightarrow> string" where
  "kind_name k = (case k of Cron \<Rightarrow> ''cron'' | RunOnce \<Rightarrow> ''run_once'' | Manual \<Rightarrow> ''manual'')"

definition job_matches :: "list_jobs_query \<Rightarrow> job \<Rightarrow> bool" where
  "job_matches q j \<longleftrightarrow>
     (case lj_job_name q of None \<Rightarrow> True | Some n \<Rightarrow> j_job_name j = n) \<and>
     (case lj_script_name q of None \<Rightarrow> True | Some n \<Rightarrow> j_script_name j = n) \<and>
     (case lj_enabled q of None \<Rightarrow> True | Some e \<Rightarrow> j_enabled j = e) \<and>
     (case lj_schedule_kind q of None \<Rightarrow> True | Some k \<Rightarrow> k = kind_name (j_schedule_kind j))"

definition page :: "nat \<Rightarrow> nat \<Rightarrow> 'a list \<Rightarrow> 'a list" where
  "page offset limit xs =
     (if offset \<ge> length xs then []
      else take (min (offset + limit) (length xs) - offset) (drop offset xs))"

definition http_list_jobs ::
  "(time \<Rightarrow> string) \<Rightarrow> 's scheduler_store \<Rightarrow> 's chronon_state \<Rightarrow> http_parts \<Rightarrow> list_jobs_query \<Rightarrow>
   ('s, job_response list http) proc" where
  "http_list_jobs fmt S st parts q =
     with_admin st parts (do {
       r \<leftarrow> svc_list_jobs S;
       ret (case r of
              Inl e \<Rightarrow> chronon_err e
            | Inr jobs \<Rightarrow>
                (case lj_schedule_kind q of
                   Some kind \<Rightarrow>
                     if kind \<notin> {''cron'', ''run_once'', ''manual''}
                     then api_err 400 (''invalid schedule_kind '' @ quoted kind @
                                       '' (expected cron, run_once, or manual)'')
                     else Some (200, api_ok (map (job_response_from fmt)
                            (page (case lj_offset q of None \<Rightarrow> 0 | Some n \<Rightarrow> n)
                               (clamp_list_limit (lj_limit q)) (filter (job_matches q) jobs))))
                 | None \<Rightarrow> Some (200, api_ok (map (job_response_from fmt)
                            (page (case lj_offset q of None \<Rightarrow> 0 | Some n \<Rightarrow> n)
                               (clamp_list_limit (lj_limit q)) (filter (job_matches q) jobs)))))) })"

definition http_get_job ::
  "(time \<Rightarrow> string) \<Rightarrow> 's scheduler_store \<Rightarrow> 's chronon_state \<Rightarrow> http_parts \<Rightarrow> string \<Rightarrow>
   ('s, job_response http) proc" where
  "http_get_job fmt S st parts job_id =
     with_admin st parts (do {
       r \<leftarrow> svc_get_job S job_id;
       ret (case r of
              Some job \<Rightarrow> Some (200, api_ok (job_response_from fmt job))
            | None \<Rightarrow> chronon_err (JobNotFound job_id)) })"

definition http_pause_job ::
  "'s scheduler_store \<Rightarrow> 's chronon_state \<Rightarrow> http_parts \<Rightarrow> string \<Rightarrow> ('s, unit http) proc" where
  "http_pause_job S st parts job_id =
     with_admin st parts (do { r \<leftarrow> svc_pause_job S job_id; ret (respond id r) })"

definition http_resume_job ::
  "'s scheduler_store \<Rightarrow> 's chronon_state \<Rightarrow> http_parts \<Rightarrow> string \<Rightarrow> ('s, unit http) proc" where
  "http_resume_job S st parts job_id =
     with_admin st parts (do { r \<leftarrow> svc_resume_job S job_id; ret (respond id r) })"

definition http_run_now ::
  "'s scheduler_store \<Rightarrow> 's chronon_state \<Rightarrow> http_parts \<Rightarrow> string \<Rightarrow> json option \<Rightarrow>
   ('s, string http) proc" where
  "http_run_now S st parts job_id params =
     with_admin st parts (do { r \<leftarrow> run_now_with_params S job_id params; ret (respond id r) })"

definition redact_revision_snapshot :: "json \<Rightarrow> json" where
  "redact_revision_snapshot snapshot =
     json_obj_insert ''params_json'' JNull (json_obj_insert ''actor_json'' JNull snapshot)"

definition revision_json :: "(time \<Rightarrow> string) \<Rightarrow> job_revision \<Rightarrow> json" where
  "revision_json fmt v =
     JObject
       [(''revision_id'', JString (v_revision_id v)),
        (''revision_number'',
         JNumber (if v_revision_number v < 0 then NegInt (v_revision_number v)
                  else PosInt (nat (v_revision_number v)))),
        (''changed_at'', JString (fmt (v_changed_at v))),
        (''changed_by_actor_json'', JNull),
        (''snapshot_json'', redact_revision_snapshot (v_snapshot_json v))]"

definition http_get_job_revisions ::
  "(time \<Rightarrow> string) \<Rightarrow> 's scheduler_store \<Rightarrow> 's chronon_state \<Rightarrow> http_parts \<Rightarrow> string \<Rightarrow>
   ('s, json list http) proc" where
  "http_get_job_revisions fmt S st parts job_id =
     with_admin st parts (do {
       found \<leftarrow> svc_get_job S job_id;
       if found = None then ret (chronon_err (JobNotFound job_id))
       else do { r \<leftarrow> svc_list_revisions S job_id; ret (respond (map (revision_json fmt)) r) } })"

definition http_list_runs ::
  "(time \<Rightarrow> string) \<Rightarrow> 's scheduler_store \<Rightarrow> 's chronon_state \<Rightarrow> http_parts \<Rightarrow> list_runs_query \<Rightarrow>
   ('s, run_response list http) proc" where
  "http_list_runs fmt S st parts q =
     with_admin st parts (do {
       r \<leftarrow> svc_list_runs S (lr_job_id q) (lr_status q)
              (case lr_offset q of None \<Rightarrow> 0 | Some n \<Rightarrow> n) (clamp_list_limit (lr_limit q));
       ret (respond (map (run_response_from fmt)) r) })"

definition http_get_run ::
  "(time \<Rightarrow> string) \<Rightarrow> 's scheduler_store \<Rightarrow> 's chronon_state \<Rightarrow> http_parts \<Rightarrow> string \<Rightarrow>
   ('s, run_response http) proc" where
  "http_get_run fmt S st parts run_id =
     with_admin st parts (do {
       r \<leftarrow> svc_get_run S run_id;
       ret (case r of
              Inr (Some run) \<Rightarrow> Some (200, api_ok (run_response_from fmt run))
            | Inr None \<Rightarrow> chronon_err (RunNotFound run_id)
            | Inl e \<Rightarrow> chronon_err e) })"

definition http_list_scripts ::
  "'s chronon_state \<Rightarrow> http_parts \<Rightarrow> ('s, script_response list http) proc" where
  "http_list_scripts st parts =
     with_admin st parts (ret (Some (200, api_ok
       (map (\<lambda>d. \<lparr>sr_name = d_name d, sr_signature_json = d_signature_json d,
                  sr_signature_hash = d_signature_hash d\<rparr>) (registry_list (cs_registry st))))))"

end
