(* ===== verification/Lifecycle.thy ===== *)
theory Lifecycle
  imports Executor Redaction Mem_Facts
begin

text \<open>
  What happens to a run row after its script ended: the terminal failure and the retry
  (\<^verbatim>\<open>chronon-runtime/src/retry.rs\<close>) and the persistence of executor events (\<^verbatim>\<open>events.rs\<close>).
  A panic, which only the redaction of the error text can raise here, is the value \<open>None\<close>.
\<close>

section \<open>Terminal failures and retries\<close>

text \<open>The row that \<^verbatim>\<open>finalize_failed_run\<close> writes; \<open>message\<close> is the sanitised error text.\<close>

definition failed_row ::
  "time \<Rightarrow> run_status \<Rightarrow> string \<Rightarrow> captured_logs option \<Rightarrow> run \<Rightarrow> run" where
  "failed_row finished status message logs run =
     (let run1 = (case status of
                    Timeout \<Rightarrow> run_timeout finished message run
                  | _ \<Rightarrow> run_fail finished message run)
      in case logs of
           Some captured \<Rightarrow>
             (let c = ensure_stderr_message message captured
              in run1\<lparr>r_stdout_text := stdout_text c, r_stderr_text := stderr_text c\<rparr>)
         | None \<Rightarrow> run1\<lparr>r_stderr_text := Some message\<rparr>)"

text \<open>The run that retries a failed one: \<^verbatim>\<open>delay_ms_after(..) as i64\<close> wraps.\<close>

definition retry_run :: "('sc, 'tz) ext \<Rightarrow> retry_policy \<Rightarrow> string \<Rightarrow> time \<Rightarrow> run \<Rightarrow> run" where
  "retry_run X policy uuid now run =
     (let delay_ms = wrap_i64 (int (delay_ms_after X policy (r_attempt run)));
          scheduled_for = add_ms now (max delay_ms 0)
      in (run_for_job uuid (case r_job_id run of None \<Rightarrow> [] | Some i \<Rightarrow> i) (r_script_name run)
            scheduled_for)
           \<lparr>r_attempt := wrap_i32 (r_attempt run + 1), r_actor_json := r_actor_json run,
            r_params_json := r_params_json run, r_pool_id := r_pool_id run,
            r_placement_json := r_placement_json run, r_parent_run_id := r_parent_run_id run,
            r_root_run_id := r_root_run_id run\<rparr>)"

definition finalize_failed_run ::
  "('sc, 'tz) ext \<Rightarrow> 's scheduler_store \<Rightarrow> run \<Rightarrow> job \<Rightarrow> run_status \<Rightarrow> string \<Rightarrow>
   captured_logs option \<Rightarrow> ('s, unit option) proc" where
  "finalize_failed_run X S run job status err logs =
     (case safe_message err of
        None \<Rightarrow> ret None
      | Some message \<Rightarrow> do {
          finished \<leftarrow> utc_now;
          let run' = failed_row finished status message logs run;
          updated \<leftarrow> call (so_update_run S run');
          case updated of
            Inl _ \<Rightarrow> ret (Some ())
          | Inr _ \<Rightarrow>
              let policy = job_retry_policy X job in
              if \<not> should_retry policy (r_attempt run') then ret (Some ())
              else do {
                now \<leftarrow> utc_now;
                uuid \<leftarrow> new_uuid;
                call (so_create_run S (retry_run X policy uuid now run'));
                ret (Some ()) } })"

section \<open>Executor events\<close>

definition apply_logs :: "captured_logs \<Rightarrow> run \<Rightarrow> run" where
  "apply_logs logs run =
     (let run1 = (if stdout_text logs \<noteq> None then run\<lparr>r_stdout_text := stdout_text logs\<rparr> else run)
      in if stderr_text logs \<noteq> None then run1\<lparr>r_stderr_text := stderr_text logs\<rparr> else run1)"

fun handle_executor_event ::
  "('sc, 'tz) ext \<Rightarrow> 's scheduler_store \<Rightarrow> executor_event \<Rightarrow> ('s, unit option) proc" where
  "handle_executor_event X S (RunStarted run_id) =
     do {
       found \<leftarrow> call (so_get_run S run_id);
       case found of
         Inr (Some run) \<Rightarrow>
           if r_status run \<notin> {Queued, Claimed} then ret (Some ())
           else do {
             now \<leftarrow> utc_now;
             call (so_update_run S (run\<lparr>r_started_at := Some now, r_status := Running\<rparr>));
             ret (Some ()) }
       | _ \<Rightarrow> ret (Some ())
     }"
| "handle_executor_event X S (RunCompleted run_id duration_ms logs) =
     do {
       found \<leftarrow> call (so_get_run S run_id);
       case found of
         Inr (Some run) \<Rightarrow>
           if r_status run \<noteq> Running then ret (Some ())
           else do {
             finished \<leftarrow> utc_now;
             call (so_update_run S
               (apply_logs logs ((run_complete finished run)\<lparr>r_duration_ms := Some duration_ms\<rparr>)));
             ret (Some ()) }
       | _ \<Rightarrow> ret (Some ())
     }"
| "handle_executor_event X S (RunFailed run_id err logs) =
     do {
       found \<leftarrow> call (so_get_run S run_id);
       case found of
         Inr (Some run) \<Rightarrow>
           if r_status run \<noteq> Running then ret (Some ())
           else do {
             job \<leftarrow> (case r_job_id run of
                        Some i \<Rightarrow> do { r \<leftarrow> call (so_get_job S i);
                                      ret (case r of Inr j \<Rightarrow> j | Inl _ \<Rightarrow> None) }
                      | None \<Rightarrow> ret None);
             case job of
               Some j \<Rightarrow> finalize_failed_run X S run j Failed err (Some logs)
             | None \<Rightarrow>
                 (case safe_message err of
                    None \<Rightarrow> ret None
                  | Some safe \<Rightarrow> do {
                      finished \<leftarrow> utc_now;
                      call (so_update_run S
                        (apply_logs (ensure_stderr_message safe logs) (run_fail finished safe run)));
                      ret (Some ()) }) }
       | _ \<Rightarrow> ret (Some ())
     }"

text \<open>The background task of \<^verbatim>\<open>spawn_event_handler\<close>; a panic ends it.\<close>

primrec event_handler_loop ::
  "('sc, 'tz) ext \<Rightarrow> 's scheduler_store \<Rightarrow> executor_event list \<Rightarrow> ('s, unit option) proc" where
  "event_handler_loop X S [] = ret (Some ())"
| "event_handler_loop X S (ev # evs) =
     do { r \<leftarrow> handle_executor_event X S ev;
          case r of None \<Rightarrow> ret None | Some _ \<Rightarrow> event_handler_loop X S evs }"

section \<open>Facts about the rows\<close>

lemma failed_row_sel [simp]:
  "r_run_id (failed_row t st m l r) = r_run_id r"
  "r_job_id (failed_row t st m l r) = r_job_id r"
  "r_attempt (failed_row t st m l r) = r_attempt r"
  "r_actor_json (failed_row t st m l r) = r_actor_json r"
  "r_params_json (failed_row t st m l r) = r_params_json r"
  "r_pool_id (failed_row t st m l r) = r_pool_id r"
  "r_status (failed_row t st m l r) = (if st = Timeout then Timeout else Failed)"
  "r_finished_at (failed_row t st m l r) = Some t"
  "r_error_json (failed_row t st m l r) = Some (error_message_json m)"
  "r_script_name (failed_row t st m l r) = r_script_name r"
  "r_claimed_by (failed_row t st m l r) = r_claimed_by r"
  by (simp_all add: failed_row_def Let_def run_change_defs split: option.splits run_status.splits)

lemma retry_run_sel [simp]:
  "r_run_id (retry_run X p u t r) = u"
  "r_status (retry_run X p u t r) = Queued"
  "r_attempt (retry_run X p u t r) = wrap_i32 (r_attempt r + 1)"
  "r_actor_json (retry_run X p u t r) = r_actor_json r"
  "r_params_json (retry_run X p u t r) = r_params_json r"
  "r_pool_id (retry_run X p u t r) = r_pool_id r"
  "r_script_name (retry_run X p u t r) = r_script_name r"
  "r_job_id r = Some i \<Longrightarrow> r_job_id (retry_run X p u t r) = Some i"
  by (simp_all add: retry_run_def Let_def)

lemma apply_logs_sel [simp]:
  "r_run_id (apply_logs l r) = r_run_id r" "r_status (apply_logs l r) = r_status r"
  "r_attempt (apply_logs l r) = r_attempt r" "r_job_id (apply_logs l r) = r_job_id r"
  by (simp_all add: apply_logs_def Let_def)

lemma run_change_sel [simp]:
  "r_run_id (run_complete t r) = r_run_id r" "r_status (run_complete t r) = Success"
  "r_run_id (run_fail t m r) = r_run_id r" "r_status (run_fail t m r) = Failed"
  "r_attempt (run_complete t r) = r_attempt r" "r_attempt (run_fail t m r) = r_attempt r"
  by (simp_all add: run_change_defs)

text \<open>The identifiers a process has still to draw are pairwise different and name no stored run.\<close>

definition uuids_fresh :: "(string \<Rightarrow> run option) \<Rightarrow> 's world \<Rightarrow> bool" where
  "uuids_fresh R w \<longleftrightarrow> inj (w_uuid w) \<and> (\<forall>n \<ge> w_uuids w. R (w_uuid w n) = None)"


section \<open>Row changes by executor events\<close>

text \<open>
  The transitions of one row that the event handler may make: start a waiting run, end a running
  one. Identity, job and attempt never change.
\<close>

inductive row_step :: "run \<Rightarrow> run \<Rightarrow> bool" where
  started: "r_status r \<in> {Queued, Claimed} \<Longrightarrow> r_status r' = Running \<Longrightarrow>
    r_run_id r' = r_run_id r \<Longrightarrow> r_attempt r' = r_attempt r \<Longrightarrow> r_job_id r' = r_job_id r \<Longrightarrow> row_step r r'"
| ended: "r_status r = Running \<Longrightarrow> r_status r' \<in> {Success, Failed, Timeout} \<Longrightarrow>
    r_run_id r' = r_run_id r \<Longrightarrow> r_attempt r' = r_attempt r \<Longrightarrow> r_job_id r' = r_job_id r \<Longrightarrow> row_step r r'"

inductive_cases row_stepE: "row_step r r'"

lemma row_step_active: "row_step r r' \<Longrightarrow> is_active (r_status r)"
  by (erule row_stepE) (auto simp: is_active_def)

lemma row_steps_terminal: "row_step\<^sup>*\<^sup>* r r' \<Longrightarrow> is_terminal (r_status r) \<Longrightarrow> r' = r"
  by (erule converse_rtranclpE) (auto dest: row_step_active simp: terminal_iff_not_active)

definition rows_evolve :: "(string \<Rightarrow> run option) \<Rightarrow> (string \<Rightarrow> run option) \<Rightarrow> bool" where
  "rows_evolve R R' \<longleftrightarrow> (\<forall>i r. R i = Some r \<longrightarrow> (\<exists>r'. R' i = Some r' \<and> row_step\<^sup>*\<^sup>* r r'))"

lemma rows_evolve_refl [simp]: "rows_evolve R R"
  by (simp add: rows_evolve_def)

lemma rows_evolve_trans: "rows_evolve R R' \<Longrightarrow> rows_evolve R' R'' \<Longrightarrow> rows_evolve R R''"
  unfolding rows_evolve_def by (meson rtranclp_trans)

lemma rows_evolve_upd:
  "R i = Some r \<Longrightarrow> row_step r r' \<Longrightarrow> rows_evolve R (R(i \<mapsto> r'))"
  by (auto simp: rows_evolve_def)

lemma rows_evolve_new: "rows_evolve R R' \<Longrightarrow> R' u = None \<Longrightarrow> rows_evolve R (R'(u \<mapsto> n))"
  by (fastforce simp: rows_evolve_def)

section \<open>Effect on a store that keeps the contract\<close>

definition retried :: "('sc, 'tz) ext \<Rightarrow> job \<Rightarrow> run \<Rightarrow> bool" where
  "retried X job run \<longleftrightarrow> should_retry (job_retry_policy X job) (r_attempt run)"

context run_table
begin

lemma update_present:
  assumes "invar (w_store w)" "runs_of (w_store w) (r_run_id r) \<noteq> None"
  shows "\<exists>s'. wp (call (so_update_run S r)) Q w = Q (Inr ()) (w\<lparr>w_store := s'\<rparr>) \<and> invar s' \<and>
    runs_of s' = (runs_of (w_store w))(r_run_id r \<mapsto> r) \<and> jobs_of s' = jobs_of (w_store w)"
  using update_run_ok[OF assms] by (auto simp: wp_call_eq)

lemma finalize_effect:
  assumes inv: "invar (w_store w)" and run: "runs_of (w_store w) (r_run_id run) \<noteq> None"
    and msg: "safe_message err = Some m"
    and fresh: "runs_of (w_store w) (w_uuid w (w_uuids w)) = None"
  shows "wp (finalize_failed_run X S run job status err logs) (\<lambda>r w'.
     r = Some () \<and> invar (w_store w') \<and> jobs_of (w_store w') = jobs_of (w_store w) \<and>
     proc_frame w w' \<and> w_uuids w' = w_uuids w + (if retried X job run then 1 else 0) \<and>
     runs_of (w_store w') =
       (let row = failed_row (w_clock w (w_reads w)) status m logs run;
            R = (runs_of (w_store w))(r_run_id run \<mapsto> row)
        in if retried X job run
           then R(w_uuid w (w_uuids w) \<mapsto> retry_run X (job_retry_policy X job)
                   (w_uuid w (w_uuids w)) (w_clock w (Suc (w_reads w))) row)
           else R)) w"
proof -
  let ?row = "failed_row (w_clock w (w_reads w)) status m logs run"
  let ?u = "w_uuid w (w_uuids w)"
  let ?next = "retry_run X (job_retry_policy X job) ?u (w_clock w (Suc (w_reads w))) ?row"
  obtain s1 where s1: "so_update_run S ?row (w_store w) = (Inr (), s1)" "invar s1"
    "runs_of s1 = (runs_of (w_store w))(r_run_id run \<mapsto> ?row)" "jobs_of s1 = jobs_of (w_store w)"
    using update_run_ok[OF inv, of ?row] run by auto
  have "runs_of s1 (r_run_id ?next) = None" using s1(3) fresh run by auto
  from create_run[OF s1(2) this] obtain s2 where s2: "so_create_run S ?next s1 = (Inr (), s2)"
    "invar s2" "runs_of s2 = (runs_of s1)(?u \<mapsto> ?next)" "jobs_of s2 = jobs_of s1" by auto
  show ?thesis
    by (simp add: finalize_failed_run_def msg wp_simps Let_def wp_call s1 s2 retried_def proc_frame_def)
qed

lemma finalize_panics:
  "safe_message err = None \<Longrightarrow>
   run_state (finalize_failed_run X S run job status err logs) w = (None, w)"
  by (simp add: finalize_failed_run_def)

text \<open>What the handling of one event keeps: the contract, the job table, and legal row changes.\<close>

definition events_ok :: "'s world \<Rightarrow> 's world \<Rightarrow> bool" where
  "events_ok w w' \<longleftrightarrow> invar (w_store w') \<and> jobs_of (w_store w') = jobs_of (w_store w) \<and>
     uuids_fresh (runs_of (w_store w')) w' \<and>
     rows_evolve (runs_of (w_store w)) (runs_of (w_store w'))"

lemma events_ok_refl: "invar (w_store w) \<Longrightarrow> uuids_fresh (runs_of (w_store w)) w \<Longrightarrow> events_ok w w"
  by (simp add: events_ok_def)

lemma events_ok_trans: "events_ok w w' \<Longrightarrow> events_ok w' w'' \<Longrightarrow> events_ok w w''"
  by (auto simp: events_ok_def intro: rows_evolve_trans)

lemma update_evolves:
  assumes inv: "invar (w_store w)" and fresh: "uuids_fresh (runs_of (w_store w)) w"
    and row: "runs_of (w_store w) i = Some r" "row_step r r'"
  shows "wp (call (so_update_run S r')) (\<lambda>a. events_ok w) (w\<lparr>w_reads := n\<rparr>)"
proof -
  have id: "r_run_id r' = i" using run_key[OF inv row(1)] row(2) by (auto elim: row_stepE)
  then have "runs_of (w_store w) (r_run_id r') \<noteq> None" using row(1) by simp
  from update_run_ok[OF inv this] id obtain s1 where "so_update_run S r' (w_store w) = (Inr (), s1)"
    "invar s1" "runs_of s1 = (runs_of (w_store w))(i \<mapsto> r')" "jobs_of s1 = jobs_of (w_store w)"
    by auto
  with row(1) rows_evolve_upd[of "runs_of (w_store w)", OF row] fresh show ?thesis
    by (auto simp: wp_call uuids_fresh_def events_ok_def)
qed

lemma finalize_evolves:
  assumes inv: "invar (w_store w)" and fresh: "uuids_fresh (runs_of (w_store w)) w"
    and row: "runs_of (w_store w) (r_run_id run) = Some run" "r_status run = Running"
  shows "wp (finalize_failed_run X S run j status e logs) (\<lambda>r. events_ok w) w"
proof (cases "safe_message e")
  case None
  then show ?thesis
    using events_ok_refl[OF inv fresh] by (simp add: finalize_failed_run_def wp_simps)
next
  case (Some m)
  let ?R = "runs_of (w_store w)" and ?row = "\<lambda>t. failed_row t status m logs run"
  have u: "?R (w_uuid w (w_uuids w)) = None" "inj (w_uuid w)"
    using fresh by (auto simp: uuids_fresh_def)
  have ne: "w_uuid w n \<noteq> r_run_id run" if "w_uuids w \<le> n" for n
    using fresh that row(1) by (auto simp: uuids_fresh_def)
  have "row_step run (?row t)" for t using row(2) by (intro row_step.ended) auto
  then have ev: "rows_evolve ?R (?R(r_run_id run \<mapsto> ?row t))" for t
    using row(1) by (intro rows_evolve_upd) auto
  have ev': "rows_evolve ?R (?R(r_run_id run \<mapsto> ?row t, w_uuid w (w_uuids w) \<mapsto> n))" for t n
    using ne[of "w_uuids w"] u by (intro rows_evolve_new ev) auto
  show ?thesis
    using fresh ne u row(1)
    by (intro wp_mono[OF finalize_effect[OF inv _ Some]])
      (auto simp: Let_def uuids_fresh_def proc_frame_def events_ok_def ev ev' dest: injD)
qed

lemma handle_event_evolves:
  assumes inv: "invar (w_store w)" and fresh: "uuids_fresh (runs_of (w_store w)) w"
  shows "wp (handle_executor_event X S ev) (\<lambda>r. events_ok w) w"
proof (cases "runs_of (w_store w) (ev_run_id ev)")
  case None
  then show ?thesis
    using events_ok_refl[OF assms] by (cases ev) (simp_all add: wp_simps wp_call get_run[OF inv])
next
  case (Some run)
  note same = events_ok_refl[OF assms] and upd = update_evolves[OF assms Some]
  have id: "r_run_id run = ev_run_id ev" using run_key[OF inv Some] .
  show ?thesis
  proof (cases ev)
    case (RunStarted i)
    have "row_step run (run\<lparr>r_started_at := Some t, r_status := Running\<rparr>)"
      if "r_status run \<in> {Queued, Claimed}" for t
      using that by (auto intro!: row_step.started)
    with upd same Some RunStarted show ?thesis
      by (simp add: wp_simps wp_call[of "so_get_run S i"] get_run[OF inv])
  next
    case (RunCompleted i d l)
    have "row_step run (apply_logs l ((run_complete t run)\<lparr>r_duration_ms := Some d\<rparr>))"
      if "r_status run = Running" for t
      using that by (intro row_step.ended) (auto simp: run_change_defs)
    with upd same Some RunCompleted show ?thesis
      by (simp add: wp_simps wp_call[of "so_get_run S i"] get_run[OF inv])
  next
    case (RunFailed i e l)
    have "row_step run (apply_logs k (run_fail t m run))" if "r_status run = Running" for k t m
      using that by (intro row_step.ended) (auto simp: run_change_defs)
    with same Some RunFailed upd finalize_evolves[OF assms, of run X] id show ?thesis
      by (simp add: wp_simps wp_call[of "so_get_run S i"] get_run[OF inv] split: option.splits)
        (simp add: wp_simps wp_call[of "so_get_job S _"] get_job[OF inv] split: option.splits)
  qed
qed

lemma event_loop_evolves:
  "invar (w_store w) \<Longrightarrow> uuids_fresh (runs_of (w_store w)) w \<Longrightarrow>
   wp (event_handler_loop X S evs) (\<lambda>r. events_ok w) w"
proof (induction evs arbitrary: w)
  case Nil
  then show ?case by (simp add: wp_simps events_ok_refl)
next
  case (Cons ev evs)
  have "wp (event_handler_loop X S evs) (\<lambda>r. events_ok w) w'" if ok: "events_ok w w'" for w'
    using ok by (intro wp_mono[OF Cons.IH]) (auto intro: rows_evolve_trans simp: events_ok_def)
  then show ?case
    unfolding event_handler_loop.simps wp_bind
    by (intro wp_mono[OF handle_event_evolves[OF Cons.prems]]) (auto simp: wp_ret split: option.splits)
qed

end

end
