(* ===== verification/Assigner.thy ===== *)
theory Assigner
  imports Partitioning Mem_Facts
begin

text \<open>
  Partition leases of a coordinator (\<^verbatim>\<open>chronon-scheduler/src/partition_assigner.rs\<close>). The assigner
  of one process is a record; its operations run against any store. The facts hold for every
  store that keeps the contract of the partition table; the in-memory backend is one of them, so
  that each fact is available for it as soon as it is proved.
\<close>

record assigner =
  as_instance_id :: string
  as_num_partitions :: nat
  as_owned :: "nat list"

definition assigner_new :: "string \<Rightarrow> nat \<Rightarrow> assigner" where
  "assigner_new instance_id num_partitions =
     \<lparr>as_instance_id = instance_id, as_num_partitions = max num_partitions 1, as_owned = []\<rparr>"

definition owned_partitions :: "assigner \<Rightarrow> nat list" where
  "owned_partitions a = as_owned a"

definition ensure_row :: "'s scheduler_store \<Rightarrow> assigner \<Rightarrow> nat \<Rightarrow> ('s, unit res) proc" where
  "ensure_row S a pid =
     (let key = nat_to_string pid in
      bind_ok (call (so_list_partition_assignments S)) (\<lambda>rows.
        if list_ex (\<lambda>r. pa_partition_id r = key) rows then ret (Inr ())
        else do {
          now \<leftarrow> utc_now;
          call (so_upsert_partition_assignment S
            \<lparr>pa_partition_id = key, pa_owner_instance_id = [], pa_lease_until = 0,
             pa_updated_at = now\<rparr>) }))"

definition try_steal_partition ::
  "'s scheduler_store \<Rightarrow> assigner \<Rightarrow> nat \<Rightarrow> ('s, bool res) proc" where
  "try_steal_partition S a pid =
     (let key = nat_to_string pid in
      do {
        now \<leftarrow> utc_now;
        env \<leftarrow> env_vars;
        let until = add_secs now (partition_lease_ttl_secs env);
        bind_ok (call (so_list_partition_assignments S)) (\<lambda>rows.
          case find (\<lambda>r. pa_partition_id r = key) rows of
            None \<Rightarrow> ret (Inr False)
          | Some row \<Rightarrow>
              if pa_lease_until row > now \<and> pa_owner_instance_id row \<noteq> as_instance_id a
              then ret (Inr False)
              else bind_ok (call (so_upsert_partition_assignment S
                     \<lparr>pa_partition_id = key, pa_owner_instance_id = as_instance_id a,
                      pa_lease_until = until, pa_updated_at = now\<rparr>)) (\<lambda>_. ret (Inr True)))
      })"

definition renew_owned :: "'s scheduler_store \<Rightarrow> assigner \<Rightarrow> nat \<Rightarrow> ('s, unit res) proc" where
  "renew_owned S a pid =
     (let key = nat_to_string pid in
      bind_ok (call (so_list_partition_assignments S)) (\<lambda>rows.
        case find (\<lambda>r. pa_partition_id r = key) rows of
          None \<Rightarrow> ret (Inr ())
        | Some row \<Rightarrow>
            if pa_owner_instance_id row \<noteq> as_instance_id a then ret (Inr ())
            else do {
              now \<leftarrow> utc_now;
              env \<leftarrow> env_vars;
              let until = add_secs now (partition_lease_ttl_secs env);
              call (so_upsert_partition_assignment S
                \<lparr>pa_partition_id = key, pa_owner_instance_id = as_instance_id a,
                 pa_lease_until = until, pa_updated_at = now\<rparr>) }))"

text \<open>The owners with a live lease, one clock reading per row, as a set without duplicates.\<close>

primrec alive_owners ::
  "partition_assignment list \<Rightarrow> string list \<Rightarrow> ('s, string list) proc" where
  "alive_owners [] owners = ret owners"
| "alive_owners (row # rows) owners =
     do { now \<leftarrow> utc_now;
          alive_owners rows
            (if pa_lease_until row > now \<and> pa_owner_instance_id row \<noteq> []
             then List.insert (pa_owner_instance_id row) owners else owners) }"

text \<open>The partitions this instance holds; the clock is read for its own rows only.\<close>

primrec mine_of :: "assigner \<Rightarrow> partition_assignment list \<Rightarrow> ('s, nat list) proc" where
  "mine_of a [] = ret []"
| "mine_of a (r # rows) =
     (if pa_owner_instance_id r = as_instance_id a
      then do { now \<leftarrow> utc_now;
                rest \<leftarrow> mine_of a rows;
                ret (if pa_lease_until r > now
                     then (case parse_unsigned u32_max (pa_partition_id r) of
                             None \<Rightarrow> rest | Some pid \<Rightarrow> pid # rest)
                     else rest) }
      else mine_of a rows)"

text \<open>\<^verbatim>\<open>usize::div_ceil\<close>\<close>

definition div_ceil :: "nat \<Rightarrow> nat \<Rightarrow> nat" where
  "div_ceil a b = (if a mod b > 0 then a div b + 1 else a div b)"

text \<open>The loop that steals partitions up to the fair share.\<close>

primrec steal_loop ::
  "'s scheduler_store \<Rightarrow> assigner \<Rightarrow> nat \<Rightarrow> nat list \<Rightarrow> nat list \<Rightarrow> ('s, nat list res) proc" where
  "steal_loop S a target [] mine = ret (Inr mine)"
| "steal_loop S a target (pid # pids) mine =
     (if length mine \<ge> target then ret (Inr mine)
      else if pid \<in> set mine then steal_loop S a target pids mine
      else bind_ok (try_steal_partition S a pid) (\<lambda>stolen.
             steal_loop S a target pids (if stolen then sort (mine @ [pid]) else mine)))"

definition refresh_leases ::
  "'s scheduler_store \<Rightarrow> assigner \<Rightarrow> ('s, assigner res) proc" where
  "refresh_leases S a =
     bind_ok (for_ok [0 ..< as_num_partitions a] (ensure_row S a)) (\<lambda>_.
     bind_ok (call (so_list_partition_assignments S)) (\<lambda>rows. do {
       owners \<leftarrow> alive_owners rows [];
       let live = max (length owners) 1;
       let target = div_ceil (as_num_partitions a) live;
       mine \<leftarrow> mine_of a rows;
       for_all mine (\<lambda>pid. do { renew_owned S a pid; ret () });
       bind_ok (if length mine < target
                then steal_loop S a target [0 ..< as_num_partitions a] mine
                else ret (Inr mine)) (\<lambda>mine'.
         ret (Inr (a\<lparr>as_owned := sort mine'\<rparr>)))
     }))"

text \<open>
  One firing of the interval in \<^verbatim>\<open>run_lease_loop\<close>, and the loop over the firings that precede the
  shutdown notification. A failed refresh leaves the owned set as it was.
\<close>

definition lease_loop_tick :: "'s scheduler_store \<Rightarrow> assigner \<Rightarrow> ('s, assigner) proc" where
  "lease_loop_tick S a =
     do { r \<leftarrow> refresh_leases S a;
          case r of
            Inl e \<Rightarrow> do {
              emit (LogEvent ''chronon_scheduler_warn''
                [(''component'', ''partition_assigner''), (''message'', error_to_string e)]);
              ret a }
          | Inr a' \<Rightarrow> do {
              for_all (owned_partitions a') (\<lambda>p.
                emit (Counter ''chronon_partition_assignments''
                  [(''partition'', nat_to_string p)] 1));
              ret a' } }"

primrec run_lease_loop :: "'s scheduler_store \<Rightarrow> nat \<Rightarrow> assigner \<Rightarrow> ('s, assigner) proc" where
  "run_lease_loop S 0 a = ret a"
| "run_lease_loop S (Suc ticks) a =
     do { a' \<leftarrow> lease_loop_tick S a; run_lease_loop S ticks a' }"

definition assign_all_embedded :: "assigner \<Rightarrow> assigner" where
  "assign_all_embedded a = a\<lparr>as_owned := [0 ..< as_num_partitions a]\<rparr>"

definition release_all :: "assigner \<Rightarrow> assigner" where
  "release_all a = a\<lparr>as_owned := []\<rparr>"

section \<open>Facts for every store that keeps the partition contract\<close>

context partition_table
begin

lemma find_row:
  assumes "invar s" "distinct (map pa_partition_id rows)"
    "\<forall>r. r \<in> set rows \<longleftrightarrow> parts_of s (pa_partition_id r) = Some r"
  shows "find (\<lambda>r. pa_partition_id r = k) rows = parts_of s k"
proof (cases "find (\<lambda>r. pa_partition_id r = k) rows")
  case None
  then have "\<forall>r \<in> set rows. pa_partition_id r \<noteq> k" by (auto simp: find_None_iff)
  then have "parts_of s k = None"
    using assms(1,3) partition_key by (metis not_None_eq)
  with None show ?thesis by simp
next
  case (Some r)
  then have "r \<in> set rows" "pa_partition_id r = k" by (auto dest: find_SomeD)
  with Some assms(3) show ?thesis by auto
qed

lemma wp_list_partitions:
  assumes "invar (w_store w)"
    "\<And>rows. distinct (map pa_partition_id rows) \<Longrightarrow>
       (\<forall>r. r \<in> set rows \<longleftrightarrow> parts_of (w_store w) (pa_partition_id r) = Some r) \<Longrightarrow>
       (\<And>k. find (\<lambda>r. pa_partition_id r = k) rows = parts_of (w_store w) k) \<Longrightarrow> Q (Inr rows) w"
  shows "wp (call (so_list_partition_assignments S)) Q w"
  using list_partitions[OF assms(1)] assms(2) find_row[OF assms(1)] by (auto simp: wp_call)

lemma wp_upsert_partition:
  assumes "invar (w_store w)"
    "\<And>s'. invar s' \<Longrightarrow> parts_of s' = (parts_of (w_store w))(pa_partition_id p \<mapsto> p) \<Longrightarrow>
       Q (Inr ()) (w\<lparr>w_store := s'\<rparr>)"
  shows "wp (call (so_upsert_partition_assignment S p)) Q w"
  using upsert_partition[OF assms(1), of p] assms(2) by (auto simp: wp_call)

text \<open>A row leased to another instance beyond every clock reading of this process.\<close>

definition foreign :: "assigner \<Rightarrow> (nat \<Rightarrow> time) \<Rightarrow> string \<Rightarrow> partition_assignment \<Rightarrow> 's world \<Rightarrow> bool" where
  "foreign a c k row w \<longleftrightarrow>
     invar (w_store w) \<and> w_clock w = c \<and> parts_of (w_store w) k = Some row \<and>
     pa_owner_instance_id row \<noteq> as_instance_id a \<and> (\<forall>n. c n < pa_lease_until row)"

lemma foreign_reads [simp]: "foreign a c k row (w\<lparr>w_reads := n\<rparr>) = foreign a c k row w"
  by (simp add: foreign_def)

lemma foreign_ensure_row:
  assumes "foreign a c k row w"
  shows "wp (ensure_row S a pid) (\<lambda>r w'. foreign a c k row w') w"
  unfolding ensure_row_def Let_def wp_bind_ok
  by (rule wp_list_partitions)
    (use assms in \<open>auto simp: foreign_def wp_simps list_ex_iff
       intro!: wp_upsert_partition dest: partition_key\<close>)

lemma foreign_renew:
  assumes "foreign a c k row w"
  shows "wp (renew_owned S a pid) (\<lambda>r w'. foreign a c k row w') w"
  unfolding renew_owned_def Let_def wp_bind_ok
  by (rule wp_list_partitions)
    (use assms in \<open>auto simp: foreign_def wp_simps split: option.splits intro!: wp_upsert_partition\<close>)

lemma foreign_steal:
  assumes "foreign a c k row w"
  shows "wp (try_steal_partition S a pid)
    (\<lambda>r w'. foreign a c k row w' \<and> (nat_to_string pid = k \<longrightarrow> r = Inr False)) w"
  unfolding try_steal_partition_def Let_def wp_simps
  by (rule wp_list_partitions)
    (use assms in \<open>auto simp: foreign_def wp_simps split: option.splits intro!: wp_upsert_partition\<close>)

lemma foreign_steal_loop:
  assumes "foreign a c k row w" "\<forall>p \<in> set mine. nat_to_string p \<noteq> k"
  shows "wp (steal_loop S a target pids mine)
    (\<lambda>r w'. foreign a c k row w' \<and> (\<forall>m. r = Inr m \<longrightarrow> (\<forall>p \<in> set m. nat_to_string p \<noteq> k))) w"
  using assms
proof (induction pids arbitrary: mine w)
  case Nil
  then show ?case by (simp add: wp_simps)
next
  case (Cons pid pids)
  have "wp (bind_ok (try_steal_partition S a pid) (\<lambda>stolen.
             steal_loop S a target pids (if stolen then sort (mine @ [pid]) else mine)))
    (\<lambda>r w'. foreign a c k row w' \<and> (\<forall>m. r = Inr m \<longrightarrow> (\<forall>p \<in> set m. nat_to_string p \<noteq> k))) w"
    unfolding wp_bind_ok
    by (rule wp_mono[OF foreign_steal[OF Cons.prems(1), of pid]])
      (use Cons.prems(2) in \<open>auto split: sum.splits intro!: Cons.IH\<close>)
  with Cons show ?case by (simp add: wp_simps)
qed

lemma wp_alive_owners:
  "(\<And>os' n. Q os' (w\<lparr>w_reads := n\<rparr>)) \<Longrightarrow> wp (alive_owners rows os) Q w"
proof (induction rows arbitrary: os w)
  case Nil
  from Nil[of os "w_reads w"] show ?case by (simp add: wp_simps)
next
  case (Cons r rows)
  have "wp (alive_owners rows os') Q (w\<lparr>w_reads := m\<rparr>)" for os' m
    using Cons.IH[of "w\<lparr>w_reads := m\<rparr>"] Cons.prems by simp
  then show ?case by (simp add: wp_simps)
qed

lemma wp_mine_of:
  "(\<And>rs n. subseq rs rows \<Longrightarrow> (\<And>r. r \<in> set rs \<Longrightarrow> pa_owner_instance_id r = as_instance_id a \<and>
        parse_unsigned u32_max (pa_partition_id r) \<noteq> None) \<Longrightarrow>
      Q (map (\<lambda>r. the (parse_unsigned u32_max (pa_partition_id r))) rs) (w\<lparr>w_reads := n\<rparr>)) \<Longrightarrow>
   wp (mine_of a rows) Q w"
proof (induction rows arbitrary: Q w)
  case Nil
  from Nil[of "[]" "w_reads w"] show ?case by (simp add: wp_simps)
next
  case (Cons r rows)
  show ?case
  proof (cases "pa_owner_instance_id r = as_instance_id a")
    case True
    have "wp (mine_of a rows) (\<lambda>rest w''. Q (if pa_lease_until r > now
             then (case parse_unsigned u32_max (pa_partition_id r) of None \<Rightarrow> rest | Some pid \<Rightarrow> pid # rest)
             else rest) w'') (w\<lparr>w_reads := m\<rparr>)" for now m
    proof (rule Cons.IH, goal_cases)
      case (1 rs n)
      have "Q (map (\<lambda>r. the (parse_unsigned u32_max (pa_partition_id r))) rs) (w\<lparr>w_reads := n\<rparr>)"
        by (rule Cons.prems) (use 1 in auto)
      moreover have "Q (map (\<lambda>r. the (parse_unsigned u32_max (pa_partition_id r))) (r # rs)) (w\<lparr>w_reads := n\<rparr>)"
        if "parse_unsigned u32_max (pa_partition_id r) = Some p" for p
        by (rule Cons.prems) (use 1 True that in auto)
      ultimately show ?case by (auto split: option.splits)
    qed
    with True show ?thesis by (simp add: wp_simps)
  next
    case False
    then show ?thesis using Cons.IH[of Q w] Cons.prems by auto
  qed
qed

text \<open>Row keys are printed partition numbers; only such keys are ever written by an assigner.\<close>

definition canon :: "(string \<Rightarrow> partition_assignment option) \<Rightarrow> bool" where
  "canon P \<longleftrightarrow> (\<forall>k r. P k = Some r \<longrightarrow> (\<exists>n \<le> u32_max. k = nat_to_string n))"

lemma canon_parse:
  "canon P \<Longrightarrow> P k = Some r \<Longrightarrow> parse_unsigned u32_max k = Some p \<Longrightarrow> k = nat_to_string p"
  by (fastforce simp: canon_def parse_nat_to_string)

definition settled :: "(nat \<Rightarrow> time) \<Rightarrow> env \<Rightarrow> 's world \<Rightarrow> bool" where
  "settled c e w \<longleftrightarrow> invar (w_store w) \<and> w_clock w = c \<and> w_env w = e \<and> canon (parts_of (w_store w))"

lemma settled_reads [simp]: "settled c e (w\<lparr>w_reads := n\<rparr>) = settled c e w"
  by (simp add: settled_def)

lemma canon_upd: "canon P \<Longrightarrow> pid \<le> u32_max \<Longrightarrow> canon (P(nat_to_string pid \<mapsto> r))"
  by (auto simp: canon_def)

lemma settled_ensure:
  assumes "settled c e w" "pid \<le> u32_max"
  shows "wp (ensure_row S a pid) (\<lambda>r w'. r = Inr () \<and> settled c e w') w"
  unfolding ensure_row_def Let_def wp_bind_ok
  by (rule wp_list_partitions)
    (use assms in \<open>auto simp: settled_def wp_simps list_ex_iff canon_upd intro!: wp_upsert_partition\<close>)

text \<open>The row of a partition held by this instance, with a lease taken at some clock reading.\<close>

definition leased :: "assigner \<Rightarrow> (nat \<Rightarrow> time) \<Rightarrow> env \<Rightarrow> 's world \<Rightarrow> nat \<Rightarrow> bool" where
  "leased a c e w pid \<longleftrightarrow>
     (\<exists>row n. parts_of (w_store w) (nat_to_string pid) = Some row \<and>
        pa_owner_instance_id row = as_instance_id a \<and>
        pa_lease_until row = add_secs (c n) (partition_lease_ttl_secs e))"

definition mine_row :: "assigner \<Rightarrow> 's world \<Rightarrow> nat \<Rightarrow> bool" where
  "mine_row a w pid \<longleftrightarrow>
     (\<exists>row. parts_of (w_store w) (nat_to_string pid) = Some row \<and>
        pa_owner_instance_id row = as_instance_id a)"

lemma row_reads [simp]:
  "leased a c e (w\<lparr>w_reads := n\<rparr>) = leased a c e w" "mine_row a (w\<lparr>w_reads := n\<rparr>) = mine_row a w"
  by (simp_all add: leased_def mine_row_def fun_eq_iff)

lemma leased_mine: "leased a c e w pid \<Longrightarrow> mine_row a w pid"
  by (auto simp: leased_def mine_row_def)

lemma renew_leased:
  assumes "settled c e w" "mine_row a w pid"
  shows "wp (renew_owned S a pid)
    (\<lambda>r w'. settled c e w' \<and> leased a c e w' pid \<and>
       (\<forall>q. mine_row a w q \<longrightarrow> mine_row a w' q) \<and> (\<forall>q. leased a c e w q \<longrightarrow> leased a c e w' q)) w"
proof -
  obtain row where row: "parts_of (w_store w) (nat_to_string pid) = Some row"
    "pa_owner_instance_id row = as_instance_id a"
    using assms(2) by (auto simp: mine_row_def)
  have "\<exists>n \<le> u32_max. nat_to_string pid = nat_to_string n"
    using assms(1) row(1) by (auto simp: settled_def canon_def)
  then have "pid \<le> u32_max" by (simp add: nat_to_string_inj)
  with assms row show ?thesis
    unfolding renew_owned_def Let_def wp_bind_ok
    by (intro wp_list_partitions)
      (auto simp: settled_def wp_simps leased_def mine_row_def canon_upd intro!: wp_upsert_partition)
qed

lemma renew_all_leased:
  assumes "settled c e w" "\<forall>p \<in> D \<union> set ps. mine_row a w p" "\<forall>p \<in> D. leased a c e w p"
  shows "wp (for_all ps (\<lambda>pid. do { renew_owned S a pid; ret () }))
     (\<lambda>_ w'. settled c e w' \<and> (\<forall>p \<in> D \<union> set ps. leased a c e w' p)) w"
  using assms
proof (induction ps arbitrary: w D)
  case Nil
  then show ?case by (simp add: wp_simps)
next
  case (Cons p ps)
  have "wp (for_all ps (\<lambda>pid. do { renew_owned S a pid; ret () }))
     (\<lambda>_ w'. settled c e w' \<and> (\<forall>p \<in> (insert p D) \<union> set ps. leased a c e w' p)) w'"
    if "settled c e w' \<and> leased a c e w' p \<and>
       (\<forall>q. mine_row a w q \<longrightarrow> mine_row a w' q) \<and> (\<forall>q. leased a c e w q \<longrightarrow> leased a c e w' q)" for w'
    using that Cons.prems by (intro Cons.IH) auto
  then have "wp (renew_owned S a p) (\<lambda>_. wp (for_all ps (\<lambda>pid. do { renew_owned S a pid; ret () }))
     (\<lambda>_ w'. settled c e w' \<and> (\<forall>p \<in> (insert p D) \<union> set ps. leased a c e w' p))) w"
    using Cons.prems by (intro wp_mono[OF renew_leased[of c e w a p]]) auto
  then show ?case by (simp add: wp_simps)
qed

lemma steal_leased:
  assumes "settled c e w" "pid \<le> u32_max"
  shows "wp (try_steal_partition S a pid)
    (\<lambda>r w'. settled c e w' \<and> (\<exists>b. r = Inr b) \<and> (r = Inr True \<longrightarrow> leased a c e w' pid) \<and>
       (\<forall>q. leased a c e w q \<longrightarrow> leased a c e w' q)) w"
  unfolding try_steal_partition_def Let_def wp_simps
  by (rule wp_list_partitions)
    (use assms in \<open>auto simp: settled_def wp_simps leased_def canon_upd split: option.splits
       intro!: wp_upsert_partition\<close>)

lemma steal_loop_leased:
  assumes "settled c e w" "\<forall>p \<in> set pids. p \<le> u32_max" "\<forall>p \<in> set mine. leased a c e w p"
    "distinct mine"
  shows "wp (steal_loop S a target pids mine)
    (\<lambda>r w'. \<exists>m. r = Inr m \<and> (\<forall>p \<in> set m. leased a c e w' p) \<and> distinct m \<and>
       length m \<le> max (length mine) target) w"
  using assms
proof (induction pids arbitrary: mine w)
  case Nil
  then show ?case by (simp add: wp_simps)
next
  case (Cons pid pids)
  let ?Q = "\<lambda>mine r w'. \<exists>m. r = Inr m \<and> (\<forall>p \<in> set m. leased a c e w' p) \<and> distinct m \<and>
       length m \<le> max (length mine) target"
  show ?case
  proof (cases "length mine \<ge> target \<or> pid \<in> set mine")
    case True
    have "wp (steal_loop S a target pids mine) (?Q mine) w"
      by (rule Cons.IH) (use Cons.prems in auto)
    moreover have "target \<le> length mine \<Longrightarrow> ?Q mine (Inr mine) w" using Cons.prems by auto
    ultimately show ?thesis using True
      by (cases "target \<le> length mine") (simp_all only: steal_loop.simps wp_ret if_True if_False simp_thms)
  next
    case False
    have step: "wp (steal_loop S a target pids (if b then sort (mine @ [pid]) else mine)) (?Q mine) w'"
      if "settled c e w' \<and> (b \<longrightarrow> leased a c e w' pid) \<and> (\<forall>q. leased a c e w q \<longrightarrow> leased a c e w' q)" for b w'
      using that False Cons.prems
      by (intro wp_mono[OF Cons.IH[of w' "if b then sort (mine @ [pid]) else mine"]])
        (auto split: if_splits)
    have "wp (try_steal_partition S a pid) (\<lambda>r w'. case r of Inl er \<Rightarrow> ?Q mine (Inl er) w'
        | Inr b \<Rightarrow> wp (steal_loop S a target pids (if b then sort (mine @ [pid]) else mine)) (?Q mine) w') w"
    proof (rule wp_mono[OF steal_leased[of c e w pid a]], goal_cases)
      case (3 r w') then show ?case by (cases r) (simp, simp only: sum.case, rule step, simp)
    qed (use Cons.prems in auto)
    moreover have "steal_loop S a target (pid # pids) mine =
        bind_ok (try_steal_partition S a pid) (\<lambda>stolen.
          steal_loop S a target pids (if stolen then sort (mine @ [pid]) else mine))"
      using False by simp
    ultimately show ?thesis by (simp only: wp_bind_ok)
  qed
qed

text \<open>The part of a refresh that follows the listing.\<close>

lemma refresh_tail:
  assumes "wp (call (so_list_partition_assignments S)) (\<lambda>r w1. \<exists>rows. r = Inr rows \<and>
      (\<forall>target n. wp (mine_of a rows) (\<lambda>mine w2.
         wp (for_all mine (\<lambda>pid. do { renew_owned S a pid; ret () }))
           (\<lambda>_ w3. P (Inr (a\<lparr>as_owned := sort mine\<rparr>)) w3 \<and>
             wp (steal_loop S a target [0 ..< as_num_partitions a] mine)
              (\<lambda>r w4. P (case r of Inl e \<Rightarrow> Inl e | Inr m \<Rightarrow> Inr (a\<lparr>as_owned := sort m\<rparr>)) w4) w3) w2)
         (w1\<lparr>w_reads := n\<rparr>))) w"
  shows "wp (bind_ok (call (so_list_partition_assignments S)) (\<lambda>rows. do {
       owners \<leftarrow> alive_owners rows [];
       let live = max (length owners) 1;
       let target = div_ceil (as_num_partitions a) live;
       mine \<leftarrow> mine_of a rows;
       for_all mine (\<lambda>pid. do { renew_owned S a pid; ret () });
       bind_ok (if length mine < target
                then steal_loop S a target [0 ..< as_num_partitions a] mine
                else ret (Inr mine)) (\<lambda>mine'.
         ret (Inr (a\<lparr>as_owned := sort mine'\<rparr>)))
     })) P w"
  unfolding wp_bind_ok
proof (rule wp_mono[OF assms(1)], goal_cases)
  case (1 r w1)
  then obtain rows where Inr: "r = Inr rows" and tail: "\<And>target n. wp (mine_of a rows) (\<lambda>mine w2.
         wp (for_all mine (\<lambda>pid. do { renew_owned S a pid; ret () }))
           (\<lambda>_ w3. P (Inr (a\<lparr>as_owned := sort mine\<rparr>)) w3 \<and>
             wp (steal_loop S a target [0 ..< as_num_partitions a] mine)
              (\<lambda>r w4. P (case r of Inl e \<Rightarrow> Inl e | Inr m \<Rightarrow> Inr (a\<lparr>as_owned := sort m\<rparr>)) w4) w3) w2)
         (w1\<lparr>w_reads := n\<rparr>)" by blast
  show ?case
    unfolding Inr sum.case wp_bind Let_def
    by (rule wp_alive_owners, rule wp_mono, rule tail, erule wp_mono)
      (auto elim!: wp_mono simp: wp_simps split: sum.splits)
qed

lemma subseq_distinct: "subseq xs ys \<Longrightarrow> distinct ys \<Longrightarrow> distinct xs"
  by (induction rule: list_emb.induct) (auto dest: list_emb_set)

lemma subseq_inj_distinct:
  assumes "subseq rs rows" "distinct (map f rows)" "inj_on g (f ` set rs)"
  shows "distinct (map (\<lambda>r. g (f r)) rs)"
proof -
  have "distinct (map f rs)" using assms subseq_distinct subseq_map by blast
  with assms(3) have "distinct (map g (map f rs))" by (subst distinct_map) simp
  then show ?thesis by (simp add: comp_def)
qed

lemma wp_mine_after_list:
  assumes "settled c e w"
    "\<And>m n target. distinct m \<Longrightarrow> \<forall>p \<in> set m. mine_row a w p \<Longrightarrow> R target m (w\<lparr>w_reads := n\<rparr>)"
  shows "wp (call (so_list_partition_assignments S)) (\<lambda>r w1. \<exists>rows. r = Inr rows \<and>
      (\<forall>target n. wp (mine_of a rows) (R target) (w1\<lparr>w_reads := n\<rparr>))) w"
proof (rule wp_list_partitions, goal_cases)
  case 1 show ?case using assms(1) by (simp add: settled_def)
next
  case (2 rows)
  have canon: "canon (parts_of (w_store w))" using assms(1) by (simp add: settled_def)
  have "wp (mine_of a rows) (R target) (w\<lparr>w_reads := n\<rparr>)" for target n
  proof (rule wp_mine_of, goal_cases)
    case (1 rs n')
    let ?g = "\<lambda>k. the (parse_unsigned u32_max k)"
    have key: "pa_partition_id r = nat_to_string (?g (pa_partition_id r))"
      "parts_of (w_store w) (pa_partition_id r) = Some r" if "r \<in> set rs" for r
    proof -
      show "parts_of (w_store w) (pa_partition_id r) = Some r"
        using that 1(1) 2(2) by (auto dest: list_emb_set)
      with 1(2)[OF that] show "pa_partition_id r = nat_to_string (?g (pa_partition_id r))"
        using canon_parse[OF canon] by force
    qed
    have "inj_on ?g (pa_partition_id ` set rs)"
      by (rule inj_on_inverseI[where g = nat_to_string]) (use key(1) in auto)
    with subseq_inj_distinct[OF 1(1) 2(1)] have "distinct (map (\<lambda>r. ?g (pa_partition_id r)) rs)" by blast
    moreover have "\<forall>p \<in> set (map (\<lambda>r. ?g (pa_partition_id r)) rs). mine_row a w p"
      using key 1(2) by (auto simp: mine_row_def simp flip: key(1))
    ultimately show ?case using assms(2) by simp
  qed
  then show ?case by auto
qed

lemma refresh_rule:
  assumes "settled c e w" "as_num_partitions a \<le> u32_max" "I w"
    "\<And>pid w. pid \<le> u32_max \<Longrightarrow> I w \<Longrightarrow> wp (ensure_row S a pid) (\<lambda>_ w'. I w') w"
    "\<And>m n target w'. settled c e w' \<Longrightarrow> I w' \<Longrightarrow> distinct m \<Longrightarrow> \<forall>p \<in> set m. mine_row a w' p \<Longrightarrow>
       wp (for_all m (\<lambda>pid. do { renew_owned S a pid; ret () }))
         (\<lambda>_ w3. P (Inr (a\<lparr>as_owned := sort m\<rparr>)) w3 \<and>
           wp (steal_loop S a target [0 ..< as_num_partitions a] m)
             (\<lambda>r w4. P (case r of Inl e \<Rightarrow> Inl e | Inr m \<Rightarrow> Inr (a\<lparr>as_owned := sort m\<rparr>)) w4) w3)
         (w'\<lparr>w_reads := n\<rparr>)"
  shows "wp (refresh_leases S a) P w"
  unfolding refresh_leases_def
proof (subst wp_bind_ok, rule wp_mono[OF wp_for_ok_Inr[where I = "\<lambda>w. I w \<and> settled c e w"]], goal_cases)
  case 1 show ?case using assms by simp
next
  case (2 pid w)
  with assms(2) have "pid \<le> u32_max" by simp
  with 2 assms(4)[of pid w] settled_ensure[of c e w pid a] show ?case
    by (auto simp: wp_def split: prod.splits)
next
  case (3 r w')
  then have Inr: "r = Inr ()" by simp
  show ?case
    unfolding Inr sum.case
    by (rule refresh_tail) (use 3 assms(5) in \<open>auto intro!: wp_mine_after_list\<close>)
qed

lemma foreign_not_mine: "foreign a c k row w \<Longrightarrow> mine_row a w p \<Longrightarrow> nat_to_string p \<noteq> k"
  by (auto simp: foreign_def mine_row_def)

lemma refresh_foreign:
  assumes "settled c e w" "as_num_partitions a \<le> u32_max" "foreign a c k row w"
  shows "wp (refresh_leases S a)
    (\<lambda>r w'. foreign a c k row w' \<and> (\<forall>a'. r = Inr a' \<longrightarrow> (\<forall>p \<in> set (as_owned a'). nat_to_string p \<noteq> k))) w"
proof (rule refresh_rule[where I = "foreign a c k row", OF assms], goal_cases)
  case (1 pid w) then show ?case by (auto intro: foreign_ensure_row)
next
  case (2 m n target w')
  then have ne: "\<forall>p \<in> set m. nat_to_string p \<noteq> k" using foreign_not_mine by blast
  show ?case
  proof (rule wp_mono[OF wp_for_all[where I = "foreign a c k row"]], goal_cases)
    case 1 show ?case using 2 by simp
  next
    case (2 x w) then show ?case by (simp add: wp_simps foreign_renew)
  next
    case (3 u w3)
    have "wp (steal_loop S a target [0 ..< as_num_partitions a] m)
        (\<lambda>r w4. foreign a c k row w4 \<and> (\<forall>a'. (case r of Inl e \<Rightarrow> Inl e | Inr m \<Rightarrow> Inr (a\<lparr>as_owned := sort m\<rparr>)) = Inr a' \<longrightarrow>
           (\<forall>p \<in> set (as_owned a'). nat_to_string p \<noteq> k))) w3"
      by (rule wp_mono[OF foreign_steal_loop[OF 3 ne]]) (auto split: sum.splits)
    with 3 ne show ?case by auto
  qed
qed

lemma refresh_leased:
  assumes "settled c e w" "as_num_partitions a \<le> u32_max"
  shows "wp (refresh_leases S a)
    (\<lambda>r w'. \<exists>a'. r = Inr a' \<and> sorted (as_owned a') \<and> distinct (as_owned a') \<and>
        as_instance_id a' = as_instance_id a \<and> (\<forall>p \<in> set (as_owned a'). leased a c e w' p)) w"
proof (rule refresh_rule[where I = "\<lambda>_. True", OF assms], goal_cases)
  case (2 pid w) then show ?case by (simp add: wp_def split: prod.splits)
next
  case (3 m n target w')
  show ?case
  proof (rule wp_mono[OF renew_all_leased[where D = "{}" and c = c and e = e]], goal_cases)
    case (4 u w3)
    have "wp (steal_loop S a target [0 ..< as_num_partitions a] m)
        (\<lambda>r w4. \<exists>a'. (case r of Inl e \<Rightarrow> Inl e | Inr m \<Rightarrow> Inr (a\<lparr>as_owned := sort m\<rparr>)) = Inr a' \<and>
           sorted (as_owned a') \<and> distinct (as_owned a') \<and> as_instance_id a' = as_instance_id a \<and>
           (\<forall>p \<in> set (as_owned a'). leased a c e w4 p)) w3"
      by (rule wp_mono[OF steal_loop_leased[of c e w3]])
        (use 4 \<open>distinct m\<close> assms(2) in \<open>auto split: sum.splits\<close>)
    with 4 \<open>distinct m\<close> show ?case by auto
  qed (use 3 in auto)
qed auto

end

end
