(* ===== verification/Leader.thy ===== *)
theory Leader
  imports Assigner
begin

text \<open>
  Leader election (\<^verbatim>\<open>chronon-scheduler/src/leader.rs\<close>): the free functions, the elector of one
  process with its shared flag, and the election loop. An atomic flag is a field; the loop runs
  over the interval firings that precede the shutdown notification.
\<close>

definition leader_ttl_secs_from_env :: "env \<Rightarrow> int" where
  "leader_ttl_secs_from_env env = env_i64 env ''CHRONON_LEADER_TTL_S'' 30"

definition leader_renew_interval_secs_from_env :: "env \<Rightarrow> nat" where
  "leader_renew_interval_secs_from_env env = env_unsigned env ''CHRONON_LEADER_RENEW_S'' u64_max 5"

text \<open>Store operations that read the clock inside the backend get that reading.\<close>

definition try_acquire_leader :: "'s scheduler_store \<Rightarrow> string \<Rightarrow> ('s, bool res) proc" where
  "try_acquire_leader S instance_id =
     do { env \<leftarrow> env_vars; now \<leftarrow> utc_now;
          call (so_try_acquire_leader S now instance_id (leader_ttl_secs_from_env env)) }"

definition renew_leader_lease :: "'s scheduler_store \<Rightarrow> string \<Rightarrow> ('s, unit res) proc" where
  "renew_leader_lease S instance_id =
     do { env \<leftarrow> env_vars; now \<leftarrow> utc_now;
          call (so_renew_leader_lease S now instance_id (leader_ttl_secs_from_env env)) }"

definition current_leader :: "'s scheduler_store \<Rightarrow> ('s, (string \<times> time) option res) proc" where
  "current_leader S =
     bind_ok (call (so_get_leader S)) (\<lambda>row.
       ret (Inr (map_option (\<lambda>l. (l_leader_instance_id l, l_leader_lease_until l)) row)))"

definition am_i_leader :: "'s scheduler_store \<Rightarrow> string \<Rightarrow> ('s, bool res) proc" where
  "am_i_leader S instance_id =
     bind_ok (current_leader S) (\<lambda>l.
       case l of
         None \<Rightarrow> ret (Inr False)
       | Some (i, until) \<Rightarrow> do { now \<leftarrow> utc_now; ret (Inr (until > now \<and> i = instance_id)) })"

section \<open>The elector\<close>

record elector =
  el_instance_id :: string
  el_is_leader :: bool

definition elector_new :: "string \<Rightarrow> elector" where
  "elector_new instance_id = \<lparr>el_instance_id = instance_id, el_is_leader = False\<rparr>"

definition warn_event :: "string \<Rightarrow> chronon_error \<Rightarrow> tele" where
  "warn_event component e =
     LogEvent ''chronon_scheduler_warn''
       [(''component'', component), (''message'', error_to_string e)]"

definition leader_event :: "string \<Rightarrow> string \<Rightarrow> tele" where
  "leader_event instance_id event =
     LogEvent ''chronon_scheduler_leader'' [(''instance_id'', instance_id), (''event'', event)]"

text \<open>\<^verbatim>\<open>step_once\<close>: a leader renews and then confirms; a standby tries to acquire.\<close>

definition step_once ::
  "'s scheduler_store \<Rightarrow> elector \<Rightarrow> assigner \<Rightarrow> ('s, elector \<times> assigner) proc" where
  "step_once S el a =
     (if el_is_leader el
      then do {
        r \<leftarrow> renew_leader_lease S (el_instance_id el);
        (case r of Inl e \<Rightarrow> emit (warn_event ''leader_elector'' e) | Inr _ \<Rightarrow> ret ());
        b \<leftarrow> am_i_leader S (el_instance_id el);
        let still_leader = unwrap_or False b;
        if \<not> still_leader
        then do {
          emit (leader_event (el_instance_id el) ''lost'');
          ret (el\<lparr>el_is_leader := False\<rparr>, release_all a) }
        else ret (el, a) }
      else do {
        r \<leftarrow> try_acquire_leader S (el_instance_id el);
        (case r of
           Inr True \<Rightarrow> do {
             emit (leader_event (el_instance_id el) ''acquired'');
             ret (el\<lparr>el_is_leader := True\<rparr>, assign_all_embedded a) }
         | Inr False \<Rightarrow> ret (el, a)
         | Inl e \<Rightarrow> do { emit (warn_event ''leader_elector'' e); ret (el, a) }) })"

primrec run_election_loop ::
  "'s scheduler_store \<Rightarrow> nat \<Rightarrow> elector \<Rightarrow> assigner \<Rightarrow> ('s, elector \<times> assigner) proc" where
  "run_election_loop S 0 el a = ret (el, if el_is_leader el then release_all a else a)"
| "run_election_loop S (Suc ticks) el a =
     do { (el', a') \<leftarrow> step_once S el a; run_election_loop S ticks el' a' }"

end
