(* ===== verification/Sample.thy ===== *)
theory Sample
  imports Core_Models
begin

text \<open>
  A concrete bundle of third-party functions, on which the hypotheses about them can be evaluated:
  a JSON codec for the policies, a cron library whose expressions are intervals in seconds, a
  byte-sum hash and exact powers of one and two.
\<close>

fun sample_retry_to :: "retry_policy \<Rightarrow> string + json" where
  "sample_retry_to p =
     (if f64_is_finite (backoff_multiplier p)
      then Inr (JObject
        [(''max_attempts'', JNumber (PosInt (max_attempts p))),
         (''base_delay_ms'', JNumber (PosInt (base_delay_ms p))),
         (''backoff_multiplier'', JNumber (Float (backoff_multiplier p))),
         (''max_delay_ms'', JNumber (PosInt (max_delay_ms p)))])
      else Inr JNull)"

fun sample_retry_from :: "json \<Rightarrow> string + retry_policy" where
  "sample_retry_from v =
     (case (json_get ''max_attempts'' v, json_get ''base_delay_ms'' v,
            json_get ''backoff_multiplier'' v, json_get ''max_delay_ms'' v) of
        (Some (JNumber (PosInt a)), Some (JNumber (PosInt b)), Some (JNumber (Float m)),
         Some (JNumber (PosInt d))) \<Rightarrow>
          Inr \<lparr>max_attempts = a, base_delay_ms = b, backoff_multiplier = m, max_delay_ms = d\<rparr>
      | _ \<Rightarrow> Inl ''invalid retry policy'')"

fun sample_misfire_to :: "misfire_policy \<Rightarrow> string + json" where
  "sample_misfire_to p =
     Inr (JObject
       [(''run_immediately'', JBool (run_immediately p)),
        (''max_misfire_window_secs'', JNumber (PosInt (max_misfire_window_secs p)))])"

fun sample_misfire_from :: "json \<Rightarrow> string + misfire_policy" where
  "sample_misfire_from v =
     (case (json_get ''run_immediately'' v, json_get ''max_misfire_window_secs'' v) of
        (Some (JBool b), Some (JNumber (PosInt n))) \<Rightarrow>
          Inr \<lparr>run_immediately = b, max_misfire_window_secs = n\<rparr>
      | _ \<Rightarrow> Inl ''invalid misfire policy'')"

definition sample_ext :: "(nat, unit) ext" where
  "sample_ext =
     \<lparr>x_cron_parse = (\<lambda>s. case parse_unsigned u32_max s of
          None \<Rightarrow> Inl ''bad interval'' | Some n \<Rightarrow> if n = 0 then Inl ''zero'' else Inr n),
      x_cron_next = (\<lambda>n _ t. Some (add_secs t (int n))),
      x_tz_parse = (\<lambda>s. if s = ''UTC'' then Some () else None),
      x_tz_utc = (),
      x_xxh64 = (\<lambda>s. sum_list (map of_char s)),
      x_retry_to = sample_retry_to, x_retry_from = sample_retry_from,
      x_misfire_to = sample_misfire_to, x_misfire_from = sample_misfire_from,
      x_job_to = (\<lambda>j. Inr (JObject [(''job_id'', JString (j_job_id j))])),
      x_powi = (\<lambda>x n. if x = F_Fin 1 0 then F_Fin 1 0 else if n = 1 then x
                      else if x = F_Fin 2 0 then F_Fin 1 n else F_NaN)\<rparr>"

lemma sample_retry_codec: "retry_codec_ok sample_ext"
  by (simp add: retry_codec_ok_def sample_ext_def)

definition sample_job :: job where
  "sample_job = (job_new sample_ext ''job-1'' 0 ''nightly'' ''cleanup'')"

end
