(* ===== verification/Mem_Props.thy ===== *)
theory Mem_Props
  imports Mem_Facts Sample
begin

text \<open>
  What the in-memory backend guarantees its clients: the consistency of every reachable state, the
  read-after-write behaviour of the job table, the choice and the exclusivity of run claims, the
  reclaiming of expired leases, run-once claims, and the queries of the coordinator.
\<close>

section \<open>Auxiliary facts\<close>

lemma mem_reachable_inv: "mem_reachable st \<Longrightarrow> mem_inv st"
  by (induction rule: mem_reachable.induct) (auto intro: mem_inv_new mem_step_inv)

lemma pick_candidate_None:
  "pick_candidate p now c rs = None \<longleftrightarrow> c = None \<and> (\<forall>(i, r) \<in> set rs. \<not> claim_eligible p now r)"
  by (induction p now c rs rule: pick_candidate.induct) (auto simp: is_none_or_def)

lemma pick_candidate_le:
  "pick_candidate p now (Some (i0, r0)) rs = Some (i, r) \<Longrightarrow> r_scheduled_for r \<le> r_scheduled_for r0"
  by (induction rs arbitrary: i0 r0) (force simp: is_none_or_def split: if_splits)+

lemma pick_candidate_min:
  "pick_candidate p now c rs = Some (i, r) \<Longrightarrow> (i', r') \<in> set rs \<Longrightarrow> claim_eligible p now r' \<Longrightarrow>
   r_scheduled_for r \<le> r_scheduled_for r'"
proof (induction p now c rs rule: pick_candidate.induct)
  case (2 p now c k q rest)
  show ?case
  proof (cases "(i', r') \<in> set rest")
    case True
    with 2 show ?thesis by (auto split: if_splits)
  next
    case False
    with "2.prems" have q: "q = r'" by auto
    show ?thesis
    proof (cases c)
      case None
      with 2 q show ?thesis by (auto simp: is_none_or_def dest: pick_candidate_le)
    next
      case (Some x)
      with 2 q show ?thesis
        by (cases x) (auto simp: is_none_or_def split: if_splits dest!: pick_candidate_le)
    qed
  qed
qed simp

lemma pick_none_iff:
  assumes "mem_inv st"
  shows "pick_candidate p now None (m_runs st) = None \<longleftrightarrow>
     (\<forall>i r. hm_get (m_runs st) i = Some r \<longrightarrow> \<not> claim_eligible p now r)"
  using assms by (fastforce simp: pick_candidate_None hm_entry_iff inv_hm_runs)

lemma pick_earliest:
  assumes "mem_inv st" "pick_candidate p now None (m_runs st) = Some (i, r)"
    "hm_get (m_runs st) i' = Some r'" "claim_eligible p now r'"
  shows "r_scheduled_for r \<le> r_scheduled_for r'"
proof -
  have "(i', r') \<in> set (m_runs st)" using assms by (simp add: hm_entry_iff inv_hm_runs)
  with pick_candidate_min[OF assms(2)] assms(4) show ?thesis by blast
qed

lemma take_sort_key_least:
  assumes "x \<in> set xs" "x \<notin> set (take n (sort_key f xs))" "y \<in> set (take n (sort_key f xs))"
  shows "f y \<le> f x"
proof -
  let ?s = "sort_key f xs"
  have "set (take n ?s) \<union> set (drop n ?s) = set xs"
    by (metis append_take_drop_id set_append set_sort)
  with assms(1,2) have "x \<in> set (drop n ?s)" by blast
  moreover have "sorted (map f (take n ?s) @ map f (drop n ?s))"
    using sorted_sort_key[of f xs] by (simp flip: map_append)
  ultimately show ?thesis using assms(3) by (auto simp: sorted_append)
qed

section \<open>Exclusive holding of a run\<close>

text \<open>
  Operations that other parties may issue while a worker holds a run: claims, renewals and
  reclaiming at instants before the lease ends, writes to other runs, and every operation on jobs
  and coordination rows.
\<close>

inductive other_step :: "string \<Rightarrow> string \<Rightarrow> time \<Rightarrow> mem_store \<Rightarrow> mem_store \<Rightarrow> bool"
  for i :: string and w :: string and u :: time where
  claim_next: "now < u \<Longrightarrow> other_step i w u st (snd (mem_claim_next_queued p w' now ttl st))"
| claim_id: "now < u \<Longrightarrow> other_step i w u st (snd (mem_claim_run_by_id i' p w' now ttl st))"
| renew: "w' \<noteq> w \<Longrightarrow> other_step i w u st (snd (mem_renew_run_lease i' w' now ttl st))"
| reclaim: "now < u \<Longrightarrow> other_step i w u st (snd (mem_reclaim_expired_run_leases now st))"
| create: "r_run_id r \<noteq> i \<Longrightarrow> other_step i w u st (snd (mem_create_run r st))"
| update: "r_run_id r \<noteq> i \<Longrightarrow> other_step i w u st (snd (mem_update_run r st))"
| upsert_job: "other_step i w u st (snd (mem_upsert_job j st))"
| delete_job: "other_step i w u st (snd (mem_delete_job jid st))"
| tick_claim: "other_step i w u st (snd (mem_claim_job_for_tick jid cid now ttl st))"
| once_claim: "other_step i w u st (snd (mem_try_claim_run_once jid by now ttl st))"
| post_tick: "other_step i w u st (snd (mem_persist_post_tick_job_state clk jid nra st))"
| leader: "other_step i w u st (snd (mem_try_acquire_leader now inst ttl st))"
| partition: "other_step i w u st (snd (mem_upsert_partition_assignment a st))"
| heartbeat: "other_step i w u st (snd (mem_heartbeat_worker wid t st))"

definition held :: "string \<Rightarrow> string \<Rightarrow> time \<Rightarrow> run \<Rightarrow> bool" where
  "held i w u r \<longleftrightarrow>
     r_run_id r = i \<and> r_status r \<in> {Claimed, Running} \<and> r_claimed_by r = Some w \<and>
     r_claim_lease_until r = Some u"

lemma held_not_eligible: "held i w u r \<Longrightarrow> \<not> claim_eligible p now r"
  by (auto simp: held_def claim_eligible_def)

lemma claim_next_frame:
  assumes "mem_inv st" "hm_get (m_runs st) i = Some r" "\<not> claim_eligible p now r"
  shows "hm_get (m_runs (snd (mem_claim_next_queued p w now ttl st))) i = Some r"
  using assms
  by (auto simp: mem_claim_next_queued_def hm_simps Let_def split: option.splits
      dest: pick_candidate_get)

lemma mutate_frame [simp]:
  "m_runs (snd (mutate_job clk jid f st)) = m_runs st"
  "m_runs (snd (mutate_job_at jid clk f st)) = m_runs st"
  by (auto simp: mutate_job_def mutate_job_at_def split: option.splits)

lemma job_ops_frame [simp]:
  "m_runs (snd (mem_upsert_job j st)) = m_runs st"
  "m_runs (snd (mem_delete_job jid st)) = m_runs st"
  "m_runs (snd (mem_claim_job_for_tick jid cid now ttl st)) = m_runs st"
  "m_runs (snd (mem_try_claim_run_once jid by now ttl st)) = m_runs st"
  "m_runs (snd (mem_try_acquire_leader now inst ttl st)) = m_runs st"
  "m_runs (snd (mem_upsert_partition_assignment a st)) = m_runs st"
  "m_runs (snd (mem_heartbeat_worker wid t st)) = m_runs st"
  by (auto simp: mem_upsert_job_def write_job_def mem_delete_job_def remove_job_def
      mem_claim_job_for_tick_def mem_try_claim_run_once_def mem_try_acquire_leader_def
      mem_upsert_partition_assignment_def mem_heartbeat_worker_def split: option.splits)

lemma held_not_expired: "held i w u r \<Longrightarrow> now < u \<Longrightarrow> \<not> lease_expired now r"
  by (simp add: held_def lease_expired_def is_none_or_def)

lemma requeue_not_expired [simp]: "\<not> lease_expired now (requeue r)"
  by (simp add: lease_expired_def)

lemma reclaim_row:
  "hm_get (m_runs (snd (mem_reclaim_expired_run_leases now st))) i =
     map_option (\<lambda>r. if lease_expired now r then requeue r else r) (hm_get (m_runs st) i)"
  by (simp add: mem_reclaim_expired_run_leases_def hm_simps)

lemma renew_row:
  "hm_get (m_runs st) i = Some r \<Longrightarrow> r_claimed_by r \<noteq> Some w' \<Longrightarrow>
   hm_get (m_runs (snd (mem_renew_run_lease i' w' now ttl st))) i = Some r"
  by (cases "i = i'"; cases "hm_get (m_runs st) i'") (simp_all add: mem_renew_run_lease_def hm_simps)

lemma other_step_inv: "other_step i w u st st' \<Longrightarrow> mem_inv st \<Longrightarrow> mem_inv st'"
  by (induction rule: other_step.induct) (auto intro: mem_inv_ops)

lemma other_step_row:
  assumes "other_step i w u st st'" "mem_inv st" "hm_get (m_runs st) i = Some r" "held i w u r"
  shows "hm_get (m_runs st') i = Some r"
  using assms
proof (induction rule: other_step.induct)
  case (claim_next now st p w' ttl)
  then show ?case by (auto intro: claim_next_frame dest: held_not_eligible)
next
  case (claim_id now st i' p w' ttl)
  then show ?case
    by (auto simp: mem_claim_run_by_id_def hm_simps Let_def held_not_eligible split: option.splits)
next
  case (renew w' st i' now ttl)
  then show ?case using renew_row by (simp add: held_def)
next
  case (reclaim now st)
  then show ?case by (simp add: reclaim_row held_not_expired)
qed (auto simp: mem_persist_post_tick_job_state_def mem_create_run_def mem_update_run_def hm_simps)

lemma other_steps_frame:
  assumes "(other_step i w u)\<^sup>*\<^sup>* st st'" "mem_inv st" "hm_get (m_runs st) i = Some r" "held i w u r"
  shows "mem_inv st' \<and> hm_get (m_runs st') i = Some r"
  using assms by (induction rule: rtranclp_induct) (auto dest: other_step_row other_step_inv)

section \<open>Sample states\<close>

definition sample_run :: "string \<Rightarrow> time \<Rightarrow> run" where
  "sample_run i t = run_for_job i ''job-1'' ''cleanup'' t"

definition sample_store :: mem_store where
  "sample_store = snd (mem_create_run (sample_run ''r2'' 5) (snd (mem_create_run (sample_run ''r1'' 9)
     (snd (mem_upsert_job sample_job mem_new)))))"

lemma sample_store_reachable: "mem_reachable sample_store"
  unfolding sample_store_def
  by (rule mem_reachable.step[OF mem_reachable.step[OF mem_reachable.step[OF
        mem_reachable.init mem_step.intros(1)] mem_step.intros(5)] mem_step.intros(5)])

lemma sample_store_runs:
  "m_runs sample_store = [(''r1'', sample_run ''r1'' 9), (''r2'', sample_run ''r2'' 5)]"
  by (simp add: sample_store_def mem_create_run_def mem_upsert_job_def write_job_def insert_job_def
      mem_new_def sample_run_def)

lemma sample_claim:
  "mem_claim_next_queued ''general'' ''w1'' 10 30 sample_store =
     (Inr (Some (mark_claimed ''w1'' 10 30 (sample_run ''r2'' 5))),
      sample_store\<lparr>m_runs := [(''r1'', sample_run ''r1'' 9),
         (''r2'', mark_claimed ''w1'' 10 30 (sample_run ''r2'' 5))]\<rparr>)"
  by (simp add: mem_claim_next_queued_def sample_store_runs sample_run_def claim_eligible_def
      is_some_and_def is_none_or_def pool_ok_def run_for_job_def run_new_def Let_def)

section \<open>Properties\<close>

lemma mem_names_distinct:
  assumes "mem_inv st"
  shows "distinct (map j_job_name (hm_values (m_jobs st)))"
proof -
  have "inj_on (\<lambda>x. j_job_name (snd x)) (set (m_jobs st))"
    using assms mem_jobs.name_unique[OF assms]
    by (auto simp: inj_on_def hm_entry_iff inv_hm_jobs) (metis option.inject)
  moreover have "distinct (m_jobs st)" using inv_hm_jobs[OF assms] by (auto simp: hm_ok_def distinct_map)
  ultimately show ?thesis by (simp add: hm_values_def distinct_map comp_def)
qed

lemma by_name_Some:
  assumes inv: "mem_inv st"
  shows "fst (mem_get_job_by_name n st) = Inr (Some j) \<longleftrightarrow>
         hm_get (m_jobs st) (j_job_id j) = Some j \<and> j_job_name j = n"
proof (cases "hm_get (m_jobs_by_name st) n")
  case None
  then show ?thesis using name_index_None[OF inv, of n] by (auto simp: mem_get_job_by_name_iff[OF inv])
next
  case (Some i)
  then obtain k where k: "hm_get (m_jobs st) i = Some k" "j_job_name k = n"
    using name_index[OF inv] by blast
  then have "j_job_id k = i" using job_keyD[OF inv] by blast
  with Some k show ?thesis
    using mem_jobs.name_unique[OF inv k(1), of "j_job_id j" j] by (auto simp: mem_get_job_by_name_iff[OF inv])
qed

text \<open>
  (C10) In every state the in-memory backend can reach, the name index and the job table agree:
  a lookup by name finds a job exactly when that job is stored under its identifier and carries
  the name, every stored row has the identifier it is stored under, and no two listed jobs share
  a name.
\<close>
theorem mem_store_consistent:
  assumes "mem_reachable st"
  shows "(\<forall>n j. fst (mem_get_job_by_name n st) = Inr (Some j) \<longleftrightarrow>
            fst (mem_get_job (j_job_id j) st) = Inr (Some j) \<and> j_job_name j = n) \<and>
         (\<forall>i j. fst (mem_get_job i st) = Inr (Some j) \<longrightarrow> j_job_id j = i) \<and>
         (\<exists>js. mem_list_jobs st = (Inr js, st) \<and> distinct (map j_job_name js) \<and>
               (\<forall>j. j \<in> set js \<longleftrightarrow> fst (mem_get_job (j_job_id j) st) = Inr (Some j)))"
proof -
  note inv = mem_reachable_inv[OF assms]
  have "fst (mem_get_job_by_name n st) = Inr (Some j) \<longleftrightarrow>
        fst (mem_get_job (j_job_id j) st) = Inr (Some j) \<and> j_job_name j = n" for n j
    by (simp add: by_name_Some[OF inv] mem_get_job_def)
  moreover have "j \<in> set (hm_values (m_jobs st)) \<longleftrightarrow> fst (mem_get_job (j_job_id j) st) = Inr (Some j)" for j
    using inv by (auto simp: hm_value_iff inv_hm_jobs mem_get_job_def dest: job_keyD)
  ultimately show ?thesis
    using inv by (auto simp: mem_list_jobs_def mem_names_distinct mem_get_job_def dest: job_keyD)
qed

theorem mem_store_consistent_witness:
  "fst (mem_get_job ''job-1'' sample_store) = Inr (Some sample_job) \<and>
   fst (mem_get_job_by_name ''nightly'' sample_store) = Inr (Some sample_job)"
proof -
  have g: "fst (mem_get_job (j_job_id sample_job) sample_store) = Inr (Some sample_job)"
    "j_job_id sample_job = ''job-1''" "j_job_name sample_job = ''nightly''"
    by (simp_all add: sample_store_def mem_create_run_def mem_upsert_job_def write_job_def
        mem_new_def mem_get_job_def sample_job_def job_new_def hm_simps)
  with mem_store_consistent[OF sample_store_reachable] show ?thesis by simp
qed

text \<open>
  Writing a job. When another job already holds the name, the write is refused with that
  job's identifier and the store is unchanged; otherwise the job is read back by its identifier and
  by its name, every other job is untouched, and the name the job had before (if different) no
  longer finds anything.
\<close>
lemma mem_upsert_job_read_back:
  assumes "mem_reachable st"
  shows "case mem_upsert_job j st of
      (Inl e, st') \<Rightarrow> st' = st \<and>
        (\<exists>j'. e = JobNameTaken (j_job_name j) (j_job_id j') \<and> j_job_id j' \<noteq> j_job_id j \<and>
              fst (mem_get_job_by_name (j_job_name j) st) = Inr (Some j'))
    | (Inr _, st') \<Rightarrow>
        (\<forall>i. fst (mem_get_job i st') = (if i = j_job_id j then Inr (Some j) else fst (mem_get_job i st))) \<and>
        fst (mem_get_job_by_name (j_job_name j) st') = Inr (Some j) \<and>
        (\<forall>old. fst (mem_get_job (j_job_id j) st) = Inr (Some old) \<longrightarrow> j_job_name old \<noteq> j_job_name j \<longrightarrow>
           fst (mem_get_job_by_name (j_job_name old) st') = Inr None) \<and>
        m_runs st' = m_runs st"
proof (cases "\<forall>i j'. hm_get (m_jobs st) i = Some j' \<longrightarrow> j_job_name j' = j_job_name j \<longrightarrow> i = j_job_id j")
  note inv = mem_reachable_inv[OF assms]
  case True
  have up: "mem_upsert_job j st = (Inr (), insert_job j st)" using mem_upsert_ok[OF inv True] .
  have inv': "mem_inv (insert_job j st)" using inv_upsert_job[OF inv, of j] up by simp
  have "hm_get (m_jobs_by_name (insert_job j st)) (j_job_name j) = Some (j_job_id j)"
    using inv' by (simp add: name_index)
  moreover have "hm_get (m_jobs_by_name (insert_job j st)) (j_job_name old) = None"
    if "hm_get (m_jobs st) (j_job_id j) = Some old" "j_job_name old \<noteq> j_job_name j" for old
    unfolding name_index_None[OF inv']
    using that(2) by (auto split: if_splits dest: mem_jobs.name_unique[OF inv that(1)])
  ultimately show ?thesis
    using inv' by (simp add: up mem_get_job_def mem_get_job_by_name_iff)
next
  note inv = mem_reachable_inv[OF assms]
  case False
  then obtain i j' where t: "hm_get (m_jobs st) i = Some j'" "j_job_name j' = j_job_name j" "i \<noteq> j_job_id j"
    by blast
  have "hm_get (m_jobs_by_name st) (j_job_name j) = Some i" using t inv by (simp add: name_index)
  with t show ?thesis
    using mem_upsert_taken[OF inv t] job_keyD[OF inv t(1)]
    by (auto simp: mem_get_job_by_name_iff[OF inv])
qed

lemma claim_next_cases:
  assumes "mem_inv st"
  shows "mem_claim_next_queued p w now ttl st =
     (case pick_candidate p now None (m_runs st) of
        None \<Rightarrow> (Inr None, st)
      | Some (i, r) \<Rightarrow> (Inr (Some (mark_claimed w now ttl r)),
          st\<lparr>m_runs := hm_insert (r_run_id r) (mark_claimed w now ttl r) (m_runs st)\<rparr>))"
  using pick_candidate_get[OF assms, of p now]
  by (auto simp: mem_claim_next_queued_def Let_def split: option.splits)

text \<open>
  (C21) Claiming the next run. A worker gets nothing exactly when no stored run is eligible (queued,
  due, not leased, in the worker's pool), and then nothing changes. Otherwise it gets an eligible
  run with the earliest scheduled time among the eligible ones, stamped as claimed by it until
  the end of the lease; exactly that row changes.
\<close>
theorem mem_claim_next_earliest:
  assumes "mem_reachable st"
  shows "case mem_claim_next_queued p w now ttl st of
      (Inr None, st') \<Rightarrow> st' = st \<and> (\<forall>r \<in> set (hm_values (m_runs st)). \<not> claim_eligible p now r)
    | (Inr (Some c), st') \<Rightarrow>
        (\<exists>r. hm_get (m_runs st) (r_run_id c) = Some r \<and> claim_eligible p now r \<and>
             c = r\<lparr>r_status := Claimed, r_claimed_by := Some w,
                   r_claim_lease_until := Some (add_secs now ttl)\<rparr> \<and>
             (\<forall>r' \<in> set (hm_values (m_runs st)). claim_eligible p now r' \<longrightarrow>
                r_scheduled_for r \<le> r_scheduled_for r')) \<and>
        (\<forall>i. hm_get (m_runs st') i = (if i = r_run_id c then Some c else hm_get (m_runs st) i)) \<and>
        m_jobs st' = m_jobs st
    | (Inl _, _) \<Rightarrow> False"
proof (cases "pick_candidate p now None (m_runs st)")
  note inv = mem_reachable_inv[OF assms]
  case None
  then have "\<forall>r \<in> set (hm_values (m_runs st)). \<not> claim_eligible p now r"
    using pick_none_iff[OF inv] by (auto simp: hm_value_iff inv_hm_runs[OF inv])
  with None show ?thesis by (simp add: claim_next_cases[OF inv])
next
  note inv = mem_reachable_inv[OF assms]
  case (Some x)
  obtain i r where x: "x = (i, r)" by (cases x)
  have g: "hm_get (m_runs st) i = Some r" "claim_eligible p now r" "r_run_id r = i"
    using pick_candidate_get[OF inv] Some x by auto
  have "\<forall>r' \<in> set (hm_values (m_runs st)). claim_eligible p now r' \<longrightarrow> r_scheduled_for r \<le> r_scheduled_for r'"
    using pick_earliest[OF inv Some[unfolded x]] by (auto simp: hm_value_iff inv_hm_runs[OF inv])
  with g show ?thesis by (simp add: claim_next_cases[OF inv] Some x hm_simps mark_claimed_def)
qed

theorem mem_claim_next_earliest_witness:
  "\<exists>st'. mem_claim_next_queued ''general'' ''w1'' 10 30 sample_store =
     (Inr (Some (mark_claimed ''w1'' 10 30 (sample_run ''r2'' 5))), st') \<and>
     hm_get (m_runs st') ''r2'' = Some (mark_claimed ''w1'' 10 30 (sample_run ''r2'' 5))"
proof -
  have "r_run_id (mark_claimed ''w1'' 10 30 (sample_run ''r2'' 5)) = ''r2''" by (simp add: sample_run_def)
  with mem_claim_next_earliest[OF sample_store_reachable, where p = "''general''" and w = "''w1''" and now = 10 and ttl = 30]
  show ?thesis unfolding sample_claim by simp
qed



text \<open>
  Reclaiming at an instant touches exactly the runs whose lease has ended by then: their
  identifiers are returned (each once), they go back to the queue with claim and start cleared,
  and every other run keeps its row; afterwards no lease that has ended is left to reclaim.
\<close>
lemma mem_reclaim_exactly_expired:
  assumes "mem_reachable st"
  shows "case mem_reclaim_expired_run_leases now st of
      (Inr ids, st') \<Rightarrow>
        distinct ids \<and>
        (\<forall>i. i \<in> set ids \<longleftrightarrow>
           (\<exists>r u. hm_get (m_runs st) i = Some r \<and> r_status r \<in> {Claimed, Running} \<and>
                  r_claim_lease_until r = Some u \<and> u \<le> now)) \<and>
        (\<forall>i. hm_get (m_runs st') i =
           map_option (\<lambda>r. if i \<in> set ids
             then r\<lparr>r_status := Queued, r_claimed_by := None, r_claim_lease_until := None,
                    r_started_at := None\<rparr> else r) (hm_get (m_runs st) i)) \<and>
        fst (mem_reclaim_expired_run_leases now st') = Inr []
    | (Inl _, _) \<Rightarrow> False"
proof -
  note inv = mem_reachable_inv[OF assms]
  let ?ids = "map fst (filter (\<lambda>(i, r). lease_expired now r) (m_runs st))"
  have d: "distinct ?ids"
    using inv_hm_runs[OF inv] by (auto simp: hm_ok_def distinct_map_filter)
  have ids: "i \<in> set ?ids \<longleftrightarrow> (\<exists>r. hm_get (m_runs st) i = Some r \<and> lease_expired now r)" for i
    using inv by (force simp: hm_entry_iff inv_hm_runs)
  have le: "lease_expired now r \<longleftrightarrow> r_status r \<in> {Claimed, Running} \<and>
       (\<exists>u. r_claim_lease_until r = Some u \<and> u \<le> now)" for r
    by (auto simp: lease_expired_def is_none_or_def not_less split: option.splits)
  have "hm_get (m_runs (snd (mem_reclaim_expired_run_leases now st))) i =
     map_option (\<lambda>r. if i \<in> set ?ids then requeue r else r) (hm_get (m_runs st) i)" for i
    unfolding reclaim_row ids by (cases "hm_get (m_runs st) i") auto
  moreover have "filter (\<lambda>(i, r). lease_expired now r)
      (map (\<lambda>(i, r). (i, if lease_expired now r then requeue r else r)) (m_runs st)) = []"
    by (auto simp: filter_empty_conv split: if_splits)
  moreover have "i \<in> set ?ids \<longleftrightarrow>
           (\<exists>r u. hm_get (m_runs st) i = Some r \<and> r_status r \<in> {Claimed, Running} \<and>
                  r_claim_lease_until r = Some u \<and> u \<le> now)" for i
    unfolding ids by (auto simp: le)
  ultimately show ?thesis
    using d unfolding requeue_def[symmetric]
    by (simp add: mem_reclaim_expired_run_leases_def del: set_map set_filter)
qed

text \<open>
  (C22) Coordinator claims exclude each other. A run-once claim that succeeds keeps every other
  claimant out until it expires, and once the job is marked completed nobody can claim it again,
  at any time; a tick claim that succeeds keeps every other coordinator out up to and including
  the end of its lease.
\<close>
theorem mem_coordinator_claims_exclusive:
  assumes "mem_reachable st"
  shows "(\<forall>i a now ttl st1. mem_try_claim_run_once i a now ttl st = (Inr True, st1) \<longrightarrow>
            (\<forall>b now' ttl'. b \<noteq> a \<longrightarrow> now' < add_secs now ttl \<longrightarrow>
               mem_try_claim_run_once i b now' ttl' st1 = (Inr False, st1)) \<and>
            (\<forall>clk at st2 b now' ttl'. mem_mark_run_once_completed clk i at st1 = (Inr (), st2) \<longrightarrow>
               mem_try_claim_run_once i b now' ttl' st2 = (Inr False, st2))) \<and>
         (\<forall>i cid now ttl st1. mem_claim_job_for_tick i cid now ttl st = (Inr True, st1) \<longrightarrow>
            (\<forall>cid' now' ttl'. now' \<le> add_secs now ttl \<longrightarrow>
               mem_claim_job_for_tick i cid' now' ttl' st1 = (Inr False, st1)))"
proof -
  note inv = mem_reachable_inv[OF assms]
  have ops: "so_try_claim_run_once mem_ops = mem_try_claim_run_once"
    "so_mark_run_once_completed mem_ops = mem_mark_run_once_completed"
    "so_claim_job_for_tick mem_ops = mem_claim_job_for_tick"
    by (simp_all add: mem_ops_def)
  have "mem_try_claim_run_once i b now' ttl' st2 = (Inr False, st2)"
    if "mem_try_claim_run_once i a now ttl st = (Inr True, st1)"
      "mem_mark_run_once_completed clk i at st1 = (Inr (), st2)"
    for i a now ttl st1 clk "at" st2 b now' ttl'
    using mem.once_claimed_row[OF inv, unfolded ops, OF that(1)]
      mem.once_completed_refused[unfolded ops, OF _ _ that(2)] by auto
  note completed = this
  show ?thesis
  proof (intro conjI allI impI, goal_cases)
    case 1 then show ?case by (rule mem.once_claim_exclusive[OF inv, unfolded ops])
  next
    case 2 then show ?case by (rule completed)
  next
    case 3 then show ?case by (rule mem.tick_claim_exclusive[OF inv, unfolded ops])
  qed
qed

theorem mem_coordinator_claims_exclusive_witness:
  "let st1 = snd (mem_claim_job_for_tick ''job-1'' ''c1'' 10 30 sample_store)
   in fst (mem_claim_job_for_tick ''job-1'' ''c1'' 10 30 sample_store) = Inr True \<and>
      mem_claim_job_for_tick ''job-1'' ''c2'' 20 30 st1 = (Inr False, st1)"
proof -
  let ?st1 = "snd (mem_claim_job_for_tick ''job-1'' ''c1'' 10 30 sample_store)"
  have e: "mem_claim_job_for_tick ''job-1'' ''c1'' 10 30 sample_store = (Inr True, ?st1)"
    by (simp add: mem_claim_job_for_tick_def sample_store_def mem_create_run_def mem_upsert_job_def
        write_job_def insert_job_def mem_new_def sample_job_def job_new_def is_some_and_def)
  have "(20::int) \<le> add_secs 10 30" by (simp add: add_secs_def)
  then have "mem_claim_job_for_tick ''job-1'' ''c2'' 20 30 ?st1 = (Inr False, ?st1)"
    using conjunct2[OF mem_coordinator_claims_exclusive[OF sample_store_reachable]] e by blast
  with e show ?thesis unfolding Let_def by (metis fst_conv)
qed

text \<open>
  (C23) The due-job query of the coordinator returns at most the requested number of identifiers,
  each of a stored job that is enabled, scheduled, due, in an owned partition, not leased and not
  a completed run-once job; in order of their due time; and a due job is left out only when the
  limit is reached by jobs that are due no later.
\<close>
theorem mem_find_due_exact:
  assumes "mem_reachable st" "owned \<noteq> []" "0 < limit"
  shows "\<exists>js. mem_find_due_job_ids_in_partitions now owned due_until limit st = (Inr (map j_job_id js), st) \<and>
     length js \<le> limit \<and> distinct (map j_job_id js) \<and>
     sorted (map (\<lambda>j. the (j_next_run_at j)) js) \<and>
     (\<forall>j \<in> set js. hm_get (m_jobs st) (j_job_id j) = Some j \<and> due_in_partitions now owned due_until j) \<and>
     (\<forall>i j. hm_get (m_jobs st) i = Some j \<and> due_in_partitions now owned due_until j \<and> j \<notin> set js \<longrightarrow>
        length js = limit \<and> (\<forall>j' \<in> set js. the (j_next_run_at j') \<le> the (j_next_run_at j)))"
proof -
  note inv = mem_reachable_inv[OF assms(1)]
  define xs where "xs = filter (due_in_partitions now owned due_until) (hm_values (m_jobs st))"
  define f where "f = (\<lambda>j :: job. opt_or (j_next_run_at j) due_until)"
  define js where "js = take limit (sort_key f xs)"
  have xs: "j \<in> set xs \<longleftrightarrow> hm_get (m_jobs st) (j_job_id j) = Some j \<and> due_in_partitions now owned due_until j" for j
    using inv by (auto simp: xs_def hm_value_iff inv_hm_jobs dest: job_keyD)
  have f: "f j = the (j_next_run_at j)" if "due_in_partitions now owned due_until j" for j
    using that by (auto simp: f_def opt_or_def due_in_partitions_def is_some_and_def split: option.splits)
  have js: "set js \<subseteq> set xs" by (auto simp: js_def dest: in_set_takeD)
  have d: "distinct (map j_job_id js)" unfolding js_def xs_def by (rule due_ids_distinct[OF inv])
  have "sorted (map f js)"
    using sorted_sort_key[of f xs] by (auto simp: js_def take_map[symmetric] intro: sorted_wrt_take)
  then have s: "sorted (map (\<lambda>j. the (j_next_run_at j)) js)"
    using f js xs by (metis (mono_tags, lifting) map_eq_conv subset_iff)
  have "length js = limit \<and> (\<forall>j' \<in> set js. the (j_next_run_at j') \<le> the (j_next_run_at j))"
    if "j \<in> set xs" "j \<notin> set js" for j
  proof
    show "length js = limit"
    proof (rule ccontr)
      assume "length js \<noteq> limit"
      then have "js = sort_key f xs" by (auto simp: js_def)
      with that show False by simp
    qed
    show "\<forall>j' \<in> set js. the (j_next_run_at j') \<le> the (j_next_run_at j)"
      using take_sort_key_least[OF that(1), of limit f] that js xs f unfolding js_def by (metis subsetD)
  qed
  then have c: "\<forall>i j. hm_get (m_jobs st) i = Some j \<and> due_in_partitions now owned due_until j \<and> j \<notin> set js \<longrightarrow>
        length js = limit \<and> (\<forall>j' \<in> set js. the (j_next_run_at j') \<le> the (j_next_run_at j))"
    using job_keyD[OF inv] xs by blast
  have "mem_find_due_job_ids_in_partitions now owned due_until limit st = (Inr (map j_job_id js), st)"
    using assms(2,3) by (simp add: mem_find_due_job_ids_in_partitions_def js_def f_def xs_def)
  moreover have "length js \<le> limit" by (simp add: js_def)
  moreover have "\<forall>j \<in> set js. hm_get (m_jobs st) (j_job_id j) = Some j \<and> due_in_partitions now owned due_until j"
    using js xs by blast
  ultimately show ?thesis using d s c by blast
qed

definition due_sample :: mem_store where
  "due_sample = snd (mem_upsert_job
     (sample_job\<lparr>j_next_run_at := Some 50, j_partition_hash := Some 2\<rparr>) mem_new)"

theorem mem_find_due_exact_witness:
  "fst (mem_find_due_job_ids_in_partitions 60 [2, 5] 70 10 due_sample) = Inr [''job-1'']"
proof -
  have r: "mem_reachable due_sample"
    unfolding due_sample_def by (rule mem_reachable.step[OF mem_reachable.init mem_step.intros(1)])
  have g: "m_jobs due_sample = [(''job-1'', sample_job\<lparr>j_next_run_at := Some 50, j_partition_hash := Some 2\<rparr>)]"
    and due: "due_in_partitions 60 [2, 5] 70 (sample_job\<lparr>j_next_run_at := Some 50, j_partition_hash := Some 2\<rparr>)"
    and id: "j_job_id sample_job = ''job-1''"
    by (simp_all add: due_sample_def mem_upsert_job_def write_job_def insert_job_def mem_new_def
        sample_job_def job_new_def due_in_partitions_def is_some_and_def is_none_or_def)
  obtain js where js: "mem_find_due_job_ids_in_partitions 60 [2, 5] 70 10 due_sample = (Inr (map j_job_id js), due_sample)"
    "distinct (map j_job_id js)"
    "\<forall>j \<in> set js. hm_get (m_jobs due_sample) (j_job_id j) = Some j \<and> due_in_partitions 60 [2, 5] 70 j"
    "\<forall>i j. hm_get (m_jobs due_sample) i = Some j \<and> due_in_partitions 60 [2, 5] 70 j \<and> j \<notin> set js \<longrightarrow> length js = 10"
    using mem_find_due_exact[OF r, of "[2, 5]" 10 60 70] by auto
  have sub: "set (map j_job_id js) \<subseteq> {''job-1''}" using js(3) by (auto simp: g split: if_splits)
  have "length js \<le> 1"
    using card_mono[OF _ sub] distinct_card[OF js(2)] by simp
  then have "sample_job\<lparr>j_next_run_at := Some 50, j_partition_hash := Some 2\<rparr> \<in> set js"
    using js(4) due by (force simp: g)
  then have "js = [sample_job\<lparr>j_next_run_at := Some 50, j_partition_hash := Some 2\<rparr>]"
    using \<open>length js \<le> 1\<close> by (cases js) auto
  with js(1) id show ?thesis by simp
qed

end
