(* ===== verification/Election.thy ===== *)
theory Election
  imports Leader Mem_Props
begin

text \<open>
  Several coordinators race for the leader row of one store. Their store calls interleave freely:
  a step of the cluster is one store call of one elector, or the passing of time. The abstract
  phases follow \<^verbatim>\<open>LeaderElector::step_once\<close>, which is shown to run along them; the safety result is
  that two electors never lead at the same time on leases that have not ended.
\<close>

datatype phase = Standby | Leading | Confirming

record 's cluster =
  cl_store :: 's
  cl_now :: time
  cl_phase :: "string \<Rightarrow> phase"
  cl_until :: "string \<Rightarrow> time"

text \<open>
  \<open>cl_until i\<close> is the lease end that instance \<open>i\<close> last obtained or read back. The shared flag of an
  instance is up in the phases \<open>Leading\<close> and \<open>Confirming\<close>.
\<close>

inductive election_step ::
  "'s scheduler_store \<Rightarrow> int \<Rightarrow> 's cluster \<Rightarrow> 's cluster \<Rightarrow> bool" for S ttl where
  time_passes: "cl_now c \<le> t \<Longrightarrow> election_step S ttl c (c\<lparr>cl_now := t\<rparr>)"
| acquired:
    "cl_phase c i = Standby \<Longrightarrow> so_try_acquire_leader S (cl_now c) i ttl (cl_store c) = (Inr True, s) \<Longrightarrow>
     election_step S ttl c (c\<lparr>cl_store := s, cl_phase := (cl_phase c)(i := Leading),
       cl_until := (cl_until c)(i := add_secs (cl_now c) ttl)\<rparr>)"
| refused:
    "cl_phase c i = Standby \<Longrightarrow> so_try_acquire_leader S (cl_now c) i ttl (cl_store c) = (r, s) \<Longrightarrow>
     r \<noteq> Inr True \<Longrightarrow> election_step S ttl c (c\<lparr>cl_store := s\<rparr>)"
| renewed:
    "cl_phase c i = Leading \<Longrightarrow> so_renew_leader_lease S (cl_now c) i ttl (cl_store c) = (r, s) \<Longrightarrow>
     election_step S ttl c (c\<lparr>cl_store := s, cl_phase := (cl_phase c)(i := Confirming)\<rparr>)"
| confirmed:
    "cl_phase c i = Confirming \<Longrightarrow> so_get_leader S (cl_store c) = (Inr (Some l), s) \<Longrightarrow>
     l_leader_instance_id l = i \<Longrightarrow> cl_now c < l_leader_lease_until l \<Longrightarrow>
     election_step S ttl c (c\<lparr>cl_store := s, cl_phase := (cl_phase c)(i := Leading),
       cl_until := (cl_until c)(i := l_leader_lease_until l)\<rparr>)"
| lost:
    "cl_phase c i = Confirming \<Longrightarrow> so_get_leader S (cl_store c) = (r, s) \<Longrightarrow>
     \<not> (\<exists>l. r = Inr (Some l) \<and> l_leader_instance_id l = i \<and> cl_now c < l_leader_lease_until l) \<Longrightarrow>
     election_step S ttl c (c\<lparr>cl_store := s, cl_phase := (cl_phase c)(i := Standby)\<rparr>)"

definition election_init :: "'s \<Rightarrow> time \<Rightarrow> 's cluster" where
  "election_init s t = \<lparr>cl_store = s, cl_now = t, cl_phase = (\<lambda>_. Standby), cl_until = (\<lambda>_. t)\<rparr>"

section \<open>Safety\<close>

context leader_row
begin

definition election_inv :: "int \<Rightarrow> 's cluster \<Rightarrow> bool" where
  "election_inv ttl c \<longleftrightarrow>
     invar (cl_store c) \<and>
     (\<forall>l. leader_of (cl_store c) = Some l \<longrightarrow> l_leader_lease_until l \<le> add_secs (cl_now c) ttl) \<and>
     (\<forall>i. cl_phase c i \<noteq> Standby \<and> cl_now c < cl_until c i \<longrightarrow>
        (\<exists>l. leader_of (cl_store c) = Some l \<and> l_leader_instance_id l = i \<and>
             cl_until c i \<le> l_leader_lease_until l))"

lemma election_invD:
  assumes "election_inv ttl c"
  shows "invar (cl_store c)"
    "leader_of (cl_store c) = Some l \<Longrightarrow> l_leader_lease_until l \<le> add_secs (cl_now c) ttl"
    "cl_phase c i \<noteq> Standby \<Longrightarrow> cl_now c < cl_until c i \<Longrightarrow>
       \<exists>l. leader_of (cl_store c) = Some l \<and> l_leader_instance_id l = i \<and>
           cl_until c i \<le> l_leader_lease_until l"
  using assms by (auto simp: election_inv_def)

lemma election_step_inv:
  assumes "election_step S ttl c c'" "election_inv ttl c" "0 < ttl"
  shows "election_inv ttl c'"
  using assms(1,2)
proof (cases rule: election_step.cases)
  case (time_passes t)
  have "l_leader_lease_until l \<le> add_secs t ttl" if "leader_of (cl_store c) = Some l" for l
    using election_invD(2)[OF assms(2) that] time_passes(2) by (simp add: add_secs_def)
  with election_invD(1,3)[OF assms(2)] time_passes show ?thesis by (simp add: election_inv_def)
next
  case (acquired i s)
  have inv: "invar (cl_store c)" using assms(2) by (simp add: election_inv_def)
  have free: "\<not> leader_live_other (cl_now c) i (leader_of (cl_store c))"
    using acquire_no[OF inv] acquired(3) by force
  obtain l where l: "invar s" "leader_of s = Some l" "l_leader_instance_id l = i"
    "l_leader_lease_until l = add_secs (cl_now c) ttl"
    using acquire_yes[OF inv free, of ttl] acquired(3) by auto
  have "\<not> cl_now c < cl_until c j" if "j \<noteq> i" "cl_phase c j \<noteq> Standby" for j
  proof
    assume "cl_now c < cl_until c j"
    with that(2) assms(2) obtain l' where "leader_of (cl_store c) = Some l'"
      "l_leader_instance_id l' = j" "cl_until c j \<le> l_leader_lease_until l'"
      by (auto simp: election_inv_def)
    with free that(1) \<open>cl_now c < cl_until c j\<close> show False by (auto simp: leader_live_other_def)
  qed
  with l acquired show ?thesis by (auto simp: election_inv_def)
next
  case (refused i r s)
  have inv: "invar (cl_store c)" using assms(2) by (simp add: election_inv_def)
  have "leader_live_other (cl_now c) i (leader_of (cl_store c))"
    using acquire_yes[OF inv, of "cl_now c" i ttl] refused(3,4) by fastforce
  with acquire_no[OF inv, of "cl_now c" i ttl] refused assms(2) show ?thesis by simp
next
  case (renewed i r s)
  have inv: "invar (cl_store c)" using assms(2) by (simp add: election_inv_def)
  show ?thesis
  proof (cases "\<exists>l. leader_of (cl_store c) = Some l \<and> l_leader_instance_id l = i")
    case True
    then obtain l where l: "leader_of (cl_store c) = Some l" "l_leader_instance_id l = i" by blast
    obtain l' where l': "invar s" "leader_of s = Some l'" "l_leader_instance_id l' = i"
      "l_leader_lease_until l' = add_secs (cl_now c) ttl"
      using renew_mine[OF inv l, of "cl_now c" ttl] renewed(3) by auto
    have "l_leader_lease_until l \<le> add_secs (cl_now c) ttl" using l assms(2) by (simp add: election_inv_def)
    moreover have "j = i \<and> cl_until c j \<le> l_leader_lease_until l"
      if "cl_phase c j \<noteq> Standby" "cl_now c < cl_until c j" for j
      using election_invD(3)[OF assms(2) that] l by auto
    ultimately have "j = i \<and> cl_until c j \<le> add_secs (cl_now c) ttl"
      if "((cl_phase c)(i := Confirming)) j \<noteq> Standby" "cl_now c < cl_until c j" for j
      using that renewed(2) by (cases "j = i") force+
    note known = this
    show ?thesis
      unfolding election_inv_def
    proof (intro conjI allI impI, goal_cases)
      case (3 j)
      then have "((cl_phase c)(i := Confirming)) j \<noteq> Standby" "cl_now c < cl_until c j"
        unfolding renewed(1) by simp_all
      from known[OF this] have "j = i" "cl_until c j \<le> add_secs (cl_now c) ttl" by blast+
      then show ?case by (intro exI[of _ l']) (simp add: renewed(1) l')
    qed (use l' renewed(1) in auto)
  next
    case False
    then have "s = cl_store c" using renew_other[OF inv, of i "cl_now c" ttl] renewed(3) by auto
    with renewed assms(2) show ?thesis by (auto simp: election_inv_def)
  qed
next
  case (confirmed i l s)
  then have "leader_of (cl_store c) = Some l" "s = cl_store c"
    using get_leader[OF election_invD(1)[OF assms(2)]] by auto
  with confirmed assms(2) show ?thesis by (auto simp: election_inv_def)
next
  case (lost i r s)
  then show ?thesis using assms(2) get_leader[of "cl_store c"] by (auto simp: election_inv_def)
qed

lemma election_steps_inv:
  "(election_step S ttl)\<^sup>*\<^sup>* c c' \<Longrightarrow> election_inv ttl c \<Longrightarrow> 0 < ttl \<Longrightarrow> election_inv ttl c'"
  by (induction rule: rtranclp_induct) (auto intro: election_step_inv)

lemma election_inv_single:
  "election_inv ttl c \<Longrightarrow> cl_phase c i \<noteq> Standby \<Longrightarrow> cl_now c < cl_until c i \<Longrightarrow>
   cl_phase c j \<noteq> Standby \<Longrightarrow> cl_now c < cl_until c j \<Longrightarrow> i = j"
  using election_invD(3)[of ttl c i] election_invD(3)[of ttl c j] by auto

lemma election_inv_init:
  "invar s \<Longrightarrow> leader_of s = None \<Longrightarrow> election_inv ttl (election_init s t)"
  by (simp add: election_inv_def election_init_def)

end

text \<open>
  (C3) At most one leader. However the electors of a cluster interleave their store calls on the
  in-memory backend, starting from a store nobody leads, two instances whose flag is up and whose
  known lease has not ended are the same instance, and the leader row names it.
\<close>
theorem single_live_leader:
  assumes "mem_reachable st" "m_leader st = None" "0 < ttl"
    "(election_step mem_ops ttl)\<^sup>*\<^sup>* (election_init st t) c"
    "cl_phase c i \<noteq> Standby" "cl_now c < cl_until c i"
  shows "(\<exists>l. m_leader (cl_store c) = Some l \<and> l_leader_instance_id l = i \<and>
            cl_now c < l_leader_lease_until l) \<and>
         (\<forall>j. cl_phase c j \<noteq> Standby \<and> cl_now c < cl_until c j \<longrightarrow> j = i)"
proof -
  have inv: "mem_leader.election_inv ttl c"
    by (rule mem_leader.election_steps_inv[OF assms(4) mem_leader.election_inv_init assms(3)])
      (use assms in \<open>auto intro: mem_reachable_inv\<close>)
  then show ?thesis
    using assms(5,6) mem_leader.election_inv_single[OF inv] mem_leader.election_invD(3)[OF inv assms(5,6)]
    by (meson order_less_le_trans)
qed

definition lead_sample :: "mem_store cluster" where
  "lead_sample = (let c = election_init mem_new 100 in
     c\<lparr>cl_store := snd (mem_try_acquire_leader 100 ''a'' 30 mem_new),
       cl_phase := (cl_phase c)(''a'' := Leading), cl_until := (cl_until c)(''a'' := add_secs 100 30)\<rparr>)"

theorem single_live_leader_witness:
  "\<exists>l. m_leader (cl_store lead_sample) = Some l \<and> l_leader_instance_id l = ''a'' \<and>
       cl_now lead_sample < l_leader_lease_until l"
proof -
  have "election_step mem_ops 30 (election_init mem_new 100) lead_sample"
    using election_step.acquired[of "election_init mem_new 100" "''a''" mem_ops 30
        "snd (mem_try_acquire_leader 100 ''a'' 30 mem_new)"]
    by (simp add: lead_sample_def election_init_def mem_ops_def mem_try_acquire_leader_def mem_new_def
        is_some_and_def Let_def)
  then have r: "(election_step mem_ops 30)\<^sup>*\<^sup>* (election_init mem_new 100) lead_sample" by simp
  have m: "m_leader mem_new = None" by (simp add: mem_new_def)
  have p: "cl_phase lead_sample ''a'' \<noteq> Standby" "cl_now lead_sample < cl_until lead_sample ''a''"
    by (simp_all add: lead_sample_def election_init_def Let_def add_secs_def)
  from single_live_leader[OF mem_reachable.init m _ r p] show ?thesis by simp
qed

section \<open>The elector runs along the phases\<close>

text \<open>The cluster state that corresponds to an elector between two steps.\<close>

definition el_matches :: "elector \<Rightarrow> 's world \<Rightarrow> 's cluster \<Rightarrow> bool" where
  "el_matches el w c \<longleftrightarrow>
     cl_store c = w_store w \<and> cl_now c \<le> w_clock w (w_reads w) \<and>
     cl_phase c (el_instance_id el) = (if el_is_leader el then Leading else Standby)"

definition others_keep :: "string \<Rightarrow> 's cluster \<Rightarrow> 's cluster \<Rightarrow> bool" where
  "others_keep i c c' \<longleftrightarrow> (\<forall>j. j \<noteq> i \<longrightarrow> cl_phase c' j = cl_phase c j \<and> cl_until c' j = cl_until c j)"

lemma at_time: "cl_now c \<le> t \<Longrightarrow> (election_step S ttl)\<^sup>*\<^sup>* c (c\<lparr>cl_now := t\<rparr>)"
  by (intro r_into_rtranclp election_step.time_passes)

lemma acquire_simulated:
  assumes "el_matches el w c" "\<not> el_is_leader el" "\<forall>n. w_clock w n \<le> w_clock w (Suc n)"
  shows "wp (step_once S el a) (\<lambda>(el', a') w'. \<exists>c'.
     (election_step S (leader_ttl_secs_from_env (w_env w)))\<^sup>*\<^sup>* c c' \<and>
     el_matches el' w' c' \<and> others_keep (el_instance_id el) c c') w"
proof -
  let ?i = "el_instance_id el" let ?t = "w_clock w (w_reads w)"
  let ?ttl = "leader_ttl_secs_from_env (w_env w)"
  obtain r s where op: "so_try_acquire_leader S ?t ?i ?ttl (w_store w) = (r, s)" by force
  let ?c1 = "c\<lparr>cl_now := ?t\<rparr>"
  have t: "(election_step S ?ttl)\<^sup>*\<^sup>* c ?c1" using assms(1) by (intro at_time) (simp add: el_matches_def)
  have ph: "cl_phase ?c1 ?i = Standby" and st: "cl_store ?c1 = w_store w"
    using assms(1,2) by (simp_all add: el_matches_def)
  have run: "run_state (step_once S el a) w =
     (if r = Inr True then (el\<lparr>el_is_leader := True\<rparr>, assign_all_embedded a) else (el, a),
      (if r = Inr False then id else (\<lambda>w. w\<lparr>w_tele := w_tele w @
         [case r of Inl e \<Rightarrow> warn_event ''leader_elector'' e | Inr _ \<Rightarrow> leader_event ?i ''acquired'']\<rparr>))
        (w\<lparr>w_reads := Suc (w_reads w), w_store := s\<rparr>))"
    using assms(2) op
    by (cases r) (auto simp: step_once_def try_acquire_leader_def world_simps split: bool.splits)
  show ?thesis
  proof (cases "r = Inr True")
    case True
    let ?c2 = "?c1\<lparr>cl_store := s, cl_phase := (cl_phase ?c1)(?i := Leading),
       cl_until := (cl_until ?c1)(?i := add_secs ?t ?ttl)\<rparr>"
    have "election_step S ?ttl ?c1 ?c2"
      using election_step.acquired[of ?c1 ?i S ?ttl s] ph op st True by simp
    with t have "(election_step S ?ttl)\<^sup>*\<^sup>* c ?c2" by (rule rtranclp.rtrancl_into_rtrancl)
    moreover have "el_matches (el\<lparr>el_is_leader := True\<rparr>) (snd (run_state (step_once S el a) w)) ?c2"
      using assms(3) True by (simp add: run el_matches_def)
    moreover have "others_keep ?i c ?c2" by (simp add: others_keep_def)
    ultimately show ?thesis unfolding wp_run using True by (auto simp: run)
  next
    case False
    let ?c2 = "?c1\<lparr>cl_store := s\<rparr>"
    have "election_step S ?ttl ?c1 ?c2"
      using election_step.refused[of ?c1 ?i S ?ttl r s] ph op st False by simp
    with t have "(election_step S ?ttl)\<^sup>*\<^sup>* c ?c2" by (rule rtranclp.rtrancl_into_rtrancl)
    moreover have "el_matches el (snd (run_state (step_once S el a) w)) ?c2"
      using assms(2,3) ph False by (simp add: run el_matches_def)
    moreover have "others_keep ?i c ?c2" by (simp add: others_keep_def)
    ultimately show ?thesis unfolding wp_run using False by (auto simp: run)
  qed
qed

lemma renew_simulated:
  assumes "el_matches el w c" "el_is_leader el" "\<forall>n. w_clock w n \<le> w_clock w (Suc n)"
  shows "wp (step_once S el a) (\<lambda>(el', a') w'. \<exists>c'.
     (election_step S (leader_ttl_secs_from_env (w_env w)))\<^sup>*\<^sup>* c c' \<and>
     el_matches el' w' c' \<and> others_keep (el_instance_id el) c c') w"
proof -
  let ?i = "el_instance_id el" let ?t = "w_clock w (w_reads w)"
  let ?t' = "w_clock w (Suc (w_reads w))"
  let ?ttl = "leader_ttl_secs_from_env (w_env w)"
  obtain r s where op: "so_renew_leader_lease S ?t ?i ?ttl (w_store w) = (r, s)" by force
  obtain g s' where get: "so_get_leader S s = (g, s')" by force
  let ?live = "\<exists>l. g = Inr (Some l) \<and> l_leader_instance_id l = ?i \<and> ?t' < l_leader_lease_until l"
  define w' where "w' = snd (run_state (step_once S el a) w)"
  have run: "fst (run_state (step_once S el a) w) =
      (if ?live then (el, a) else (el\<lparr>el_is_leader := False\<rparr>, release_all a))"
    and w': "w_store w' = s'" "w_clock w' = w_clock w" "Suc (w_reads w) \<le> w_reads w'"
    using assms(2) op get
    by (auto simp: w'_def step_once_def renew_leader_lease_def am_i_leader_def current_leader_def
        bind_ok_def world_simps split: sum.splits option.splits)
  let ?c1 = "c\<lparr>cl_now := ?t\<rparr>"
  let ?c2 = "?c1\<lparr>cl_store := s, cl_phase := (cl_phase ?c1)(?i := Confirming)\<rparr>"
  let ?c3 = "?c2\<lparr>cl_now := ?t'\<rparr>"
  have m: "cl_store c = w_store w" "cl_now c \<le> ?t" "cl_phase c ?i = Leading"
    using assms(1,2) by (simp_all add: el_matches_def)
  have "election_step S ?ttl ?c1 ?c2"
    using election_step.renewed[of ?c1 ?i S ?ttl r s] m op by simp
  moreover have "(election_step S ?ttl)\<^sup>*\<^sup>* ?c2 ?c3" using assms(3) by (intro at_time) simp
  ultimately have c3: "(election_step S ?ttl)\<^sup>*\<^sup>* c ?c3" using at_time[OF m(2), of S ?ttl]
    by (meson rtranclp.rtrancl_into_rtrancl rtranclp_trans)
  have later: "?t' \<le> w_clock w (w_reads w')"
    using lift_Suc_mono_le[of "w_clock w", OF spec[OF assms(3)] w'(3)] .
  show ?thesis
  proof (cases ?live)
    case True
    then obtain l where l: "g = Inr (Some l)" "l_leader_instance_id l = ?i" "?t' < l_leader_lease_until l" by blast
    let ?c4 = "?c3\<lparr>cl_store := s', cl_phase := (cl_phase ?c3)(?i := Leading),
       cl_until := (cl_until ?c3)(?i := l_leader_lease_until l)\<rparr>"
    have "election_step S ?ttl ?c3 ?c4"
      using election_step.confirmed[of ?c3 ?i S l s' ?ttl] l get by simp
    with c3 have "(election_step S ?ttl)\<^sup>*\<^sup>* c ?c4" by (rule rtranclp.rtrancl_into_rtrancl)
    moreover have "el_matches el w' ?c4" using assms(2) w' later by (simp add: el_matches_def)
    moreover have "others_keep ?i c ?c4" by (simp add: others_keep_def)
    ultimately show ?thesis unfolding wp_run w'_def[symmetric] run using True by auto
  next
    case False
    let ?c4 = "?c3\<lparr>cl_store := s', cl_phase := (cl_phase ?c3)(?i := Standby)\<rparr>"
    have "election_step S ?ttl ?c3 ?c4"
      using election_step.lost[of ?c3 ?i S g s' ?ttl] False get by simp
    with c3 have "(election_step S ?ttl)\<^sup>*\<^sup>* c ?c4" by (rule rtranclp.rtrancl_into_rtrancl)
    moreover have "el_matches (el\<lparr>el_is_leader := False\<rparr>) w' ?c4" using w' later by (simp add: el_matches_def)
    moreover have "others_keep ?i c ?c4" by (simp add: others_keep_def)
    ultimately show ?thesis unfolding wp_run w'_def[symmetric] run using False by auto
  qed
qed

text \<open>
  (C7) The code of one election step runs along the abstract phases: for every store and every clock
  that does not run backwards, the store, the flag and the clock after \<^verbatim>\<open>step_once\<close> are those of a
  cluster state that is reached by election steps of this instance alone, the other instances
  keeping their phases and leases.
\<close>
theorem step_once_simulated:
  assumes "el_matches el w c" "\<forall>n. w_clock w n \<le> w_clock w (Suc n)"
  shows "case run_state (step_once S el a) w of ((el', a'), w') \<Rightarrow> \<exists>c'.
     (election_step S (leader_ttl_secs_from_env (w_env w)))\<^sup>*\<^sup>* c c' \<and>
     el_matches el' w' c' \<and> others_keep (el_instance_id el) c c'"
  using acquire_simulated[OF assms(1) _ assms(2)] renew_simulated[OF assms(1) _ assms(2)]
  by (cases "el_is_leader el") (fastforce simp: wp_def split: prod.splits)+

definition sample_world :: "'s \<Rightarrow> 's world" where
  "sample_world s = \<lparr>w_store = s, w_clock = (\<lambda>n. 100 + int n), w_reads = 0,
     w_uuid = (\<lambda>n. ''id-'' @ nat_to_string n), w_uuids = 0, w_env = (\<lambda>_. None),
     w_tele = [], w_sleeps = []\<rparr>"

theorem step_once_simulated_witness:
  "case run_state (step_once mem_ops (elector_new ''a'') (assigner_new ''a'' 4)) (sample_world mem_new)
   of ((el', a'), w') \<Rightarrow> \<exists>c'.
     (election_step mem_ops 30)\<^sup>*\<^sup>* (election_init mem_new 100) c' \<and> el_matches el' w' c'"
proof -
  have m: "el_matches (elector_new ''a'') (sample_world mem_new) (election_init mem_new 100)"
    and e: "leader_ttl_secs_from_env (w_env (sample_world mem_new)) = 30"
    and c: "\<forall>n. w_clock (sample_world mem_new) n \<le> w_clock (sample_world mem_new) (Suc n)"
    by (simp_all add: el_matches_def elector_new_def sample_world_def election_init_def
        leader_ttl_secs_from_env_def env_i64_def)
  from step_once_simulated[OF m c, of mem_ops "assigner_new ''a'' 4"] show ?thesis
    unfolding e by (auto split: prod.splits)
qed

section \<open>Flag, lease and partitions of one elector\<close>

context leader_row
begin

text \<open>A flag that is up after a step rests on a lease this step obtained or read back as live.\<close>

lemma step_once_coherent:
  assumes "invar (w_store w)" "0 < leader_ttl_secs_from_env (w_env w)"
    "as_owned a = (if el_is_leader el then [0 ..< as_num_partitions a] else [])"
  shows "wp (step_once S el a) (\<lambda>(el', a') w'. invar (w_store w') \<and>
     as_owned a' = (if el_is_leader el' then [0 ..< as_num_partitions a'] else []) \<and>
     (el_is_leader el' \<longrightarrow> (\<exists>l n. leader_of (w_store w') = Some l \<and>
        l_leader_instance_id l = el_instance_id el \<and> n < w_reads w' \<and>
        w_clock w' n < l_leader_lease_until l))) w"
proof (cases "el_is_leader el")
  case False
  let ?now = "w_clock w (w_reads w)"
  let ?ttl = "leader_ttl_secs_from_env (w_env w)"
  show ?thesis
  proof (cases "leader_live_other ?now (el_instance_id el) (leader_of (w_store w))")
    case True
    with False assms show ?thesis
      by (simp add: step_once_def try_acquire_leader_def wp_simps wp_call acquire_no)
  next
    case free: False
    from acquire_yes[OF assms(1) free, of ?ttl] False assms show ?thesis
      by (auto simp: step_once_def try_acquire_leader_def wp_simps wp_call assign_all_embedded_def
          intro!: exI[of _ "w_reads w"])
  qed
next
  case True
  let ?i = "el_instance_id el" let ?ttl = "leader_ttl_secs_from_env (w_env w)"
  let ?now = "w_clock w (w_reads w)"
  obtain s where s: "so_renew_leader_lease S ?now ?i ?ttl (w_store w) = (Inr (), s)" "invar s"
    using renew_mine[OF assms(1), of _ ?i ?now ?ttl] renew_other[OF assms(1), of ?i ?now ?ttl] assms(1)
    by (cases "\<exists>l. leader_of (w_store w) = Some l \<and> l_leader_instance_id l = ?i") force+
  then show ?thesis
    using True assms(3) get_leader[OF s(2)]
    by (cases "leader_of s")
      (auto simp: step_once_def renew_leader_lease_def am_i_leader_def current_leader_def
        wp_simps wp_call release_all_def Let_def intro: exI[of _ "Suc (w_reads w)"])
qed

end

text \<open>
  The leader flag is backed by the lease and agrees with the owned partitions. On the in-memory
  backend, when an elector's assigner owns every partition exactly if its flag is up, this is so
  again after a step; and a flag that is up after the step rests on a leader row that names this
  instance and whose lease lies after a clock reading of the step.
\<close>
lemma leader_flag_backed:
  assumes "mem_reachable (w_store w)"
    "as_owned a = (if el_is_leader el then [0 ..< as_num_partitions a] else [])"
  shows "case run_state (step_once mem_ops el a) w of ((el', a'), w') \<Rightarrow>
     as_owned a' = (if el_is_leader el' then [0 ..< as_num_partitions a'] else []) \<and>
     (el_is_leader el' \<longrightarrow> (\<exists>l n. m_leader (w_store w') = Some l \<and>
        l_leader_instance_id l = el_instance_id el \<and> n < w_reads w' \<and>
        w_clock w' n < l_leader_lease_until l))"
proof -
  have "0 < leader_ttl_secs_from_env (w_env w)"
    using env_i64_pos[of 30 "w_env w" "''CHRONON_LEADER_TTL_S''"] by (simp add: leader_ttl_secs_from_env_def)
  from mem_leader.step_once_coherent[OF mem_reachable_inv[OF assms(1)] this assms(2)]
  show ?thesis by (auto simp: wp_def split: prod.splits)
qed

section \<open>Partition leases on the in-memory backend\<close>

text \<open>
  (C24) Refreshing partition leases never takes a partition from a live owner: a row leased to
  another instance beyond every clock reading of this process is left as it is, whatever the
  outcome of the refresh, and its partition is not among the owned ones afterwards.
\<close>
theorem refresh_never_steals_live:
  assumes "mem_reachable (w_store w)" "as_num_partitions a \<le> u32_max"
    "\<forall>k' r. hm_get (m_partitions (w_store w)) k' = Some r \<longrightarrow> (\<exists>n \<le> u32_max. k' = nat_to_string n)"
    "hm_get (m_partitions (w_store w)) (nat_to_string pid) = Some row"
    "pa_owner_instance_id row \<noteq> as_instance_id a" "\<forall>n. w_clock w n < pa_lease_until row"
  shows "case run_state (refresh_leases mem_ops a) w of (res, w') \<Rightarrow>
     hm_get (m_partitions (w_store w')) (nat_to_string pid) = Some row \<and>
     (\<forall>a'. res = Inr a' \<longrightarrow> pid \<notin> set (as_owned a'))"
proof -
  note inv = mem_reachable_inv[OF assms(1)]
  have s: "mem_partitions.settled (w_clock w) (w_env w) w"
    using inv assms(3) by (simp add: mem_partitions.settled_def mem_partitions.canon_def)
  have f: "mem_partitions.foreign a (w_clock w) (nat_to_string pid) row w"
    using inv assms(4-6) by (simp add: mem_partitions.foreign_def)
  from mem_partitions.refresh_foreign[OF s assms(2) f] show ?thesis
    by (auto simp: wp_def mem_partitions.foreign_def split: prod.splits)
qed

definition leased_sample :: mem_store where
  "leased_sample = snd (mem_upsert_partition_assignment
     \<lparr>pa_partition_id = ''0'', pa_owner_instance_id = ''b'', pa_lease_until = 500, pa_updated_at = 0\<rparr> mem_new)"

lemma leased_sample_facts:
  "mem_reachable leased_sample"
  "m_partitions leased_sample = [(''0'',
     \<lparr>pa_partition_id = ''0'', pa_owner_instance_id = ''b'', pa_lease_until = 500, pa_updated_at = 0\<rparr>)]"
  "nat_to_string 0 = ''0''"
proof -
  show "mem_reachable leased_sample"
    unfolding leased_sample_def by (rule mem_reachable.step[OF mem_reachable.init mem_step.intros(21)])
  show "nat_to_string 0 = ''0''" by (simp add: nat_to_string.simps char_of_def bit_simps)
qed (simp add: leased_sample_def mem_upsert_partition_assignment_def mem_new_def)

lemma leased_sample_world:
  "mem_reachable (w_store (sample_world leased_sample))"
  "as_num_partitions (assigner_new ''a'' 4) \<le> u32_max"
  "\<forall>k r. hm_get (m_partitions (w_store (sample_world leased_sample))) k = Some r \<longrightarrow>
     (\<exists>n \<le> u32_max. k = nat_to_string n)"
  by (auto simp: sample_world_def leased_sample_facts assigner_new_def split: if_splits intro!: exI[of _ 0])

theorem refresh_never_steals_live_witness:
  "case run_state (refresh_leases mem_ops (assigner_new ''a'' 4))
       ((sample_world leased_sample)\<lparr>w_clock := \<lambda>_. 100\<rparr>) of (res, w') \<Rightarrow>
     map_option pa_owner_instance_id (hm_get (m_partitions (w_store w')) ''0'') = Some ''b''"
proof -
  let ?w = "(sample_world leased_sample)\<lparr>w_clock := \<lambda>_. 100\<rparr>"
  let ?row = "\<lparr>pa_partition_id = ''0'', pa_owner_instance_id = ''b'', pa_lease_until = 500, pa_updated_at = 0\<rparr>"
  have p: "mem_reachable (w_store ?w)"
    "\<forall>k' r. hm_get (m_partitions (w_store ?w)) k' = Some r \<longrightarrow> (\<exists>n \<le> u32_max. k' = nat_to_string n)"
    using leased_sample_world by simp_all
  have r: "hm_get (m_partitions (w_store ?w)) (nat_to_string 0) = Some ?row"
    "pa_owner_instance_id ?row \<noteq> as_instance_id (assigner_new ''a'' 4)"
    "\<forall>n. w_clock ?w n < pa_lease_until ?row"
    by (simp_all add: sample_world_def leased_sample_facts assigner_new_def)
  from refresh_never_steals_live[OF p(1) leased_sample_world(2) p(2) r] show ?thesis
    by (auto simp: leased_sample_facts(3) split: prod.splits)
qed

text \<open>
  A refresh on the in-memory backend succeeds and leaves this instance with owned partitions
  that are sorted, without duplicates, and each of them backed by a stored row that names this
  instance and whose lease is one lease period after some clock reading.
\<close>
lemma refresh_owned_leased:
  assumes "mem_reachable (w_store w)" "as_num_partitions a \<le> u32_max"
    "\<forall>k r. hm_get (m_partitions (w_store w)) k = Some r \<longrightarrow> (\<exists>n \<le> u32_max. k = nat_to_string n)"
  shows "case run_state (refresh_leases mem_ops a) w of (res, w') \<Rightarrow>
     (\<exists>a'. res = Inr a' \<and> sorted (as_owned a') \<and> distinct (as_owned a') \<and>
       (\<forall>p \<in> set (as_owned a'). \<exists>row n. hm_get (m_partitions (w_store w')) (nat_to_string p) = Some row \<and>
          pa_owner_instance_id row = as_instance_id a \<and>
          pa_lease_until row = add_secs (w_clock w n) (partition_lease_ttl_secs (w_env w))))"
proof -
  note inv = mem_reachable_inv[OF assms(1)]
  have s: "mem_partitions.settled (w_clock w) (w_env w) w"
    using inv assms(3) by (simp add: mem_partitions.settled_def mem_partitions.canon_def)
  from mem_partitions.refresh_leased[OF s assms(2)] show ?thesis
    by (auto simp: wp_def mem_partitions.leased_def split: prod.splits)
qed

end
