(* ===== verification/Lifecycle_Props.thy ===== *)
theory Lifecycle_Props
  imports Lifecycle Election
begin

text \<open>
  Properties of run finalisation, retries and executor events on the in-memory backend: which row
  changes are possible, that a failure is retried once, that the chain of retries ends, and when
  the next attempt is scheduled.
\<close>

section \<open>Chains of retries\<close>

text \<open>
  One link of a chain: the run \<open>x\<close> that failed carries the attempt number of \<open>r\<close> (claiming, starting
  and finishing a run change other fields), and \<open>r'\<close> is the run enqueued for its failure.
\<close>

definition retries :: "('sc, 'tz) ext \<Rightarrow> retry_policy \<Rightarrow> run \<Rightarrow> run \<Rightarrow> bool" where
  "retries X p r r' \<longleftrightarrow> should_retry p (r_attempt r) \<and>
     (\<exists>x uuid now fin status m logs. r_attempt x = r_attempt r \<and>
        r' = retry_run X p uuid now (failed_row fin status m logs x))"

lemma retriesD:
  "retries X p r r' \<Longrightarrow> 0 < r_attempt r \<and> nat (r_attempt r) \<le> max_attempts p \<and>
     r_attempt r' = wrap_i32 (r_attempt r + 1)"
  by (auto simp: retries_def should_retry_def)

lemma retriesI:
  "should_retry p (r_attempt r) \<Longrightarrow> retries X p r (retry_run X p u now (failed_row fin st m l r))"
  unfolding retries_def by blast

lemma retry_chain_len:
  assumes "(retries X p ^^ n) r r'" "r_attempt r \<le> i32_max"
  shows "n = 0 \<or> 0 < r_attempt r \<and> nat (r_attempt r) + n \<le> Suc (max_attempts p)"
  using assms
proof (induction n arbitrary: r)
  case (Suc n)
  from Suc.prems(1) obtain q where q: "retries X p r q" "(retries X p ^^ n) q r'"
    by (meson relpowp_Suc_D2)
  note a = retriesD[OF q(1)]
  show ?case
  proof (cases "r_attempt r = i32_max")
    case True
    then have "r_attempt q = - 2147483648" using a by (simp add: wrap_i32_def)
    with Suc.IH[OF q(2)] a show ?thesis by auto
  next
    case False
    then have "r_attempt q = r_attempt r + 1" using a Suc.prems(2) by (simp add: wrap_i32_id)
    with Suc.IH[OF q(2)] Suc.prems(2) False a show ?thesis by auto
  qed
qed simp

section \<open>Properties\<close>

text \<open>
  (C4) Executor events change rows only along the life cycle. Whatever sequence of events the
  handler receives, forged, late or repeated, on the in-memory backend no row disappears, each row
  moves from waiting to running to ended and never back, a row that has ended is not changed at
  all, and the job table stays as it is.
\<close>
theorem events_follow_lifecycle:
  assumes "mem_reachable (w_store w)" "uuids_fresh (hm_get (m_runs (w_store w))) w"
    and "run_state (event_handler_loop X mem_ops evs) w = (res, w')"
  shows "hm_get (m_jobs (w_store w')) = hm_get (m_jobs (w_store w)) \<and>
    (\<forall>i r. hm_get (m_runs (w_store w)) i = Some r \<longrightarrow>
       (\<exists>r'. hm_get (m_runs (w_store w')) i = Some r' \<and> row_step\<^sup>*\<^sup>* r r' \<and>
             (is_terminal (r_status r) \<longrightarrow> r' = r)))"
proof -
  have "mem_runs.events_ok w w'"
    using mem_runs.event_loop_evolves[OF mem_reachable_inv[OF assms(1)] assms(2), of X evs] assms(3)
    by (simp add: wp_def)
  then show ?thesis
    unfolding mem_runs.events_ok_def rows_evolve_def by (meson row_steps_terminal)
qed

definition done_store :: mem_store where
  "done_store = snd (mem_create_run ((sample_run ''r1'' 5)\<lparr>r_status := Success\<rparr>) mem_new)"

lemma done_store_facts:
  "mem_reachable done_store" "m_runs done_store = [(''r1'', (sample_run ''r1'' 5)\<lparr>r_status := Success\<rparr>)]"
proof -
  show "mem_reachable done_store"
    unfolding done_store_def by (rule mem_reachable.step[OF mem_reachable.init mem_step.intros(5)])
qed (simp add: done_store_def mem_create_run_def mem_new_def sample_run_def)

lemma sample_uuids_fresh:
  "(\<And>n. map_of (m_runs st) (''id-'' @ nat_to_string n) = None) \<Longrightarrow>
   uuids_fresh (map_of (m_runs st)) (sample_world st)"
  by (auto simp: uuids_fresh_def sample_world_def inj_def nat_to_string_inj)

theorem events_follow_lifecycle_witness:
  "hm_get (m_runs (w_store (snd (run_state
     (event_handler_loop sample_ext mem_ops [RunStarted ''r1'', RunFailed ''r1'' ''boom'' no_logs])
     (sample_world done_store))))) ''r1'' = Some ((sample_run ''r1'' 5)\<lparr>r_status := Success\<rparr>)"
proof -
  let ?w = "sample_world done_store"
  let ?p = "event_handler_loop sample_ext mem_ops [RunStarted ''r1'', RunFailed ''r1'' ''boom'' no_logs]"
  have st: "w_store ?w = done_store" by (simp add: sample_world_def)
  have f: "uuids_fresh (hm_get (m_runs (w_store ?w))) ?w"
    unfolding st by (rule sample_uuids_fresh) (simp add: done_store_facts)
  obtain res w' where r: "run_state ?p ?w = (res, w')" by fastforce
  have "mem_reachable (w_store ?w)" by (simp add: st done_store_facts)
  from events_follow_lifecycle[OF this f r, THEN conjunct2, rule_format, of "''r1''"] show ?thesis
    unfolding r by (simp add: st done_store_facts is_terminal_def)
qed

text \<open>
  (C30) A failed run is ended and retried once. On the in-memory backend, finalising a stored run
  writes exactly the ended row, with the redacted text; if the retry policy of the job allows
  another attempt it adds exactly one queued run, with the next attempt number and the actor,
  parameters and pool of the failed one, and otherwise nothing.
\<close>
theorem finalize_retries_once:
  assumes "mem_reachable (w_store w)" "hm_get (m_runs (w_store w)) (r_run_id run) \<noteq> None"
    and "safe_message err = Some m" "hm_get (m_runs (w_store w)) (w_uuid w (w_uuids w)) = None"
    and "run_state (finalize_failed_run X mem_ops run job status err logs) w = (res, w')"
    and "u = w_uuid w (w_uuids w)"
  shows "\<exists>row next. res = Some () \<and>
    hm_get (m_jobs (w_store w')) = hm_get (m_jobs (w_store w)) \<and>
    hm_get (m_runs (w_store w')) =
      (if should_retry (job_retry_policy X job) (r_attempt run)
       then (hm_get (m_runs (w_store w)))(r_run_id run \<mapsto> row, u \<mapsto> next)
       else (hm_get (m_runs (w_store w)))(r_run_id run \<mapsto> row)) \<and>
    r_status row = (if status = Timeout then Timeout else Failed) \<and>
    r_error_json row = Some (error_message_json m) \<and> r_finished_at row \<noteq> None \<and>
    r_status next = Queued \<and> r_attempt next = wrap_i32 (r_attempt run + 1) \<and>
    r_actor_json next = r_actor_json run \<and> r_params_json next = r_params_json run \<and>
    r_pool_id next = r_pool_id run \<and> r_script_name next = r_script_name run"
proof -
  let ?row = "failed_row (w_clock w (w_reads w)) status m logs run"
  let ?next = "retry_run X (job_retry_policy X job) u (w_clock w (Suc (w_reads w))) ?row"
  show ?thesis
    using mem_runs.finalize_effect[OF mem_reachable_inv[OF assms(1)] assms(2-4), of X job status logs]
      assms(5,6)
    by (intro exI[of _ ?row] exI[of _ ?next]) (simp add: wp_def Let_def retried_def)
qed

definition running_store :: mem_store where
  "running_store = snd (mem_create_run ((sample_run ''r1'' 5)\<lparr>r_status := Running\<rparr>) mem_new)"

lemma running_store_facts:
  "mem_reachable running_store"
  "m_runs running_store = [(''r1'', (sample_run ''r1'' 5)\<lparr>r_status := Running\<rparr>)]"
proof -
  show "mem_reachable running_store"
    unfolding running_store_def by (rule mem_reachable.step[OF mem_reachable.init mem_step.intros(5)])
qed (simp add: running_store_def mem_create_run_def mem_new_def sample_run_def)

definition retrying_job :: job where
  "retrying_job = set_retry_policy sample_ext
     \<lparr>max_attempts = 3, base_delay_ms = 100, backoff_multiplier = F_Fin 2 0, max_delay_ms = 10000\<rparr>
     sample_job"

theorem finalize_retries_once_witness:
  "\<exists>r. hm_get (m_runs (w_store (snd (run_state (finalize_failed_run sample_ext mem_ops
       (sample_run ''r1'' 5) retrying_job Failed ''boom'' None) (sample_world running_store))))) ''id-0'' =
     Some r \<and> r_status r = Queued \<and> r_attempt r = 2"
proof -
  let ?w = "sample_world running_store" and ?run = "sample_run ''r1'' 5"
  have st: "w_store ?w = running_store" and u: "''id-0'' = w_uuid ?w (w_uuids ?w)"
    by (simp_all add: sample_world_def nat_to_string.simps char_of_def bit_simps)
  obtain res w' where r: "run_state (finalize_failed_run sample_ext mem_ops ?run retrying_job
      Failed ''boom'' None) ?w = (res, w')" by fastforce
  have pre: "mem_reachable (w_store ?w)" "hm_get (m_runs (w_store ?w)) (r_run_id ?run) \<noteq> None"
      "hm_get (m_runs (w_store ?w)) (w_uuid ?w (w_uuids ?w)) = None"
    unfolding st u[symmetric] by (simp_all add: running_store_facts sample_run_def)
  have m: "safe_message ''boom'' = Some ''boom''" by code_simp
  have "should_retry (job_retry_policy sample_ext retrying_job) (r_attempt ?run)"
    by (simp add: should_retry_def retrying_job_def retry_policy_set[OF sample_retry_codec] sample_run_def)
  with finalize_retries_once[OF pre(1,2) m pre(3) r u] show ?thesis
    unfolding r by (auto simp: sample_run_def wrap_i32_def)
qed



text \<open>
  With a cap on the delay, as clamping leaves it, the next attempt is scheduled no earlier than
  the failure is recorded and no later than the cap allows, at most a day later.
\<close>
lemma retry_delay_bounded:
  assumes "p = retry_clamp_security_bounds p0" "max_delay_ms p0 \<noteq> 0"
  shows "now \<le> r_scheduled_for (retry_run X p u now r) \<and>
    r_scheduled_for (retry_run X p u now r) \<le> add_ms now (int (max_delay_ms p)) \<and>
    r_scheduled_for (retry_run X p u now r) \<le> add_ms now 86400000"
proof -
  have ne: "max_delay_ms p \<noteq> 0" using assms by (simp add: retry_clamp_security_bounds_def Let_def)
  have le: "max_delay_ms p \<le> 86400000" using assms(1) retry_clamp_bounds(3) by simp
  have "delay_ms_after X p (r_attempt r) \<le> max_delay_ms p"
    using ne by (simp add: delay_ms_after_def Let_def)
  moreover from this le have "wrap_i64 (int (delay_ms_after X p (r_attempt r))) =
      int (delay_ms_after X p (r_attempt r))"
    by (intro wrap_i64_id) auto
  ultimately show ?thesis using le by (simp add: retry_run_def Let_def add_ms_def)
qed

definition steep_policy :: retry_policy where
  "steep_policy = \<lparr>max_attempts = 5, base_delay_ms = 1000, backoff_multiplier = F_Fin 1 64, max_delay_ms = 0\<rparr>"


end
