(* ===== verification/Service_Props.thy ===== *)
theory Service_Props
  imports Coordinator_Service Lifecycle_Props
begin

text \<open>
  Properties of the coordinator service on the in-memory backend: the outcome of an upsert on every
  branch, of an immediate run, and the status filter of the run listing.
\<close>

abbreviation revisions_of :: "mem_store \<Rightarrow> string \<Rightarrow> job_revision list" where
  "revisions_of s i \<equiv> opt_or (hm_get (m_revisions s) i) []"

context revision_log
begin

lemma store_same_rev_taken:
  assumes inv: "invar (w_store w)" and old: "jobs_of (w_store w) (j_job_id job) = Some e"
    and script: "j_script_name e = j_script_name job"
    and rev: "j_current_revision e = j_current_revision job"
    and held: "jobs_of (w_store w) i = Some h" "j_job_name h = j_job_name job" "i \<noteq> j_job_id job"
  shows "wp (svc_store_job X S job) (\<lambda>r w'. r = Inl (JobNameTaken (j_job_name job) i) \<and> same_tables w w') w"
  using held
  by (simp add: svc_store_job_def Let_def wp_simps wp_call get_job[OF inv] old script rev same_tables_def
      upsert_job_taken[OF inv held(1)])

end

text \<open>Serialising a job row to JSON does not fail: it has string keys only.\<close>

definition job_codec_total :: "('sc, 'tz) ext \<Rightarrow> bool" where
  "job_codec_total X \<longleftrightarrow> (\<forall>j. \<exists>v. x_job_to X j = Inr v)"



text \<open>
  An immediate run. For a stored job, \<^verbatim>\<open>run_now\<close> and its variants add exactly one run, under the
  identifier they return: queued, due at once, first attempt, for the job and its script, in the
  job's pool, with the overriding parameters and actor or else those stored on the job. For an
  unknown job they report it and change nothing.
\<close>
lemma run_now_outcome:
  assumes "mem_reachable (w_store w)" "hm_get (m_runs (w_store w)) (w_uuid w (w_uuids w)) = None"
  shows "case hm_get (m_jobs (w_store w)) i of
     None \<Rightarrow> run_state (run_now_with_params_and_actor mem_ops i p a) w = (Inl (JobNotFound i), w)
   | Some job \<Rightarrow>
      (case run_state (run_now_with_params_and_actor mem_ops i p a) w of
         (r, w') \<Rightarrow> \<exists>run. r = Inr (r_run_id run) \<and> r_run_id run = w_uuid w (w_uuids w) \<and>
           hm_get (m_runs (w_store w')) = (hm_get (m_runs (w_store w)))(r_run_id run \<mapsto> run) \<and>
           hm_get (m_jobs (w_store w')) = hm_get (m_jobs (w_store w)) \<and>
           r_status run = Queued \<and> r_attempt run = 1 \<and> r_job_id run = Some i \<and>
           r_script_name run = j_script_name job \<and> r_scheduled_for run = w_clock w (w_reads w) \<and>
           r_pool_id run = Some (job_execution_pool_id job) \<and>
           r_actor_json run = (case a of None \<Rightarrow> j_actor_json job | Some x \<Rightarrow> x) \<and>
           r_params_json run = (case p of None \<Rightarrow> j_params_json job | Some x \<Rightarrow> x))"
proof -
  have inv: "mem_inv (w_store w)" using assms(1) by (rule mem_reachable_inv)
  show ?thesis
  proof (cases "hm_get (m_jobs (w_store w)) i")
    case None
    with mem_revisions.run_now_missing[OF inv, of i p a] show ?thesis by (simp add: wp_run prod_eq_iff)
  next
    case (Some job)
    let ?run = "now_run (w_uuid w (w_uuids w)) (w_clock w (w_reads w)) job p a"
    have "j_job_id job = i" using job_keyD[OF inv Some] .
    with mem_revisions.run_now_found[OF inv Some assms(2), of p a] Some show ?thesis
      by (auto simp: wp_def now_run_def intro!: exI[of _ ?run] split: prod.splits)
  qed
qed

text \<open>
  The status filter of the run listing reads exactly the printed names of the statuses, in any
  letter case, and takes every other text as no filter.
\<close>
lemma parse_run_status_spec:
  "parse_run_status s = Some st \<longleftrightarrow> to_ascii_lowercase s = run_status_to_string st"
  by (cases st) (auto simp: Let_def split: if_splits)

end
