(* ===== verification/Http_Props.thy ===== *)
theory Http_Props
  imports Http_Api Service_Props
begin

text \<open>
  Properties of the HTTP surface: authentication fails closed, what an accepted upsert can store,
  what a revision listing shows, and that a run-once job created over HTTP never becomes due.
\<close>

section \<open>Facts about requests\<close>

lemmas http_handler_defs =
  http_upsert_job_def http_list_jobs_def http_get_job_def http_pause_job_def http_resume_job_def
  http_run_now_def http_get_job_revisions_def http_list_runs_def http_get_run_def
  http_list_scripts_def

lemma chronon_status_not_ok: "chronon_status e \<noteq> 200"
  by (cases e) simp_all

lemma api_err_not_ok [simp]: "code \<noteq> 200 \<Longrightarrow> api_err code msg \<noteq> Some (200, resp)"
  by (auto simp: api_err_def)

lemma chronon_err_not_ok [simp]: "chronon_err e \<noteq> Some (200, resp)"
  by (simp add: chronon_err_def chronon_status_not_ok)

lemma respond_ok: "respond f r = Some (200, resp) \<longleftrightarrow> (\<exists>x. r = Inr x \<and> resp = api_ok (f x))"
  by (auto simp: respond_def split: sum.splits)

text \<open>What the request makes of a base row, up to the fields that the service fills in.\<close>

definition request_bounds :: "('sc, 'tz) ext \<Rightarrow> job \<Rightarrow> bool" where
  "request_bounds X j \<longleftrightarrow> 1 \<le> j_concurrency j \<and> j_concurrency j \<le> max_job_concurrency \<and>
     (case j_timeout_ms j of None \<Rightarrow> True | Some ms \<Rightarrow> 0 < ms \<and> ms \<le> max_timeout_ms) \<and>
     max_attempts (job_retry_policy X j) \<le> max_retry_attempts \<and>
     base_delay_ms (job_retry_policy X j) \<le> max_retry_delay_ms \<and>
     max_delay_ms (job_retry_policy X j) \<le> max_retry_delay_ms"

lemma clamp_sel [simp]:
  "j_job_id (job_clamp_security_bounds X j) = j_job_id j"
  "j_job_name (job_clamp_security_bounds X j) = j_job_name j"
  "j_script_name (job_clamp_security_bounds X j) = j_script_name j"
  "j_actor_json (job_clamp_security_bounds X j) = j_actor_json j"
  "j_pool (job_clamp_security_bounds X j) = j_pool j"
  "j_next_run_at (job_clamp_security_bounds X j) = j_next_run_at j"
  "j_schedule_kind (job_clamp_security_bounds X j) = j_schedule_kind j"
  "j_cron_expr (job_clamp_security_bounds X j) = j_cron_expr j"
  by (simp_all add: job_clamp_security_bounds_def set_retry_policy_def Let_def split: option.splits)

lemma clamp_bounds:
  assumes "retry_codec_ok X"
  shows "request_bounds X (job_clamp_security_bounds X j)"
proof -
  have "job_retry_policy X (set_retry_policy X (retry_clamp_security_bounds p) k) =
      retry_clamp_security_bounds p" for p k
    using retry_policy_set[OF assms] retry_clamp_bounds(4) by blast
  then show ?thesis
    unfolding request_bounds_def
    by (simp add: job_clamp_security_bounds_def Let_def retry_clamp_bounds)
      (simp add: set_retry_policy_def split: option.splits)
qed

lemma request_bounds_cong:
  "j_concurrency j' = j_concurrency j \<Longrightarrow> j_timeout_ms j' = j_timeout_ms j \<Longrightarrow>
   j_retry_policy_json j' = j_retry_policy_json j \<Longrightarrow> request_bounds X j' = request_bounds X j"
  by (simp add: request_bounds_def job_retry_policy_def)

definition privileged :: "json \<Rightarrow> bool" where
  "privileged a \<longleftrightarrow> is_system_shaped_actor a \<or> is_service_user_shaped_actor a"

definition valid_pool :: "string option \<Rightarrow> bool" where
  "valid_pool p \<longleftrightarrow> (case p of None \<Rightarrow> True
     | Some s \<Rightarrow> s \<noteq> [] \<and> length s \<le> max_pool_chars \<and> list_all pool_char s)"

lemma normalize_pool_valid: "normalize_pool raw = Inr p \<Longrightarrow> valid_pool p"
  by (auto simp: normalize_pool_def valid_pool_def Let_def split: if_splits)

lemma request_fields_sel [simp]:
  "j_job_id (request_fields req j) = j_job_id j" "j_job_name (request_fields req j) = j_job_name j"
  "j_script_name (request_fields req j) = j_script_name j"
  "j_next_run_at (request_fields req j) = j_next_run_at j"
  "j_schedule_kind (request_fields req j) = u_schedule_kind req"
  "j_cron_expr (request_fields req j) = u_cron_expr req"
  "j_actor_json (request_fields req j) = j_actor_json j" "j_pool (request_fields req j) = j_pool j"
  by (simp_all add: request_fields_def)

lemma request_policies_sel [simp]:
  "j_job_id (request_policies req j) = j_job_id j" "j_job_name (request_policies req j) = j_job_name j"
  "j_script_name (request_policies req j) = j_script_name j"
  "j_next_run_at (request_policies req j) = j_next_run_at j"
  "j_schedule_kind (request_policies req j) = j_schedule_kind j"
  "j_cron_expr (request_policies req j) = j_cron_expr j"
  "j_actor_json (request_policies req j) = j_actor_json j" "j_pool (request_policies req j) = j_pool j"
  by (simp_all add: request_policies_def Let_def split: option.splits)

lemma request_actorD:
  "request_actor req j = Inr k \<Longrightarrow> \<exists>a. k = j\<lparr>j_actor_json := a\<rparr> \<and> (a = j_actor_json j \<or> \<not> privileged a)"
  by (auto simp: request_actor_def reject_external_privileged_def privileged_def
      split: option.splits sum.splits if_splits intro: exI[of _ "j_actor_json j"])

lemma request_poolD:
  "request_pool req j = Inr k \<Longrightarrow> \<exists>p. k = j\<lparr>j_pool := p\<rparr> \<and> (p = j_pool j \<or> valid_pool p)"
  using normalize_pool_valid
  by (auto simp: request_pool_def split: option.splits sum.splits intro: exI[of _ "j_pool j"])

lemma request_jobD:
  fixes job :: job
  assumes "request_job X req base = (Inr job :: 'a http + job)"
  shows "j_job_id job = j_job_id base" "j_job_name job = j_job_name base"
    "j_script_name job = j_script_name base" "j_next_run_at job = j_next_run_at base"
    "j_schedule_kind job = u_schedule_kind req" "j_cron_expr job = u_cron_expr req"
    "j_actor_json job = j_actor_json base \<or> \<not> privileged (j_actor_json job)"
    "j_pool job = j_pool base \<or> valid_pool (j_pool job)"
    "\<exists>j. job = job_clamp_security_bounds X j"
proof -
  obtain j1 j2 where j: "request_actor req (request_fields req base) = (Inr j1 :: 'a http + job)"
    "request_pool req (request_policies req j1) = (Inr j2 :: 'a http + job)" "job = job_clamp_security_bounds X j2"
    using assms by (auto simp: request_job_def split: sum.splits)
  from request_actorD[OF j(1)] obtain a where
    "j1 = (request_fields req base)\<lparr>j_actor_json := a\<rparr>" "a = j_actor_json base \<or> \<not> privileged a" by auto
  moreover from request_poolD[OF j(2)] obtain p where
    "j2 = (request_policies req j1)\<lparr>j_pool := p\<rparr>" "p = j_pool j1 \<or> valid_pool p" by auto
  ultimately show "j_job_id job = j_job_id base" "j_job_name job = j_job_name base"
    "j_script_name job = j_script_name base" "j_next_run_at job = j_next_run_at base"
    "j_schedule_kind job = u_schedule_kind req" "j_cron_expr job = u_cron_expr req"
    "j_actor_json job = j_actor_json base \<or> \<not> privileged (j_actor_json job)"
    "j_pool job = j_pool base \<or> valid_pool (j_pool job)" "\<exists>j. job = job_clamp_security_bounds X j"
    using j(3) by auto
qed

section \<open>What an accepted upsert stores\<close>

context revision_log
begin

lemma upsert_Inr:
  assumes "invar s" "so_upsert_job S j s = (Inr (), s')"
  shows "invar s' \<and> jobs_of s' = (jobs_of s)(j_job_id j \<mapsto> j)"
proof (cases "\<exists>i j'. jobs_of s i = Some j' \<and> j_job_name j' = j_job_name j \<and> i \<noteq> j_job_id j")
  case True
  then show ?thesis using upsert_job_taken[OF assms(1)] assms(2) by fastforce
next
  case False
  then show ?thesis using upsert_job_ok[OF assms(1), of j] assms(2) by fastforce
qed

lemma upsert_call_Inr:
  assumes "invar (w_store w)" "jobs_of (w_store w) = J"
  shows "wp (call (so_upsert_job S j)) (\<lambda>r w'. r = Inr () \<longrightarrow> jobs_of (w_store w') = J(j_job_id j \<mapsto> j)) w"
  using upsert_Inr[OF assms(1)] assms(2) by (auto simp: wp_call split: prod.splits)

lemma revision_keeps:
  assumes "invar (w_store w)"
  shows "wp (svc_revision X S job n) (\<lambda>r w'. invar (w_store w') \<and> jobs_of (w_store w') = jobs_of (w_store w)) w"
proof (cases "x_job_to X job")
  case (Inl e)
  then show ?thesis using assms by (simp add: svc_revision_def wp_simps)
next
  case (Inr snap)
  then show ?thesis by (intro revision_wp[OF assms]) auto
qed

lemma store_Inr:
  assumes inv: "invar (w_store w)"
  shows "wp (svc_store_job X S job) (\<lambda>r w'. r = Inr () \<longrightarrow>
    jobs_of (w_store w') = (jobs_of (w_store w))(j_job_id job \<mapsto> job\<lparr>j_updated_at := w_clock w (w_reads w)\<rparr>)) w"
proof -
  let ?job = "job\<lparr>j_updated_at := w_clock w (w_reads w)\<rparr>"
  let ?Q = "\<lambda>r w'. r = Inr () \<longrightarrow> jobs_of (w_store w') = (jobs_of (w_store w))(j_job_id job \<mapsto> ?job)"
  have up: "wp (call (so_upsert_job S ?job)) ?Q w'"
    if "invar (w_store w')" "jobs_of (w_store w') = jobs_of (w_store w)" for w'
    using upsert_call_Inr[OF that, of ?job] by simp
  have rev: "wp (svc_revision X S ?job n) (\<lambda>r w'. case r of Inl e \<Rightarrow> ?Q (Inl e) w'
      | Inr a \<Rightarrow> wp (call (so_upsert_job S ?job)) ?Q w') (w\<lparr>w_reads := k\<rparr>)" for n k
    by (rule wp_mono[OF revision_keeps]) (auto simp: inv up split: sum.splits)
  obtain h where h: "so_get_job_by_name S (j_job_name job) (w_store w) = (Inr h, w_store w)"
    using get_job_by_name_ok[OF inv] by blast
  show ?thesis
    using rev up[of "w\<lparr>w_reads := Suc (w_reads w)\<rparr>"] inv
    by (simp add: svc_store_job_def Let_def wp_simps wp_call[of "so_get_job S _"]
        wp_call[of "so_get_job_by_name S _"] get_job[OF inv] h split: option.splits)
qed

end

lemma upsert_stores:
  assumes inv: "mem_inv (w_store w)" and run: "run_state (svc_upsert_job X mem_ops job0) w = (Inr (), w')"
  shows "\<exists>n t. hm_get (m_jobs (w_store w')) = (hm_get (m_jobs (w_store w)))(j_job_id job0 \<mapsto>
       (svc_with_partition X (w_env w) job0)\<lparr>j_next_run_at := n, j_updated_at := t\<rparr>) \<and>
    (svc_cron job0 = None \<longrightarrow> n = j_next_run_at job0)"
proof -
  let ?j = "svc_with_partition X (w_env w) job0"
  have sel: "svc_cron ?j = svc_cron job0" "j_next_run_at ?j = j_next_run_at job0" "j_timezone ?j = j_timezone job0"
    by (simp_all add: svc_with_partition_def svc_cron_def)
  have st: "\<exists>t. hm_get (m_jobs (w_store w')) = (hm_get (m_jobs (w_store w)))(j_job_id k \<mapsto> k\<lparr>j_updated_at := t\<rparr>)"
    if "run_state (svc_store_job X mem_ops k) (w\<lparr>w_reads := m\<rparr>) = (Inr (), w')" for k m
    using mem_revisions.store_Inr[of "w\<lparr>w_reads := m\<rparr>" X k] inv that by (auto simp: wp_def)
  show ?thesis
  proof (cases "svc_cron ?j")
    case None
    then have "run_state (svc_store_job X mem_ops ?j) (w\<lparr>w_reads := w_reads w\<rparr>) = (Inr (), w')"
      using run by (simp add: svc_upsert_job_def Let_def world_simps)
    moreover have "?j\<lparr>j_updated_at := t\<rparr> = ?j\<lparr>j_next_run_at := j_next_run_at job0, j_updated_at := t\<rparr>" for t
      by (simp add: svc_with_partition_def)
    ultimately show ?thesis using st[of ?j "w_reads w"] by (metis with_partition_id)
  next
    case (Some expr)
    then obtain c where c: "cron_parse X expr (j_timezone ?j) = Inr c"
      using run by (auto simp: svc_upsert_job_def Let_def world_simps split: sum.splits)
    with Some run have "run_state (svc_store_job X mem_ops
        (?j\<lparr>j_next_run_at := next_after X c (w_clock w (w_reads w))\<rparr>)) (w\<lparr>w_reads := Suc (w_reads w)\<rparr>) = (Inr (), w')"
      by (simp add: svc_upsert_job_def Let_def world_simps next_from_now_def)
    from st[OF this] Some show ?thesis by (auto simp: sel)
  qed
qed

lemma request_job_Inl_not_ok: "request_job X req base = Inl r \<Longrightarrow> r \<noteq> Some (200, resp)"
  by (auto simp: request_job_def request_actor_def request_pool_def split: sum.splits option.splits if_splits)

lemma http_store_ok:
  assumes inv: "mem_inv (w_store w)"
    and run: "run_state (http_store_job X fmt mem_ops job) w = (Some (200, resp), w')"
  shows "\<exists>n t. hm_get (m_jobs (w_store w')) = (hm_get (m_jobs (w_store w)))(j_job_id job \<mapsto>
       (svc_with_partition X (w_env w) job)\<lparr>j_next_run_at := n, j_updated_at := t\<rparr>) \<and>
     (svc_cron job = None \<longrightarrow> n = j_next_run_at job)"
proof (cases "svc_cron job")
  case None
  then obtain r where "run_state (svc_upsert_job X mem_ops job) w = (Inr r, w')"
    using run by (auto simp: http_store_job_def run_state_bind respond_ok split: prod.splits)
  then show ?thesis using upsert_stores[OF inv, of X job w'] None by fastforce
next
  case (Some expr)
  then obtain c where "cron_parse X expr (j_timezone job) = Inr c"
    using run by (auto simp: http_store_job_def split: sum.splits)
  with Some run obtain r where r: "run_state (svc_upsert_job X mem_ops
      (job\<lparr>j_next_run_at := next_after X c (w_clock w (w_reads w))\<rparr>)) (w\<lparr>w_reads := Suc (w_reads w)\<rparr>) = (Inr r, w')"
    by (auto simp: http_store_job_def next_from_now_def world_simps respond_ok Let_def run_state_bind
        split: prod.splits)
  have "mem_inv (w_store (w\<lparr>w_reads := Suc (w_reads w)\<rparr>))" using inv by simp
  from upsert_stores[OF this, of X _ w'] r Some show ?thesis
    by (fastforce simp: svc_with_partition_def)
qed

text \<open>
  The row that an accepted HTTP upsert leaves, from the base row: the stored job of that name with
  the next revision number, or a new job when no stored job has the name.
\<close>

definition upsert_base :: "('sc, 'tz) ext \<Rightarrow> mem_store \<Rightarrow> upsert_job_request \<Rightarrow> job \<Rightarrow> bool" where
  "upsert_base X s req base \<longleftrightarrow>
     (\<exists>e. hm_get (m_jobs s) (j_job_id e) = Some e \<and> j_job_name e = u_job_name req \<and>
        base = e\<lparr>j_script_name := u_script_name req, j_current_revision := sat_i32 (j_current_revision e + 1)\<rparr>) \<or>
     (\<forall>i e. hm_get (m_jobs s) i = Some e \<longrightarrow> j_job_name e \<noteq> u_job_name req) \<and>
     (\<exists>u t. base = job_new X u t (u_job_name req) (u_script_name req))"

lemma http_upsert_ok:
  assumes inv: "mem_inv (w_store w)"
    and run: "run_state (http_upsert_job X fmt mem_ops st parts req) w = (Some (200, resp), w')"
  shows "require_admin st parts = Inr () \<and> registry_contains (cs_registry st) (u_script_name req) \<and>
    (\<exists>base job n t. upsert_base X (w_store w) req base \<and>
      ((\<forall>i e. hm_get (m_jobs (w_store w)) i = Some e \<longrightarrow> j_job_name e \<noteq> u_job_name req) \<longrightarrow>
         j_job_id base = w_uuid w (w_uuids w)) \<and>
      request_job X req base = (Inr job :: job_response http + job) \<and>
      hm_get (m_jobs (w_store w')) = (hm_get (m_jobs (w_store w)))(j_job_id base \<mapsto>
        (svc_with_partition X (w_env w) job)\<lparr>j_next_run_at := n, j_updated_at := t\<rparr>) \<and>
      (svc_cron job = None \<longrightarrow> n = j_next_run_at job))"
proof -
  have adm: "require_admin st parts = Inr ()" and reg: "registry_contains (cs_registry st) (u_script_name req)"
    using run by (auto simp: http_upsert_job_def with_admin_def unauthorized_def split: sum.splits if_splits)
  obtain h where h: "so_get_job_by_name mem_ops (u_job_name req) (w_store w) = (Inr h, w_store w)"
    using mem_jobs.get_job_by_name_ok[OF inv] by blast
  define base where "base = (case h of
      Some e \<Rightarrow> e\<lparr>j_script_name := u_script_name req, j_current_revision := sat_i32 (j_current_revision e + 1)\<rparr>
    | None \<Rightarrow> job_new X (w_uuid w (w_uuids w)) (w_clock w (w_reads w)) (u_job_name req) (u_script_name req))"
  define w1 where "w1 = (if h = None then w\<lparr>w_uuids := Suc (w_uuids w), w_reads := Suc (w_reads w)\<rparr> else w)"
  have base: "upsert_base X (w_store w) req base"
    using mem_jobs.get_job_by_name_Some[OF inv, of "u_job_name req"]
      mem_jobs.get_job_by_name_None[OF inv, of "u_job_name req"] h
    by (cases h) (auto simp: upsert_base_def base_def)
  have new: "(\<forall>i e. hm_get (m_jobs (w_store w)) i = Some e \<longrightarrow> j_job_name e \<noteq> u_job_name req) \<longrightarrow>
      j_job_id base = w_uuid w (w_uuids w)"
    using mem_jobs.get_job_by_name_Some[OF inv, of "u_job_name req"] h
    by (cases h) (auto simp: base_def job_new_def)
  have w1s: "w_store w1 = w_store w" by (simp add: w1_def)
  have tail: "run_state (case request_job X req base of Inl r \<Rightarrow> ret r
      | Inr job \<Rightarrow> http_store_job X fmt mem_ops job) w1 = (Some (200, resp), w')"
    using run adm reg h
    by (cases h) (simp_all add: http_upsert_job_def with_admin_def svc_get_job_by_name_def world_simps
        ok_flatten_def base_def w1_def)
  obtain job where job: "request_job X req base = (Inr job :: job_response http + job)"
    using tail request_job_Inl_not_ok[of X req base] by (cases "request_job X req base :: job_response http + job") auto
  have w1: "mem_inv (w_store w1)" "w_env w1 = w_env w" using inv by (auto simp: w1_def)
  have "run_state (http_store_job X fmt mem_ops job) w1 = (Some (200, resp), w')" using tail job by simp
  from http_store_ok[OF w1(1) this] obtain n t where
    "hm_get (m_jobs (w_store w')) = (hm_get (m_jobs (w_store w1)))(j_job_id job \<mapsto>
       (svc_with_partition X (w_env w1) job)\<lparr>j_next_run_at := n, j_updated_at := t\<rparr>)" "svc_cron job = None \<longrightarrow> n = j_next_run_at job"
    by (elim exE conjE) (rule that)
  then have "hm_get (m_jobs (w_store w')) = (hm_get (m_jobs (w_store w)))(j_job_id base \<mapsto>
       (svc_with_partition X (w_env w) job)\<lparr>j_next_run_at := n, j_updated_at := t\<rparr>) \<and> (svc_cron job = None \<longrightarrow> n = j_next_run_at job)"
    unfolding w1(2) w1s request_jobD(1)[OF job] by (rule conjI)
  with job base adm reg new show ?thesis by (intro conjI exI; (elim conjE)?) assumption+
qed

section \<open>A sample host\<close>

definition open_state :: "mem_store chronon_state" where
  "open_state = \<lparr>cs_registry = from_inventory [descriptor_new ''cleanup'' (\<lambda>_ _. ret ([], Some (Inr ())))],
     cs_admin_auth = None, cs_require_admin_auth = False, cs_http_upsert_actor = None\<rparr>"

definition nat_fmt :: "time \<Rightarrow> string" where
  "nat_fmt t = nat_to_string (nat t)"

definition no_parts :: http_parts where
  "no_parts = \<lparr>hp_headers = []\<rparr>"

definition once_request :: upsert_job_request where
  "once_request = \<lparr>u_job_name = ''nightly'', u_script_name = ''cleanup'', u_cron_expr = None,
     u_timezone = None, u_schedule_kind = RunOnce, u_params = JObject [], u_enabled = True,
     u_concurrency = 5000, u_timeout_ms = Some 0, u_actor_json = None, u_retry_policy = None,
     u_misfire_policy = None, u_pool = Some ''gpu''\<rparr>"

lemma gpu_pool: "normalize_pool ''gpu'' = Inr (Some ''gpu'')"
  by code_simp

lemma empty_upsert_ok:
  assumes "m_jobs (w_store w) = []" "mem_inv (w_store w)" "svc_cron job = None" "job_codec_total X"
  shows "\<exists>w'. run_state (svc_upsert_job X mem_ops job) w = (Inr (), w')"
proof -
  let ?j = "svc_with_partition X (w_env w) job"
  obtain v where v: "x_job_to X (?j\<lparr>j_updated_at := w_clock w (w_reads w)\<rparr>) = Inr v"
    using assms(4) by (auto simp: job_codec_total_def)
  have "svc_cron ?j = None" using assms(3) by (simp add: svc_cron_def svc_with_partition_def split: if_splits)
  then have "run_state (svc_upsert_job X mem_ops job) w = run_state (svc_store_job X mem_ops ?j) w"
    by (simp add: svc_upsert_job_def Let_def world_simps)
  then show ?thesis
    using mem_revisions.store_new_free[of w ?j X v] assms(1,2) v by (auto simp: wp_def split: prod.splits)
qed

lemma once_upsert_ok:
  "\<exists>resp w'. run_state (http_upsert_job sample_ext fmt mem_ops open_state parts once_request)
     (sample_world mem_new) = (Some (200, resp), w')"
proof -
  let ?w = "sample_world mem_new"
  define base where "base = job_new sample_ext (w_uuid ?w (w_uuids ?w)) (w_clock ?w (w_reads ?w)) ''nightly'' ''cleanup''"
  define w1 where "w1 = ?w\<lparr>w_uuids := Suc (w_uuids ?w), w_reads := Suc (w_reads ?w)\<rparr>"
  have inv: "mem_inv (w_store w1)" "m_jobs (w_store w1) = []" "w_store ?w = mem_new"
    using mem_inv_new by (simp_all add: w1_def sample_world_def) (simp add: mem_new_def)
  have codec: "job_codec_total sample_ext" by (simp add: job_codec_total_def sample_ext_def)
  obtain job where job: "request_job sample_ext once_request base = (Inr job :: job_response http + job)"
    by (simp add: request_job_def request_actor_def request_pool_def once_request_def gpu_pool)
  have cron: "svc_cron job = None" using request_jobD(5)[OF job] by (simp add: svc_cron_def once_request_def)
  obtain w' where up: "run_state (svc_upsert_job sample_ext mem_ops job) w1 = (Inr (), w')"
    using empty_upsert_ok[OF inv(2,1) cron codec] by blast
  have name: "so_get_job_by_name mem_ops n mem_new = (Inr None, mem_new)" for n
    by (simp add: mem_ops_def mem_get_job_by_name_def mem_new_def)
  have reg: "registry_contains (cs_registry open_state) ''cleanup''"
    by (simp add: open_state_def from_inventory_def registry_contains_def registry_register_def registry_new_def
        descriptor_with_signature_def descriptor_new_def)
  have adm: "require_admin open_state parts = Inr ()" by (simp add: require_admin_def open_state_def)
  have req: "u_script_name once_request = ''cleanup''" "u_job_name once_request = ''nightly''"
    by (simp_all add: once_request_def)
  have w1: "?w\<lparr>w_store := mem_new, w_uuids := Suc (w_uuids ?w), w_reads := Suc (w_reads ?w)\<rparr> = w1"
    by (simp add: w1_def sample_world_def)
  have "run_state (http_upsert_job sample_ext fmt mem_ops open_state parts once_request) ?w =
      run_state (http_store_job sample_ext fmt mem_ops job) w1"
    using job
    by (simp add: http_upsert_job_def with_admin_def adm reg req svc_get_job_by_name_def world_simps inv(3) name
        ok_flatten_def w1 flip: base_def)
  then show ?thesis using cron up by (simp add: http_store_job_def respond_def)
qed

section \<open>Properties\<close>

text \<open>
  (C32) Authentication fails closed. A request that the extractor rejects gets a 401 answer from every
  route and changes nothing. When authentication is required and no verifier is installed, every
  request is rejected, and the state builder refuses such a configuration.
\<close>
theorem http_fails_closed:
  assumes "cs_require_admin_auth st \<and> cs_admin_auth st = None \<or>
           (\<exists>auth. cs_admin_auth st = Some auth \<and> auth parts = Inl msg0)"
  shows "\<exists>msg. require_admin st parts = Inl msg \<and>
    run_state (http_upsert_job X fmt S st parts req) w = (unauthorized msg, w) \<and>
    run_state (http_list_jobs fmt S st parts lj) w = (unauthorized msg, w) \<and>
    run_state (http_get_job fmt S st parts i) w = (unauthorized msg, w) \<and>
    run_state (http_pause_job S st parts i) w = (unauthorized msg, w) \<and>
    run_state (http_resume_job S st parts i) w = (unauthorized msg, w) \<and>
    run_state (http_run_now S st parts i p) w = (unauthorized msg, w) \<and>
    run_state (http_get_job_revisions fmt S st parts i) w = (unauthorized msg, w) \<and>
    run_state (http_list_runs fmt S st parts lr) w = (unauthorized msg, w) \<and>
    run_state (http_get_run fmt S st parts i) w = (unauthorized msg, w) \<and>
    run_state (http_list_scripts st parts) w = (unauthorized msg, w) \<and>
    (cs_admin_auth st = None \<longrightarrow> (\<forall>st'. state_builder_build st \<noteq> Inr st'))"
proof -
  obtain msg where "require_admin st parts = Inl msg"
    using assms by (auto simp: require_admin_def split: option.splits)
  then show ?thesis
    using assms by (intro exI[of _ msg]) (auto simp: http_handler_defs with_admin_def state_builder_build_def)
qed

theorem http_fails_closed_witness:
  "\<exists>msg. run_state (http_run_now mem_ops
      \<lparr>cs_registry = [], cs_admin_auth = Some (static_token_admin_auth ''secret''),
       cs_require_admin_auth = True, cs_http_upsert_actor = None\<rparr>
      \<lparr>hp_headers = [(''x-chronon-admin-token'', Some ''guess'')]\<rparr> ''job-1'' None) (sample_world mem_new) =
    (unauthorized msg, sample_world mem_new)"
proof -
  let ?st = "\<lparr>cs_registry = [], cs_admin_auth = Some (static_token_admin_auth ''secret''),
       cs_require_admin_auth = True, cs_http_upsert_actor = None\<rparr> :: mem_store chronon_state"
  let ?parts = "\<lparr>hp_headers = [(''x-chronon-admin-token'', Some ''guess'')]\<rparr>"
  have "cs_require_admin_auth ?st \<and> cs_admin_auth ?st = None \<or>
      (\<exists>auth. cs_admin_auth ?st = Some auth \<and> auth ?parts = Inl ''missing or invalid x-chronon-admin-token'')"
    by (simp add: static_token_admin_auth_def)
  from http_fails_closed[OF this, where S = mem_ops and w = "sample_world mem_new" and i = "''job-1''" and p = None]
  show ?thesis by blast
qed

text \<open>
  (C5) What external callers can store. When the upsert route answers 200 on the in-memory backend,
  the row of the named job is stored for a registered script with concurrency, timeout and retry
  policy within the security bounds; its actor is neither a System nor a ServiceUser actor, unless
  it is the actor that the job already had, and a pool that was not there before is a valid pool
  identifier.
\<close>
theorem http_upsert_is_confined:
  assumes "mem_reachable (w_store w)" "retry_codec_ok X"
    and "run_state (http_upsert_job X fmt mem_ops st parts req) w = (Some (200, resp), w')"
  shows "\<exists>i j. hm_get (m_jobs (w_store w')) i = Some j \<and> j_job_name j = u_job_name req \<and>
    j_script_name j = u_script_name req \<and> registry_contains (cs_registry st) (u_script_name req) \<and>
    request_bounds X j \<and>
    (is_system_shaped_actor (j_actor_json j) \<or> is_service_user_shaped_actor (j_actor_json j) \<longrightarrow>
       (\<exists>old. hm_get (m_jobs (w_store w)) i = Some old \<and> j_actor_json old = j_actor_json j)) \<and>
    (\<not> valid_pool (j_pool j) \<longrightarrow>
       (\<exists>old. hm_get (m_jobs (w_store w)) i = Some old \<and> j_pool old = j_pool j))"
proof -
  have inv: "mem_inv (w_store w)" using assms(1) by (rule mem_reachable_inv)
  from http_upsert_ok[OF inv assms(3)] obtain base job n t where
    reg: "registry_contains (cs_registry st) (u_script_name req)"
    and base: "upsert_base X (w_store w) req base"
    and req: "request_job X req base = (Inr job :: job_response http + job)"
    and row: "hm_get (m_jobs (w_store w')) (j_job_id base) =
        Some ((svc_with_partition X (w_env w) job)\<lparr>j_next_run_at := n, j_updated_at := t\<rparr>)"
    by (elim conjE exE) (rule that, assumption+, simp)
  let ?j = "(svc_with_partition X (w_env w) job)\<lparr>j_next_run_at := n, j_updated_at := t\<rparr>"
  note job = request_jobD[OF req]
  have sel: "j_job_name ?j = j_job_name job" "j_script_name ?j = j_script_name job"
    "j_actor_json ?j = j_actor_json job" "j_pool ?j = j_pool job"
    by (simp_all add: svc_with_partition_def)
  obtain k where k: "job = job_clamp_security_bounds X k" using job(9) by blast
  have "request_bounds X ?j = request_bounds X job"
    by (rule request_bounds_cong) (simp_all add: svc_with_partition_def)
  then have bounds: "request_bounds X ?j" using clamp_bounds[OF assms(2), of k] k by simp
  have old: "(\<exists>old. hm_get (m_jobs (w_store w)) (j_job_id base) = Some old \<and>
      j_actor_json old = j_actor_json base \<and> j_pool old = j_pool base) \<or>
      \<not> privileged (j_actor_json base) \<and> valid_pool (j_pool base)"
    and name: "j_job_name base = u_job_name req" "j_script_name base = u_script_name req"
    using base by (auto simp: upsert_base_def job_new_def privileged_def valid_pool_def
        is_system_shaped_actor_def is_service_user_shaped_actor_def)
  show ?thesis
    using row reg bounds old job(2,3,7,8) name
    by (intro exI[of _ "j_job_id base"] exI[of _ ?j]) (auto simp: sel privileged_def)
qed

theorem http_upsert_is_confined_witness:
  "\<exists>resp w' i j. run_state (http_upsert_job sample_ext nat_fmt mem_ops open_state no_parts once_request)
     (sample_world mem_new) = (Some (200, resp), w') \<and>
     hm_get (m_jobs (w_store w')) i = Some j \<and> j_job_name j = ''nightly'' \<and> request_bounds sample_ext j"
proof -
  obtain resp w' where r: "run_state (http_upsert_job sample_ext nat_fmt mem_ops open_state no_parts once_request)
     (sample_world mem_new) = (Some (200, resp), w')" using once_upsert_ok by blast
  have st: "mem_reachable (w_store (sample_world mem_new))" by (simp add: sample_world_def mem_reachable.init)
  have "u_job_name once_request = ''nightly''" by (simp add: once_request_def)
  with http_upsert_is_confined[OF st sample_retry_codec r] r show ?thesis by auto
qed

text \<open>
  (C33) A run-once job created over HTTP never becomes due. The route accepts the schedule kind, but no
  fire time reaches the row: the stored job is not due at any instant, in any partition and for any
  look-ahead, so no tick ever enqueues it.
\<close>
theorem http_run_once_never_due:
  assumes "mem_reachable (w_store w)" "u_schedule_kind req = RunOnce"
    and "\<forall>i e. hm_get (m_jobs (w_store w)) i = Some e \<longrightarrow> j_job_name e \<noteq> u_job_name req"
    and "run_state (http_upsert_job X fmt mem_ops st parts req) w = (Some (200, resp), w')"
  shows "\<exists>i j. hm_get (m_jobs (w_store w')) i = Some j \<and> j_job_name j = u_job_name req \<and>
    j_schedule_kind j = RunOnce \<and> j_next_run_at j = None \<and> \<not> due_in_partitions now owned due_until j"
proof -
  have inv: "mem_inv (w_store w)" using assms(1) by (rule mem_reachable_inv)
  from http_upsert_ok[OF inv assms(4)] obtain base job n t where
    base: "upsert_base X (w_store w) req base"
    and req: "request_job X req base = (Inr job :: job_response http + job)"
    and row: "hm_get (m_jobs (w_store w')) (j_job_id base) =
        Some ((svc_with_partition X (w_env w) job)\<lparr>j_next_run_at := n, j_updated_at := t\<rparr>)"
    and cron: "svc_cron job = None \<longrightarrow> n = j_next_run_at job"
    by (elim conjE exE) (rule that, assumption+, simp)
  note job = request_jobD[OF req]
  have "j_next_run_at base = None" "j_job_name base = u_job_name req"
    using base assms(3) by (auto simp: upsert_base_def job_new_def)
  moreover have "svc_cron job = None" using job(5) assms(2) by (simp add: svc_cron_def)
  ultimately show ?thesis
    using row cron job(2,4,5) assms(2)
    by (intro exI[of _ "j_job_id base"]) (auto simp: svc_with_partition_def due_in_partitions_def is_some_and_def)
qed

theorem http_run_once_never_due_witness:
  "\<exists>resp w' i j. run_state (http_upsert_job sample_ext nat_fmt mem_ops open_state no_parts once_request)
     (sample_world mem_new) = (Some (200, resp), w') \<and>
     hm_get (m_jobs (w_store w')) i = Some j \<and> j_job_name j = ''nightly'' \<and>
     \<not> due_in_partitions 1000 [0] 2000 j"
proof -
  obtain resp w' where r: "run_state (http_upsert_job sample_ext nat_fmt mem_ops open_state no_parts once_request)
     (sample_world mem_new) = (Some (200, resp), w')" using once_upsert_ok by blast
  have st: "mem_reachable (w_store (sample_world mem_new))" "m_jobs (w_store (sample_world mem_new)) = []"
    by (simp_all add: sample_world_def mem_reachable.init) (simp add: mem_new_def)
  have "u_schedule_kind once_request = RunOnce" "u_job_name once_request = ''nightly''"
    by (simp_all add: once_request_def)
  with http_run_once_never_due[OF st(1) _ _ r, of 1000 "[0]" 2000] r show ?thesis by (auto simp: st(2))
qed

text \<open>
  A revision listing shows no identity and no parameters: in every entry of a 200 answer the
  author is null, and so are the actor and the parameters of the snapshot when it is an object.
\<close>
lemma http_revisions_redacted:
  assumes "run_state (http_get_job_revisions fmt S st parts i) w = (Some (200, resp), w')"
    and "api_data resp = Some vs" "v \<in> set vs"
  shows "json_get ''changed_by_actor_json'' v = Some JNull \<and>
    (\<exists>snap. json_get ''snapshot_json'' v = Some snap \<and>
       (\<forall>kvs. snap = JObject kvs \<longrightarrow> json_get ''actor_json'' snap = Some JNull \<and>
          json_get ''params_json'' snap = Some JNull))"
proof -
  obtain rs where "vs = map (revision_json fmt) rs"
    using assms(1,2)
    by (auto simp: http_get_job_revisions_def with_admin_def unauthorized_def run_state_bind respond_ok api_ok_def
        split: sum.splits prod.splits if_splits)
  then obtain r where "v = revision_json fmt r" using assms(3) by auto
  moreover have "json_get k (redact_revision_snapshot s) = Some JNull"
    if "redact_revision_snapshot s = JObject kvs" "k = ''actor_json'' \<or> k = ''params_json''" for s kvs k
    using that by (cases s) (auto simp: redact_revision_snapshot_def hm_simps)
  ultimately show ?thesis by (auto simp: revision_json_def)
qed

definition revised_store :: mem_store where
  "revised_store = snd (mem_append_revision
     (job_revision_new ''v1'' 7 ''job-1'' 1 (JString ''alice'') (JObject [(''actor_json'', JString ''alice'')]))
     (snd (mem_upsert_job sample_job mem_new)))"

end
