(* ===== verification/Job_Builder.thy ===== *)
theory Job_Builder
  imports Partitioning
begin

text \<open>
  The fluent builder of job rows (\<^verbatim>\<open>chronon-scheduler/src/job_builder.rs\<close>), one definition per
  method. Typed parameters are represented by the result of serialising them.
\<close>

record job_builder =
  b_script_name :: string
  b_job_name :: "string option"
  b_actor_json :: "json option"
  b_params :: "(string + json) option"
  b_cron_expr :: "string option"
  b_timezone :: "string option"
  b_run_once_at :: "time option"
  b_schedule_kind :: schedule_kind
  b_enabled :: bool
  b_pool :: "string option"
  b_region :: "string option"
  b_concurrency :: int
  b_timeout_ms :: "int option"
  b_retry_policy :: retry_policy
  b_misfire_policy :: misfire_policy

definition builder_new :: "script_handle \<Rightarrow> job_builder" where
  "builder_new handle =
     \<lparr>b_script_name = handle, b_job_name = None, b_actor_json = None, b_params = None,
      b_cron_expr = None, b_timezone = None, b_run_once_at = None, b_schedule_kind = Cron,
      b_enabled = True, b_pool = None, b_region = None, b_concurrency = 1, b_timeout_ms = None,
      b_retry_policy = retry_policy_default, b_misfire_policy = misfire_policy_default\<rparr>"

definition builder_name :: "string \<Rightarrow> job_builder \<Rightarrow> job_builder" where
  "builder_name n b = b\<lparr>b_job_name := Some n\<rparr>"

definition with_actor_json :: "json \<Rightarrow> job_builder \<Rightarrow> job_builder" where
  "with_actor_json a b = b\<lparr>b_actor_json := Some a\<rparr>"

definition builder_cron :: "('sc, 'tz) ext \<Rightarrow> string \<Rightarrow> job_builder \<Rightarrow> job_builder res" where
  "builder_cron X expr b =
     (case cron_parse X expr None of
        Inl e \<Rightarrow> Inl e
      | Inr _ \<Rightarrow> Inr (b\<lparr>b_cron_expr := Some expr, b_schedule_kind := Cron\<rparr>))"

definition builder_timezone :: "string \<Rightarrow> job_builder \<Rightarrow> job_builder" where
  "builder_timezone tz b = b\<lparr>b_timezone := Some tz\<rparr>"

definition builder_run_once_at :: "time \<Rightarrow> job_builder \<Rightarrow> job_builder" where
  "builder_run_once_at t b = b\<lparr>b_run_once_at := Some t, b_schedule_kind := RunOnce\<rparr>"

definition builder_manual :: "job_builder \<Rightarrow> job_builder" where
  "builder_manual b = b\<lparr>b_schedule_kind := Manual\<rparr>"

definition builder_params :: "string + json \<Rightarrow> job_builder \<Rightarrow> job_builder" where
  "builder_params p b = b\<lparr>b_params := Some p\<rparr>"

definition builder_pool :: "string \<Rightarrow> job_builder \<Rightarrow> job_builder" where
  "builder_pool p b = b\<lparr>b_pool := Some p\<rparr>"

definition builder_region :: "string \<Rightarrow> job_builder \<Rightarrow> job_builder" where
  "builder_region r b = b\<lparr>b_region := Some r\<rparr>"

definition builder_concurrency :: "int \<Rightarrow> job_builder \<Rightarrow> job_builder" where
  "builder_concurrency n b = b\<lparr>b_concurrency := n\<rparr>"

definition builder_timeout_ms :: "int \<Rightarrow> job_builder \<Rightarrow> job_builder" where
  "builder_timeout_ms ms b = b\<lparr>b_timeout_ms := Some ms\<rparr>"

definition builder_retry_policy :: "retry_policy \<Rightarrow> job_builder \<Rightarrow> job_builder" where
  "builder_retry_policy p b = b\<lparr>b_retry_policy := p\<rparr>"

definition builder_misfire_policy :: "misfire_policy \<Rightarrow> job_builder \<Rightarrow> job_builder" where
  "builder_misfire_policy p b = b\<lparr>b_misfire_policy := p\<rparr>"

definition builder_disabled :: "job_builder \<Rightarrow> job_builder" where
  "builder_disabled b = b\<lparr>b_enabled := False\<rparr>"

text \<open>The row of \<^verbatim>\<open>build\<close> from its parts.\<close>

definition built_job ::
  "job \<Rightarrow> job_builder \<Rightarrow> json \<Rightarrow> string option \<Rightarrow> time option \<Rightarrow> json \<Rightarrow> json \<Rightarrow> job" where
  "built_job j b params_json cron_expr next_run_at retry misfire =
     j\<lparr>j_enabled := b_enabled b, j_schedule_kind := b_schedule_kind b, j_cron_expr := cron_expr,
       j_timezone := b_timezone b, j_run_once_at := b_run_once_at b, j_pool := b_pool b,
       j_region := b_region b,
       j_actor_json := (case b_actor_json b of None \<Rightarrow> JNull | Some a \<Rightarrow> a),
       j_params_json := params_json, j_concurrency := b_concurrency b,
       j_timeout_ms := b_timeout_ms b, j_retry_policy_json := retry,
       j_misfire_policy_json := misfire, j_next_run_at := next_run_at, j_current_revision := 1\<rparr>"

definition builder_schedule ::
  "('sc, 'tz) ext \<Rightarrow> job_builder \<Rightarrow> ('s, (string option \<times> time option) res) proc" where
  "builder_schedule X b =
     (case b_schedule_kind b of
        Cron \<Rightarrow>
          (case b_cron_expr b of
             None \<Rightarrow> ret (Inr (None, None))
           | Some expr \<Rightarrow>
               (case cron_parse X expr (b_timezone b) of
                  Inl e \<Rightarrow> ret (Inl e)
                | Inr c \<Rightarrow> do { next \<leftarrow> next_from_now X c; ret (Inr (Some (ce_expr c), next)) }))
      | RunOnce \<Rightarrow> ret (Inr (None, b_run_once_at b))
      | Manual \<Rightarrow> ret (Inr (None, None)))"

definition builder_build :: "('sc, 'tz) ext \<Rightarrow> job_builder \<Rightarrow> ('s, job res) proc" where
  "builder_build X b =
     (case b_job_name b of
        None \<Rightarrow> ret (Inl (ParamError ''job name is required''))
      | Some job_name \<Rightarrow>
          (case b_params b of
             Some (Inl e) \<Rightarrow> ret (Inl (ParamError e))
           | params \<Rightarrow>
               bind_ok (builder_schedule X b) (\<lambda>(cron_expr, next_run_at). do {
                 uuid \<leftarrow> new_uuid;
                 now \<leftarrow> utc_now;
                 case x_retry_to X (b_retry_policy b) of
                   Inl e \<Rightarrow> ret (Inl (ParamError e))
                 | Inr retry \<Rightarrow>
                     (case x_misfire_to X (b_misfire_policy b) of
                        Inl e \<Rightarrow> ret (Inl (ParamError e))
                      | Inr misfire \<Rightarrow>
                          ret (Inr (built_job (job_new X uuid now job_name (b_script_name b)) b
                            (case params of Some (Inr v) \<Rightarrow> v | _ \<Rightarrow> JObject [])
                            cron_expr next_run_at retry misfire))) })))"

end
