(* ===== verification/Sql_Rows.thy ===== *)
theory Sql_Rows
  imports Redaction
begin

text \<open>
  The row mapping of \<^verbatim>\<open>chronon-backend-sql-common\<close> (\<^verbatim>\<open>row/*.rs\<close>), the placeholder rewriting and the
  schema-name check of \<^verbatim>\<open>backend.rs\<close>, and the error mapping of \<^verbatim>\<open>error_map.rs\<close>. A column of type
  \<^verbatim>\<open>TIMESTAMPTZ\<close> keeps an instant with the precision of the engine (\<open>q_time\<close>); a JSON column keeps the text
  that \<^verbatim>\<open>serde_json\<close> writes (\<open>q_to_string\<close>) and reads (\<open>q_from_str\<close>). These belong to crates outside the
  repository and are fields of \<open>sql_codec\<close>.
\<close>

section \<open>Dialects and parameters\<close>

datatype sql_dialect = Postgres | Sqlite

record sql_codec =
  q_dialect :: sql_dialect
  q_time :: "time \<Rightarrow> time"
  q_to_string :: "json \<Rightarrow> string + string"
  q_from_str :: "string \<Rightarrow> string + json"

text \<open>\<^verbatim>\<open>bind_sql\<close>: the placeholder \<^verbatim>\<open>?\<close> becomes \<^verbatim>\<open>$1\<close>, \<^verbatim>\<open>$2\<close>, ... for PostgreSQL.\<close>

fun number_placeholders :: "nat \<Rightarrow> string \<Rightarrow> string" where
  "number_placeholders n [] = []"
| "number_placeholders n (c # cs) =
     (if c = CHR ''?'' then CHR ''$'' # nat_to_string n @ number_placeholders (n + 1) cs
      else c # number_placeholders n cs)"

definition bind_sql :: "sql_dialect \<Rightarrow> string \<Rightarrow> string" where
  "bind_sql d sql = (case d of Sqlite \<Rightarrow> sql | Postgres \<Rightarrow> number_placeholders 1 sql)"

definition postgres_max_connections :: "(string \<Rightarrow> string option) \<Rightarrow> nat" where
  "postgres_max_connections env =
     (let n = (case env ''CHRONON_PG_POOL_SIZE'' of
                 None \<Rightarrow> 5
               | Some v \<Rightarrow> (case parse_unsigned u32_max v of None \<Rightarrow> 5 | Some k \<Rightarrow> k))
      in max 1 (min 200 n))"

definition sqlite_url_is_file_backed :: "string \<Rightarrow> bool" where
  "sqlite_url_is_file_backed url =
     (let lower = to_ascii_lowercase url
      in \<not> str_contains '':memory:'' lower \<and> \<not> str_contains ''mode=memory'' lower)"

definition is_ascii_alphabetic :: "char \<Rightarrow> bool" where
  "is_ascii_alphabetic c \<longleftrightarrow> is_ascii_alphanumeric c \<and> \<not> is_ascii_digit c"

definition validate_postgres_schema_name :: "string \<Rightarrow> unit res" where
  "validate_postgres_schema_name schema =
     (case schema of
        [] \<Rightarrow> Inl (ParamError ''postgres schema name must be 1..63 characters'')
      | first # rest \<Rightarrow>
          if length schema > 63
          then Inl (ParamError ''postgres schema name must be 1..63 characters'')
          else if \<not> (is_ascii_alphabetic first \<or> first = CHR ''_'')
          then Inl (ParamError ''postgres schema name must start with ASCII letter or underscore'')
          else if \<not> list_all (\<lambda>c. is_ascii_alphanumeric c \<or> c = CHR ''_'') rest
          then Inl (ParamError
            ''postgres schema name may contain only ASCII letters, digits, and underscores'')
          else Inr ())"

text \<open>The two texts into which a checked schema name is interpolated.\<close>

definition create_schema_ddl :: "string \<Rightarrow> string" where
  "create_schema_ddl schema =
     ''CREATE SCHEMA IF NOT EXISTS '' @ [CHR 0x22] @ schema @ [CHR 0x22]"

definition search_path_sql :: "string \<Rightarrow> string" where
  "search_path_sql schema = ''SET search_path TO '' @ [CHR 0x22] @ schema @ [CHR 0x22]"

definition drop_schema_ddl :: "string \<Rightarrow> string" where
  "drop_schema_ddl schema =
     ''DROP SCHEMA IF EXISTS '' @ [CHR 0x22] @ schema @ [CHR 0x22] @ '' CASCADE''"

text \<open>\<^verbatim>\<open>map_err\<close> and \<^verbatim>\<open>map_connect_err\<close>; \<open>None\<close> is a panic of the redaction.\<close>

definition map_err :: "string \<Rightarrow> chronon_error option" where
  "map_err e =
     (case redact_credentials_in_text e of
        None \<Rightarrow> None
      | Some message \<Rightarrow> Some (StorageError message (Some e)))"

definition map_connect_err :: "string \<Rightarrow> string \<Rightarrow> string \<Rightarrow> chronon_error option" where
  "map_connect_err kind url e =
     (case redact_credentials_in_text e of
        None \<Rightarrow> None
      | Some detail \<Rightarrow>
          Some (StorageError (kind @ '' connect '' @ redact_endpoint url @ '': '' @ detail) (Some e)))"

section \<open>Names of enumerations\<close>

definition storage_error :: "string \<Rightarrow> chronon_error" where
  "storage_error message = StorageError message None"

fun schedule_kind_to_str :: "schedule_kind \<Rightarrow> string" where
  "schedule_kind_to_str Cron = ''cron''"
| "schedule_kind_to_str RunOnce = ''run_once''"
| "schedule_kind_to_str Manual = ''manual''"

definition parse_schedule_kind :: "string \<Rightarrow> schedule_kind res" where
  "parse_schedule_kind s =
     (if s = ''cron'' then Inr Cron
      else if s = ''run_once'' then Inr RunOnce
      else if s = ''manual'' then Inr Manual
      else Inl (storage_error (''unknown schedule kind: '' @ s)))"

fun run_status_to_str :: "run_status \<Rightarrow> string" where
  "run_status_to_str Queued = ''queued''"
| "run_status_to_str Claimed = ''claimed''"
| "run_status_to_str Running = ''running''"
| "run_status_to_str Success = ''success''"
| "run_status_to_str Failed = ''failed''"
| "run_status_to_str Canceled = ''canceled''"
| "run_status_to_str Timeout = ''timeout''"

definition parse_sql_run_status :: "string \<Rightarrow> run_status res" where
  "parse_sql_run_status s =
     (if s = ''queued'' then Inr Queued
      else if s = ''claimed'' then Inr Claimed
      else if s = ''running'' then Inr Running
      else if s = ''success'' then Inr Success
      else if s = ''failed'' then Inr Failed
      else if s = ''canceled'' then Inr Canceled
      else if s = ''timeout'' then Inr Timeout
      else Inl (storage_error (''unknown run status: '' @ s)))"

fun worker_status_to_str :: "worker_status \<Rightarrow> string" where
  "worker_status_to_str Online = ''online''"
| "worker_status_to_str Draining = ''draining''"
| "worker_status_to_str Offline = ''offline''"

definition parse_worker_status :: "string \<Rightarrow> worker_status res" where
  "parse_worker_status s =
     (if s = ''online'' then Inr Online
      else if s = ''draining'' then Inr Draining
      else if s = ''offline'' then Inr Offline
      else Inl (storage_error (''unknown worker status: '' @ s)))"

section \<open>JSON columns\<close>

definition and_then :: "'a res \<Rightarrow> ('a \<Rightarrow> 'b res) \<Rightarrow> 'b res" where
  "and_then r f = (case r of Inl e \<Rightarrow> Inl e | Inr a \<Rightarrow> f a)"

lemma and_then_simps [simp]: "and_then (Inl e) f = Inl e" "and_then (Inr a) f = f a"
  by (simp_all add: and_then_def)

definition decode_json :: "sql_codec \<Rightarrow> string \<Rightarrow> json res" where
  "decode_json C raw = (case q_from_str C raw of Inl e \<Rightarrow> Inl (ParamError e) | Inr v \<Rightarrow> Inr v)"

definition decode_json_opt :: "sql_codec \<Rightarrow> string option \<Rightarrow> json option res" where
  "decode_json_opt C raw =
     (case raw of None \<Rightarrow> Inr None | Some s \<Rightarrow> and_then (decode_json C s) (\<lambda>v. Inr (Some v)))"

definition encode_json :: "sql_codec \<Rightarrow> json \<Rightarrow> string res" where
  "encode_json C v = (case q_to_string C v of Inl e \<Rightarrow> Inl (ParamError e) | Inr s \<Rightarrow> Inr s)"

definition encode_json_opt :: "sql_codec \<Rightarrow> json option \<Rightarrow> string option res" where
  "encode_json_opt C v =
     (case v of None \<Rightarrow> Inr None | Some x \<Rightarrow> and_then (encode_json C x) (\<lambda>s. Inr (Some s)))"

text \<open>
  Per table: the row, \<^verbatim>\<open>from_model\<close>, the binding of its columns (which rounds the instants), and the
  reading of a stored row (\<^verbatim>\<open>row_to_*\<close> followed by \<^verbatim>\<open>to_model\<close>). The column \<^verbatim>\<open>enabled\<close> is an integer, bound
  as 0 or 1 and read as true when it is not 0.
\<close>

section \<open>Jobs\<close>

record job_row =
  jr_job_id :: string
  jr_job_name :: string
  jr_script_name :: string
  jr_script_sig_hash :: string
  jr_enabled :: int
  jr_schedule_kind :: string
  jr_cron_expr :: "string option"
  jr_timezone :: "string option"
  jr_run_once_at :: "time option"
  jr_run_once_claimed_at :: "time option"
  jr_run_once_claimed_by :: "string option"
  jr_run_once_completed_at :: "time option"
  jr_run_once_claim_expires_at :: "time option"
  jr_partition_hash :: "int option"
  jr_claim_lease_id :: "string option"
  jr_claim_lease_until :: "time option"
  jr_pool :: "string option"
  jr_region :: "string option"
  jr_placement_json :: "string option"
  jr_actor_json :: string
  jr_params_json :: string
  jr_concurrency :: int
  jr_timeout_ms :: "int option"
  jr_retry_policy_json :: string
  jr_misfire_policy_json :: string
  jr_parent_limits_json :: "string option"
  jr_next_run_at :: "time option"
  jr_current_revision :: int
  jr_updated_at :: time
  jr_created_at :: time

definition job_row_from_model :: "sql_codec \<Rightarrow> job \<Rightarrow> job_row res" where
  "job_row_from_model C j =
     and_then (encode_json_opt C (j_placement_json j)) (\<lambda>placement_json.
     and_then (encode_json C (j_actor_json j)) (\<lambda>actor_json.
     and_then (encode_json C (j_params_json j)) (\<lambda>params_json.
     and_then (encode_json C (j_retry_policy_json j)) (\<lambda>retry_policy_json.
     and_then (encode_json C (j_misfire_policy_json j)) (\<lambda>misfire_policy_json.
     and_then (encode_json_opt C (j_parent_limits_json j)) (\<lambda>parent_limits_json.
       Inr
         \<lparr>jr_job_id = j_job_id j, jr_job_name = j_job_name j,
           jr_script_name = j_script_name j, jr_script_sig_hash = j_script_sig_hash j,
           jr_enabled = (if j_enabled j then 1 else 0),
           jr_schedule_kind = schedule_kind_to_str (j_schedule_kind j),
           jr_cron_expr = j_cron_expr j, jr_timezone = j_timezone j,
           jr_run_once_at = j_run_once_at j, jr_run_once_claimed_at = j_run_once_claimed_at j,
           jr_run_once_claimed_by = j_run_once_claimed_by j,
           jr_run_once_completed_at = j_run_once_completed_at j,
           jr_run_once_claim_expires_at = j_run_once_claim_expires_at j,
           jr_partition_hash = j_partition_hash j, jr_claim_lease_id = j_claim_lease_id j,
           jr_claim_lease_until = j_claim_lease_until j, jr_pool = j_pool j,
           jr_region = j_region j, jr_placement_json = placement_json,
           jr_actor_json = actor_json, jr_params_json = params_json,
           jr_concurrency = j_concurrency j, jr_timeout_ms = j_timeout_ms j,
           jr_retry_policy_json = retry_policy_json,
           jr_misfire_policy_json = misfire_policy_json,
           jr_parent_limits_json = parent_limits_json, jr_next_run_at = j_next_run_at j,
           jr_current_revision = j_current_revision j, jr_updated_at = j_updated_at j,
           jr_created_at = j_created_at j\<rparr>))))))"

definition bind_job_row :: "sql_codec \<Rightarrow> job_row \<Rightarrow> job_row" where
  "bind_job_row C row =
     row\<lparr>jr_run_once_at := map_option (q_time C) (jr_run_once_at row),
       jr_run_once_claimed_at := map_option (q_time C) (jr_run_once_claimed_at row),
       jr_run_once_completed_at := map_option (q_time C) (jr_run_once_completed_at row),
       jr_run_once_claim_expires_at := map_option (q_time C) (jr_run_once_claim_expires_at row),
       jr_claim_lease_until := map_option (q_time C) (jr_claim_lease_until row),
       jr_next_run_at := map_option (q_time C) (jr_next_run_at row),
       jr_updated_at := q_time C (jr_updated_at row),
       jr_created_at := q_time C (jr_created_at row)\<rparr>"

definition row_to_job :: "sql_codec \<Rightarrow> job_row \<Rightarrow> job res" where
  "row_to_job C row =
     and_then (parse_schedule_kind (jr_schedule_kind row)) (\<lambda>schedule_kind.
     and_then (decode_json_opt C (jr_placement_json row)) (\<lambda>placement_json.
     and_then (decode_json C (jr_actor_json row)) (\<lambda>actor_json.
     and_then (decode_json C (jr_params_json row)) (\<lambda>params_json.
     and_then (decode_json C (jr_retry_policy_json row)) (\<lambda>retry_policy_json.
     and_then (decode_json C (jr_misfire_policy_json row)) (\<lambda>misfire_policy_json.
     and_then (decode_json_opt C (jr_parent_limits_json row)) (\<lambda>parent_limits_json.
       Inr
         \<lparr>j_job_id = jr_job_id row, j_job_name = jr_job_name row,
           j_script_name = jr_script_name row, j_script_sig_hash = jr_script_sig_hash row,
           j_enabled = (jr_enabled row \<noteq> 0), j_schedule_kind = schedule_kind,
           j_cron_expr = jr_cron_expr row, j_timezone = jr_timezone row,
           j_run_once_at = jr_run_once_at row,
           j_run_once_claimed_at = jr_run_once_claimed_at row,
           j_run_once_claimed_by = jr_run_once_claimed_by row,
           j_run_once_completed_at = jr_run_once_completed_at row,
           j_run_once_claim_expires_at = jr_run_once_claim_expires_at row,
           j_partition_hash = jr_partition_hash row, j_claim_lease_id = jr_claim_lease_id row,
           j_claim_lease_until = jr_claim_lease_until row, j_pool = jr_pool row,
           j_region = jr_region row, j_placement_json = placement_json,
           j_actor_json = actor_json, j_params_json = params_json,
           j_concurrency = jr_concurrency row, j_timeout_ms = jr_timeout_ms row,
           j_retry_policy_json = retry_policy_json,
           j_misfire_policy_json = misfire_policy_json,
           j_parent_limits_json = parent_limits_json, j_next_run_at = jr_next_run_at row,
           j_current_revision = jr_current_revision row, j_updated_at = jr_updated_at row,
           j_created_at = jr_created_at row\<rparr>)))))))"

section \<open>Runs\<close>

record run_row =
  rr_run_id :: string
  rr_job_id :: "string option"
  rr_script_name :: string
  rr_parent_run_id :: "string option"
  rr_root_run_id :: "string option"
  rr_child_index :: "int option"
  rr_scheduled_for :: time
  rr_started_at :: "time option"
  rr_finished_at :: "time option"
  rr_duration_ms :: "int option"
  rr_status :: string
  rr_attempt :: int
  rr_instance_id :: "string option"
  rr_placement_json :: "string option"
  rr_pool_id :: "string option"
  rr_actor_json :: string
  rr_params_json :: string
  rr_stdout_text :: "string option"
  rr_stderr_text :: "string option"
  rr_error_json :: "string option"
  rr_stats_json :: "string option"
  rr_claimed_by :: "string option"
  rr_claim_lease_until :: "time option"

definition run_row_from_model :: "sql_codec \<Rightarrow> run \<Rightarrow> run_row res" where
  "run_row_from_model C r =
     and_then (encode_json_opt C (r_placement_json r)) (\<lambda>placement_json.
     and_then (encode_json C (r_actor_json r)) (\<lambda>actor_json.
     and_then (encode_json C (r_params_json r)) (\<lambda>params_json.
     and_then (encode_json_opt C (r_error_json r)) (\<lambda>error_json.
     and_then (encode_json_opt C (r_stats_json r)) (\<lambda>stats_json.
       Inr
         \<lparr>rr_run_id = r_run_id r, rr_job_id = r_job_id r,
           rr_script_name = r_script_name r, rr_parent_run_id = r_parent_run_id r,
           rr_root_run_id = r_root_run_id r, rr_child_index = r_child_index r,
           rr_scheduled_for = r_scheduled_for r, rr_started_at = r_started_at r,
           rr_finished_at = r_finished_at r, rr_duration_ms = r_duration_ms r,
           rr_status = run_status_to_str (r_status r), rr_attempt = r_attempt r,
           rr_instance_id = r_instance_id r, rr_placement_json = placement_json,
           rr_pool_id = r_pool_id r, rr_actor_json = actor_json, rr_params_json = params_json,
           rr_stdout_text = r_stdout_text r, rr_stderr_text = r_stderr_text r,
           rr_error_json = error_json, rr_stats_json = stats_json,
           rr_claimed_by = r_claimed_by r, rr_claim_lease_until = r_claim_lease_until r\<rparr>)))))"

definition bind_run_row :: "sql_codec \<Rightarrow> run_row \<Rightarrow> run_row" where
  "bind_run_row C row =
     row\<lparr>rr_scheduled_for := q_time C (rr_scheduled_for row),
       rr_started_at := map_option (q_time C) (rr_started_at row),
       rr_finished_at := map_option (q_time C) (rr_finished_at row),
       rr_claim_lease_until := map_option (q_time C) (rr_claim_lease_until row)\<rparr>"

definition row_to_run :: "sql_codec \<Rightarrow> run_row \<Rightarrow> run res" where
  "row_to_run C row =
     and_then (parse_sql_run_status (rr_status row)) (\<lambda>status.
     and_then (decode_json_opt C (rr_placement_json row)) (\<lambda>placement_json.
     and_then (decode_json C (rr_actor_json row)) (\<lambda>actor_json.
     and_then (decode_json C (rr_params_json row)) (\<lambda>params_json.
     and_then (decode_json_opt C (rr_error_json row)) (\<lambda>error_json.
     and_then (decode_json_opt C (rr_stats_json row)) (\<lambda>stats_json.
       Inr
         \<lparr>r_run_id = rr_run_id row, r_job_id = rr_job_id row,
           r_script_name = rr_script_name row, r_parent_run_id = rr_parent_run_id row,
           r_root_run_id = rr_root_run_id row, r_child_index = rr_child_index row,
           r_scheduled_for = rr_scheduled_for row, r_started_at = rr_started_at row,
           r_finished_at = rr_finished_at row, r_duration_ms = rr_duration_ms row,
           r_status = status, r_attempt = rr_attempt row, r_instance_id = rr_instance_id row,
           r_placement_json = placement_json, r_pool_id = rr_pool_id row,
           r_actor_json = actor_json, r_params_json = params_json,
           r_stdout_text = rr_stdout_text row, r_stderr_text = rr_stderr_text row,
           r_error_json = error_json, r_stats_json = stats_json,
           r_claimed_by = rr_claimed_by row,
           r_claim_lease_until = rr_claim_lease_until row\<rparr>))))))"

section \<open>Revisions, scripts, leader, partitions and workers\<close>

record job_revision_row =
  vr_revision_id :: string
  vr_job_id :: string
  vr_revision_number :: int
  vr_changed_at :: time
  vr_changed_by_actor_json :: string
  vr_snapshot_json :: string

definition revision_row_from_model :: "sql_codec \<Rightarrow> job_revision \<Rightarrow> job_revision_row res" where
  "revision_row_from_model C v =
     and_then (encode_json C (v_changed_by_actor_json v)) (\<lambda>changed_by_actor_json.
     and_then (encode_json C (v_snapshot_json v)) (\<lambda>snapshot_json.
       Inr
         \<lparr>vr_revision_id = v_revision_id v, vr_job_id = v_job_id v,
           vr_revision_number = v_revision_number v, vr_changed_at = v_changed_at v,
           vr_changed_by_actor_json = changed_by_actor_json,
           vr_snapshot_json = snapshot_json\<rparr>))"

definition bind_revision_row :: "sql_codec \<Rightarrow> job_revision_row \<Rightarrow> job_revision_row" where
  "bind_revision_row C row =
     row\<lparr>vr_changed_at := q_time C (vr_changed_at row)\<rparr>"

definition row_to_revision :: "sql_codec \<Rightarrow> job_revision_row \<Rightarrow> job_revision res" where
  "row_to_revision C row =
     and_then (decode_json C (vr_changed_by_actor_json row)) (\<lambda>changed_by_actor_json.
     and_then (decode_json C (vr_snapshot_json row)) (\<lambda>snapshot_json.
       Inr
         \<lparr>v_revision_id = vr_revision_id row, v_job_id = vr_job_id row,
           v_revision_number = vr_revision_number row, v_changed_at = vr_changed_at row,
           v_changed_by_actor_json = changed_by_actor_json,
           v_snapshot_json = snapshot_json\<rparr>))"

record script_row =
  sr_script_id :: string
  sr_script_name :: string
  sr_signature_json :: string
  sr_signature_hash :: string
  sr_created_at :: time

definition script_row_from_model :: "sql_codec \<Rightarrow> script \<Rightarrow> script_row res" where
  "script_row_from_model C s =
     and_then (encode_json C (s_signature_json s)) (\<lambda>signature_json.
       Inr
         \<lparr>sr_script_id = s_script_id s, sr_script_name = s_script_name s,
           sr_signature_json = signature_json, sr_signature_hash = s_signature_hash s,
           sr_created_at = s_created_at s\<rparr>)"

definition bind_script_row :: "sql_codec \<Rightarrow> script_row \<Rightarrow> script_row" where
  "bind_script_row C row =
     row\<lparr>sr_created_at := q_time C (sr_created_at row)\<rparr>"

definition row_to_script :: "sql_codec \<Rightarrow> script_row \<Rightarrow> script res" where
  "row_to_script C row =
     and_then (decode_json C (sr_signature_json row)) (\<lambda>signature_json.
       Inr
         \<lparr>s_script_id = sr_script_id row, s_script_name = sr_script_name row,
           s_signature_json = signature_json, s_signature_hash = sr_signature_hash row,
           s_created_at = sr_created_at row\<rparr>)"

record scheduler_leader_row =
  lr_leader_id :: string
  lr_leader_instance_id :: string
  lr_leader_lease_until :: time
  lr_last_heartbeat_at :: time

definition leader_row_from_model :: "scheduler_leader \<Rightarrow> scheduler_leader_row" where
  "leader_row_from_model l =
         \<lparr>lr_leader_id = l_leader_id l, lr_leader_instance_id = l_leader_instance_id l,
           lr_leader_lease_until = l_leader_lease_until l,
           lr_last_heartbeat_at = l_last_heartbeat_at l\<rparr>"

definition bind_leader_row :: "sql_codec \<Rightarrow> scheduler_leader_row \<Rightarrow> scheduler_leader_row" where
  "bind_leader_row C row =
     row\<lparr>lr_leader_lease_until := q_time C (lr_leader_lease_until row),
       lr_last_heartbeat_at := q_time C (lr_last_heartbeat_at row)\<rparr>"

definition row_to_leader :: "scheduler_leader_row \<Rightarrow> scheduler_leader" where
  "row_to_leader row =
         \<lparr>l_leader_id = lr_leader_id row,
           l_leader_instance_id = lr_leader_instance_id row,
           l_leader_lease_until = lr_leader_lease_until row,
           l_last_heartbeat_at = lr_last_heartbeat_at row\<rparr>"

record partition_assignment_row =
  pr_partition_id :: string
  pr_owner_instance_id :: string
  pr_lease_until :: time
  pr_updated_at :: time

definition partition_row_from_model :: "partition_assignment \<Rightarrow> partition_assignment_row" where
  "partition_row_from_model a =
         \<lparr>pr_partition_id = pa_partition_id a,
           pr_owner_instance_id = pa_owner_instance_id a, pr_lease_until = pa_lease_until a,
           pr_updated_at = pa_updated_at a\<rparr>"

definition bind_partition_row :: "sql_codec \<Rightarrow> partition_assignment_row \<Rightarrow> partition_assignment_row" where
  "bind_partition_row C row =
     row\<lparr>pr_lease_until := q_time C (pr_lease_until row),
       pr_updated_at := q_time C (pr_updated_at row)\<rparr>"

definition row_to_partition :: "partition_assignment_row \<Rightarrow> partition_assignment" where
  "row_to_partition row =
         \<lparr>pa_partition_id = pr_partition_id row,
           pa_owner_instance_id = pr_owner_instance_id row,
           pa_lease_until = pr_lease_until row, pa_updated_at = pr_updated_at row\<rparr>"

record worker_row =
  kr_worker_id :: string
  kr_pool_id :: string
  kr_cell_id :: "string option"
  kr_status :: string
  kr_last_heartbeat_at :: time
  kr_capacity_json :: "string option"
  kr_created_at :: time
  kr_updated_at :: time

definition worker_row_from_model :: "sql_codec \<Rightarrow> worker \<Rightarrow> worker_row res" where
  "worker_row_from_model C k =
     and_then (encode_json_opt C (k_capacity_json k)) (\<lambda>capacity_json.
       Inr
         \<lparr>kr_worker_id = k_worker_id k, kr_pool_id = k_pool_id k,
           kr_cell_id = k_cell_id k, kr_status = worker_status_to_str (k_status k),
           kr_last_heartbeat_at = k_last_heartbeat_at k, kr_capacity_json = capacity_json,
           kr_created_at = k_created_at k, kr_updated_at = k_updated_at k\<rparr>)"

definition bind_worker_row :: "sql_codec \<Rightarrow> worker_row \<Rightarrow> worker_row" where
  "bind_worker_row C row =
     row\<lparr>kr_last_heartbeat_at := q_time C (kr_last_heartbeat_at row),
       kr_created_at := q_time C (kr_created_at row),
       kr_updated_at := q_time C (kr_updated_at row)\<rparr>"

definition row_to_worker :: "sql_codec \<Rightarrow> worker_row \<Rightarrow> worker res" where
  "row_to_worker C row =
     and_then (parse_worker_status (kr_status row)) (\<lambda>status.
     and_then (decode_json_opt C (kr_capacity_json row)) (\<lambda>capacity_json.
       Inr
         \<lparr>k_worker_id = kr_worker_id row, k_pool_id = kr_pool_id row,
           k_cell_id = kr_cell_id row, k_status = status,
           k_last_heartbeat_at = kr_last_heartbeat_at row, k_capacity_json = capacity_json,
           k_created_at = kr_created_at row, k_updated_at = kr_updated_at row\<rparr>))"

text \<open>\<^verbatim>\<open>run_pool_key\<close>\<close>

definition run_pool_key :: "string option \<Rightarrow> string" where
  "run_pool_key pool_id =
     (case pool_id of
        None \<Rightarrow> ''general''
      | Some p \<Rightarrow> if p = ''general'' then ''general'' else p)"

end
