(* ===== verification/Redis_Queue.thy ===== *)
theory Redis_Queue
  imports Sql_Rows Store_Port "HOL-Library.List_Lexorder" "HOL-Library.Char_ord" "HOL-Library.Product_Lexorder"
begin

text \<open>
  The Redis ready queue and the composite store (\<^verbatim>\<open>chronon-backend-redis\<close>: \<^verbatim>\<open>queue.rs\<close>, \<^verbatim>\<open>composite/mod.rs\<close>,
  \<^verbatim>\<open>composite/claim.rs\<close>). A server is its sorted sets by key; a command of the source is the operation on sorted
  sets it denotes, and the Lua script of a claim is one atomic step. A command may fail (\<open>rx_fault\<close>) and then
  has no effect. The composite wraps any store: it keeps rows there and the order of claims in Redis.
  A score is the number of milliseconds as a \<^verbatim>\<open>f64\<close>; instants of \<^verbatim>\<open>chrono\<close> have fewer than \<open>2^53\<close> of them, so
  the conversion is exact and a score is an integer here.
\<close>

section \<open>Sorted sets\<close>

type_synonym redis_db = "string \<Rightarrow> (string, int) hashmap"

definition zadd :: "string \<Rightarrow> string \<Rightarrow> int \<Rightarrow> redis_db \<Rightarrow> redis_db" where
  "zadd key member score db = db(key := hm_insert member score (db key))"

definition zrem :: "string \<Rightarrow> string \<Rightarrow> redis_db \<Rightarrow> redis_db" where
  "zrem key member db = db(key := hm_remove member (db key))"

text \<open>\<^verbatim>\<open>ZRANGEBYSCORE key -inf max LIMIT 0 count\<close>: by score, then by member.\<close>

definition zrange_due :: "string \<Rightarrow> int \<Rightarrow> nat \<Rightarrow> redis_db \<Rightarrow> string list" where
  "zrange_due key max_score count db =
     map fst (take count (sort_key (\<lambda>(m, s). (s, m)) (filter (\<lambda>(m, s). s \<le> max_score) (db key))))"

definition timestamp_millis :: "time \<Rightarrow> int" where
  "timestamp_millis t = t div 1000000"

section \<open>The queue layer\<close>

record redis_queue_layer =
  rq_single :: bool
  rq_cluster :: bool
  rq_key_prefix :: string
  rq_hash_tags :: bool

text \<open>What surrounds the layer: failing commands, and the environment of the process.\<close>

record redis_ctx =
  rx_layer :: redis_queue_layer
  rx_fault :: "string \<Rightarrow> redis_db \<Rightarrow> chronon_error option"
  rx_env :: "string \<Rightarrow> string option"

definition redis_hash_tags :: "(string \<Rightarrow> string option) \<Rightarrow> bool" where
  "redis_hash_tags env =
     (case env ''CHRONON_REDIS_HASH_TAGS'' of None \<Rightarrow> False | Some v \<Rightarrow> v = ''1'' \<or> v = ''true'' \<or> v = ''yes'')"

definition redis_connect_err :: "string \<Rightarrow> string \<Rightarrow> chronon_error option" where
  "redis_connect_err url e =
     (case redact_credentials_in_text e of
        None \<Rightarrow> None
      | Some detail \<Rightarrow> Some (StorageError (''redis connect '' @ redact_endpoint url @ '': '' @ detail) (Some e)))"

definition redis_err :: "string \<Rightarrow> chronon_error option" where
  "redis_err e =
     (case redact_credentials_in_text e of None \<Rightarrow> None | Some message \<Rightarrow> Some (StorageError message (Some e)))"

text \<open>
  \<^verbatim>\<open>connect\<close>: the drivers are functions that say why a connection failed; \<open>None\<close> is a panic of the redaction.
\<close>

definition redis_nodes :: "string \<Rightarrow> string list" where
  "redis_nodes urls = filter (\<lambda>s. s \<noteq> []) (map trim (split_on (CHR '','') urls))"

definition redis_connect ::
  "(string \<Rightarrow> string option) \<Rightarrow> (string \<Rightarrow> string option) \<Rightarrow> (string list \<Rightarrow> string option) \<Rightarrow>
   string \<Rightarrow> string option \<Rightarrow> redis_queue_layer res option" where
  "redis_connect env open_single open_cluster url key_prefix =
     (let kprefix = (case key_prefix of None \<Rightarrow> ''chronon'' | Some p \<Rightarrow> p);
          single = (case open_single url of
             Some e \<Rightarrow> map_option Inl (redis_connect_err url e)
           | None \<Rightarrow> Some (Inr \<lparr>rq_single = True, rq_cluster = False, rq_key_prefix = kprefix,
                                rq_hash_tags = redis_hash_tags env\<rparr>))
      in case env ''CHRONON_REDIS_CLUSTER_URLS'' of
           None \<Rightarrow> single
         | Some urls \<Rightarrow>
             if redis_nodes urls = [] then single
             else (case open_cluster (redis_nodes urls) of
                     Some e \<Rightarrow> map_option Inl (redis_connect_err (redact_endpoint urls) e)
                   | None \<Rightarrow> Some (Inr \<lparr>rq_single = False, rq_cluster = True, rq_key_prefix = kprefix,
                                        rq_hash_tags = True\<rparr>)))"

definition redis_test_url :: "(string \<Rightarrow> string option) \<Rightarrow> string" where
  "redis_test_url env =
     (case env ''CHRONON_TEST_REDIS_URL'' of
        Some u \<Rightarrow> u
      | None \<Rightarrow> (case env ''CHRONON_REDIS_URL'' of Some u \<Rightarrow> u | None \<Rightarrow> ''redis://127.0.0.1:6379''))"

definition format_ready_key :: "string \<Rightarrow> string \<Rightarrow> bool \<Rightarrow> string" where
  "format_ready_key kprefix pool_id hash_tags =
     (if hash_tags then kprefix @ '':{'' @ pool_id @ ''}:ready'' else kprefix @ '':ready:'' @ pool_id)"

definition ready_key :: "redis_queue_layer \<Rightarrow> string \<Rightarrow> string" where
  "ready_key L pool_id = format_ready_key (rq_key_prefix L) pool_id (rq_hash_tags L)"

text \<open>A command on the connection of the layer; without a connection nothing happens.\<close>

definition redis_cmd ::
  "redis_ctx \<Rightarrow> string \<Rightarrow> 'a \<Rightarrow> (redis_db \<Rightarrow> 'a \<times> redis_db) \<Rightarrow> redis_db \<Rightarrow> 'a res \<times> redis_db" where
  "redis_cmd X name idle f db =
     (if \<not> rq_single (rx_layer X) \<and> \<not> rq_cluster (rx_layer X) then (Inr idle, db)
      else (case rx_fault X name db of Some e \<Rightarrow> (Inl e, db) | None \<Rightarrow> (case f db of (a, db') \<Rightarrow> (Inr a, db'))))"

definition enqueue_run :: "redis_ctx \<Rightarrow> string \<Rightarrow> string \<Rightarrow> time \<Rightarrow> redis_db \<Rightarrow> unit res \<times> redis_db" where
  "enqueue_run X pool_id run_id scheduled_for =
     redis_cmd X ''ZADD'' () (\<lambda>db. ((), zadd (ready_key (rx_layer X) pool_id) run_id (timestamp_millis scheduled_for) db))"

definition claim_next_run_ids :: "redis_ctx \<Rightarrow> string \<Rightarrow> nat \<Rightarrow> time \<Rightarrow> redis_db \<Rightarrow> string list res \<times> redis_db" where
  "claim_next_run_ids X pool_id count now db =
     (if count = 0 then (Inr [], db)
      else let key = ready_key (rx_layer X) pool_id
           in redis_cmd X ''EVAL'' [] (\<lambda>db. let ids = zrange_due key (timestamp_millis now) count db
                                            in (ids, fold (zrem key) ids db)) db)"

definition claim_next_run_id :: "redis_ctx \<Rightarrow> string \<Rightarrow> time \<Rightarrow> redis_db \<Rightarrow> string option res \<times> redis_db" where
  "claim_next_run_id X pool_id now db =
     (case claim_next_run_ids X pool_id 1 now db of
        (Inl e, db') \<Rightarrow> (Inl e, db')
      | (Inr ids, db') \<Rightarrow> (Inr (case ids of [] \<Rightarrow> None | i # _ \<Rightarrow> Some i), db'))"

definition remove_run :: "redis_ctx \<Rightarrow> string \<Rightarrow> string \<Rightarrow> redis_db \<Rightarrow> unit res \<times> redis_db" where
  "remove_run X pool_id run_id =
     redis_cmd X ''ZREM'' () (\<lambda>db. ((), zrem (ready_key (rx_layer X) pool_id) run_id db))"

text \<open>
  \<^verbatim>\<open>flush_keys\<close> over the replies of the server to \<^verbatim>\<open>SCAN\<close> (a cursor and a batch of keys each): every batch is
  deleted, until the cursor is zero.
\<close>

fun flush_loop :: "redis_ctx \<Rightarrow> (nat \<times> string list) list \<Rightarrow> redis_db \<Rightarrow> unit res \<times> redis_db" where
  "flush_loop X [] db = (Inr (), db)"
| "flush_loop X ((cursor, batch) # replies) db =
     (case rx_fault X ''SCAN'' db of
        Some e \<Rightarrow> (Inl e, db)
      | None \<Rightarrow>
          (case (if batch = [] then (Inr (), db)
                 else redis_cmd X ''DEL'' () (\<lambda>db. ((), \<lambda>k. if k \<in> set batch then [] else db k)) db) of
             (Inl e, db') \<Rightarrow> (Inl e, db')
           | (Inr _, db') \<Rightarrow> if cursor = 0 then (Inr (), db') else flush_loop X replies db'))"

definition flush_keys :: "redis_ctx \<Rightarrow> (nat \<times> string list) list \<Rightarrow> redis_db \<Rightarrow> unit res \<times> redis_db" where
  "flush_keys X replies db =
     (if rq_cluster (rx_layer X) then (Inr (), db)
      else if \<not> rq_single (rx_layer X) then (Inr (), db)
      else flush_loop X replies db)"

section \<open>The composite store\<close>

record 's composite =
  c_sql :: 's
  c_redis :: redis_db

definition on_sql :: "('s, 'a) store_op \<Rightarrow> ('s composite, 'a) store_op" where
  "on_sql f c = (case f (c_sql c) of (r, s) \<Rightarrow> (r, c\<lparr>c_sql := s\<rparr>))"

definition on_redis :: "(redis_db \<Rightarrow> 'a res \<times> redis_db) \<Rightarrow> ('s composite, 'a) store_op" where
  "on_redis f c = (case f (c_redis c) of (r, d) \<Rightarrow> (r, c\<lparr>c_redis := d\<rparr>))"

text \<open>The operator \<^verbatim>\<open>?\<close>: an error ends the operation, effects so far remain.\<close>

definition try_then :: "'a res \<times> 's composite \<Rightarrow> ('a \<Rightarrow> 's composite \<Rightarrow> 'b res \<times> 's composite) \<Rightarrow> 'b res \<times> 's composite" where
  "try_then res k = (case res of (Inl e, c) \<Rightarrow> (Inl e, c) | (Inr a, c) \<Rightarrow> k a c)"

definition claim_batch_size :: "(string \<Rightarrow> string option) \<Rightarrow> nat" where
  "claim_batch_size env =
     (let n = (case env ''CHRONON_CLAIM_BATCH'' of
                 None \<Rightarrow> 1
               | Some v \<Rightarrow> (case parse_unsigned u64_max v of None \<Rightarrow> 1 | Some k \<Rightarrow> k))
      in max 1 (min 64 n))"

definition requeue_mismatch ::
  "redis_ctx \<Rightarrow> 's scheduler_store \<Rightarrow> string \<Rightarrow> string \<Rightarrow> time \<Rightarrow> ('s composite, unit) store_op" where
  "requeue_mismatch X S run_id pool_id now c =
     try_then (on_sql (so_get_run S run_id) c) (\<lambda>found c.
       case found of
         None \<Rightarrow> (Inr (), c)
       | Some run \<Rightarrow>
           if r_status run \<noteq> Queued then (Inr (), c)
           else if r_scheduled_for run > now
           then on_redis (enqueue_run X (run_pool_key (r_pool_id run)) (r_run_id run) (r_scheduled_for run)) c
           else let actual_pool = run_pool_key (r_pool_id run)
                in if actual_pool \<noteq> pool_id
                   then on_redis (enqueue_run X actual_pool (r_run_id run) (r_scheduled_for run)) c
                   else if (case r_claim_lease_until run of None \<Rightarrow> False | Some u \<Rightarrow> u > now)
                   then on_redis (enqueue_run X pool_id (r_run_id run) (r_scheduled_for run)) c
                   else (Inr (), c))"

definition claim_one ::
  "redis_ctx \<Rightarrow> 's scheduler_store \<Rightarrow> string \<Rightarrow> string \<Rightarrow> string \<Rightarrow> time \<Rightarrow> int \<Rightarrow> ('s composite, run option) store_op" where
  "claim_one X S run_id pool_id worker_id now lease_ttl_secs c =
     try_then (on_sql (so_claim_run_by_id S run_id pool_id worker_id now lease_ttl_secs) c) (\<lambda>claimed c.
       case claimed of
         Some run \<Rightarrow> (Inr (Some run), c)
       | None \<Rightarrow> try_then (requeue_mismatch X S run_id pool_id now c) (\<lambda>_ c. (Inr None, c)))"

fun reconcile_unclaimed ::
  "redis_ctx \<Rightarrow> 's scheduler_store \<Rightarrow> string list \<Rightarrow> run list \<Rightarrow> string \<Rightarrow> time \<Rightarrow> ('s composite, unit) store_op" where
  "reconcile_unclaimed X S [] claimed pool_id now c = (Inr (), c)"
| "reconcile_unclaimed X S (run_id # ids) claimed pool_id now c =
     (if run_id \<in> r_run_id ` set claimed then reconcile_unclaimed X S ids claimed pool_id now c
      else try_then (requeue_mismatch X S run_id pool_id now c)
             (\<lambda>_ c. reconcile_unclaimed X S ids claimed pool_id now c))"

text \<open>The two claim loops, by the attempts that are left.\<close>

fun claim_single_loop ::
  "nat \<Rightarrow> redis_ctx \<Rightarrow> 's scheduler_store \<Rightarrow> string \<Rightarrow> string \<Rightarrow> time \<Rightarrow> int \<Rightarrow> ('s composite, run option) store_op" where
  "claim_single_loop 0 X S pool_id worker_id now ttl c = (Inr None, c)"
| "claim_single_loop (Suc n) X S pool_id worker_id now ttl c =
     try_then (on_redis (claim_next_run_id X pool_id now) c) (\<lambda>popped c.
       case popped of
         None \<Rightarrow> (Inr None, c)
       | Some run_id \<Rightarrow>
           try_then (claim_one X S run_id pool_id worker_id now ttl c) (\<lambda>claimed c.
             case claimed of
               Some run \<Rightarrow> (Inr (Some run), c)
             | None \<Rightarrow> claim_single_loop n X S pool_id worker_id now ttl c))"

fun claim_batch_loop ::
  "nat \<Rightarrow> nat \<Rightarrow> redis_ctx \<Rightarrow> 's scheduler_store \<Rightarrow> string \<Rightarrow> string \<Rightarrow> time \<Rightarrow> int \<Rightarrow> ('s composite, run option) store_op" where
  "claim_batch_loop 0 batch X S pool_id worker_id now ttl c = (Inr None, c)"
| "claim_batch_loop (Suc n) batch X S pool_id worker_id now ttl c =
     try_then (on_redis (claim_next_run_ids X pool_id batch now) c) (\<lambda>run_ids c.
       if run_ids = [] then (Inr None, c)
       else try_then (on_sql (so_claim_runs_by_ids S run_ids pool_id worker_id now ttl) c) (\<lambda>claimed c.
         try_then (reconcile_unclaimed X S run_ids claimed pool_id now c) (\<lambda>_ c.
           case claimed of
             run # _ \<Rightarrow> (Inr (Some run), c)
           | [] \<Rightarrow> claim_batch_loop n batch X S pool_id worker_id now ttl c)))"

abbreviation max_claim_attempts :: nat where "max_claim_attempts \<equiv> 64"

definition redis_claim_next_queued ::
  "redis_ctx \<Rightarrow> 's scheduler_store \<Rightarrow> string \<Rightarrow> string \<Rightarrow> time \<Rightarrow> int \<Rightarrow> ('s composite, run option) store_op" where
  "redis_claim_next_queued X S pool_id worker_id now ttl =
     (let batch = claim_batch_size (rx_env X)
      in if batch \<le> 1 then claim_single_loop max_claim_attempts X S pool_id worker_id now ttl
         else claim_batch_loop max_claim_attempts batch X S pool_id worker_id now ttl)"

definition redis_create_run :: "redis_ctx \<Rightarrow> 's scheduler_store \<Rightarrow> run \<Rightarrow> ('s composite, unit) store_op" where
  "redis_create_run X S run c =
     try_then (on_sql (so_create_run S run) c) (\<lambda>_ c.
       if r_status run = Queued
       then on_redis (enqueue_run X (run_pool_key (r_pool_id run)) (r_run_id run) (r_scheduled_for run)) c
       else (Inr (), c))"

fun reenqueue_all :: "redis_ctx \<Rightarrow> 's scheduler_store \<Rightarrow> string list \<Rightarrow> ('s composite, unit) store_op" where
  "reenqueue_all X S [] c = (Inr (), c)"
| "reenqueue_all X S (run_id # ids) c =
     try_then (on_sql (so_get_run S run_id) c) (\<lambda>found c.
       case found of
         None \<Rightarrow> reenqueue_all X S ids c
       | Some run \<Rightarrow>
           try_then (on_redis (enqueue_run X (run_pool_key (r_pool_id run)) (r_run_id run) (r_scheduled_for run)) c)
             (\<lambda>_ c. reenqueue_all X S ids c))"

definition redis_reclaim_expired_run_leases ::
  "redis_ctx \<Rightarrow> 's scheduler_store \<Rightarrow> time \<Rightarrow> ('s composite, string list) store_op" where
  "redis_reclaim_expired_run_leases X S now c =
     try_then (on_sql (so_reclaim_expired_run_leases S now) c) (\<lambda>ids c.
       try_then (reenqueue_all X S ids c) (\<lambda>_ c. (Inr ids, c)))"

definition composite_ops :: "redis_ctx \<Rightarrow> 's scheduler_store \<Rightarrow> 's composite scheduler_store" where
  "composite_ops X S =
     \<lparr>so_upsert_job = (\<lambda>j. on_sql (so_upsert_job S j)), so_get_job = (\<lambda>i. on_sql (so_get_job S i)),
      so_get_job_by_name = (\<lambda>n. on_sql (so_get_job_by_name S n)), so_list_jobs = on_sql (so_list_jobs S),
      so_list_due_jobs = (\<lambda>t. on_sql (so_list_due_jobs S t)),
      so_pause_job = (\<lambda>clk i. on_sql (so_pause_job S clk i)), so_resume_job = (\<lambda>clk i. on_sql (so_resume_job S clk i)),
      so_delete_job = (\<lambda>i. on_sql (so_delete_job S i)),
      so_create_run = redis_create_run X S, so_update_run = (\<lambda>r. on_sql (so_update_run S r)),
      so_get_run = (\<lambda>i. on_sql (so_get_run S i)),
      so_list_runs_for_job = (\<lambda>i n. on_sql (so_list_runs_for_job S i n)),
      so_list_runs_filtered = (\<lambda>i st n k. on_sql (so_list_runs_filtered S i st n k)),
      so_claim_next_queued = redis_claim_next_queued X S,
      so_claim_run_by_id = (\<lambda>i p w now ttl. on_sql (so_claim_run_by_id S i p w now ttl)),
      so_claim_runs_by_ids = (\<lambda>ids p w now ttl. on_sql (so_claim_runs_by_ids S ids p w now ttl)),
      so_renew_run_lease = (\<lambda>i w now ttl. on_sql (so_renew_run_lease S i w now ttl)),
      so_reclaim_expired_run_leases = redis_reclaim_expired_run_leases X S,
      so_append_revision = (\<lambda>v. on_sql (so_append_revision S v)),
      so_list_revisions = (\<lambda>i. on_sql (so_list_revisions S i)),
      so_upsert_script = (\<lambda>sc. on_sql (so_upsert_script S sc)), so_get_script = (\<lambda>n. on_sql (so_get_script S n)),
      so_try_claim_run_once = (\<lambda>i who now ttl. on_sql (so_try_claim_run_once S i who now ttl)),
      so_mark_run_once_completed = (\<lambda>clk i t. on_sql (so_mark_run_once_completed S clk i t)),
      so_release_run_once_claim = (\<lambda>i who now. on_sql (so_release_run_once_claim S i who now)),
      so_find_due_job_ids_in_partitions =
        (\<lambda>clk owned due n. on_sql (so_find_due_job_ids_in_partitions S clk owned due n)),
      so_min_next_run_at_in_partitions = (\<lambda>owned. on_sql (so_min_next_run_at_in_partitions S owned)),
      so_claim_job_for_tick = (\<lambda>i cid now ttl. on_sql (so_claim_job_for_tick S i cid now ttl)),
      so_release_job_tick_claim = (\<lambda>clk i. on_sql (so_release_job_tick_claim S clk i)),
      so_persist_post_tick_job_state = (\<lambda>clk i t. on_sql (so_persist_post_tick_job_state S clk i t)),
      so_try_acquire_leader = (\<lambda>clk i ttl. on_sql (so_try_acquire_leader S clk i ttl)),
      so_renew_leader_lease = (\<lambda>clk i ttl. on_sql (so_renew_leader_lease S clk i ttl)),
      so_get_leader = on_sql (so_get_leader S),
      so_upsert_partition_assignment = (\<lambda>a. on_sql (so_upsert_partition_assignment S a)),
      so_list_partition_assignments = on_sql (so_list_partition_assignments S),
      so_register_worker = (\<lambda>w. on_sql (so_register_worker S w)),
      so_heartbeat_worker = (\<lambda>w t. on_sql (so_heartbeat_worker S w t))\<rparr>"

end
