(* ===== verification/Sql_Store.thy ===== *)
theory Sql_Store
  imports Sql_Rows Store_Port "HOL-Library.List_Lexorder" "HOL-Library.Char_ord"
begin

text \<open>
  The SQL backend (\<^verbatim>\<open>chronon-backend-sql-common\<close>: \<^verbatim>\<open>jobs.rs\<close>, \<^verbatim>\<open>runs.rs\<close>, \<^verbatim>\<open>claims.rs\<close>, \<^verbatim>\<open>coordinator.rs\<close>), shared
  by PostgreSQL and SQLite. A database is its tables, each a list of rows under their primary key;
  every statement text of the source is the relational operation it denotes, and a comparison with
  \<^verbatim>\<open>NULL\<close> holds for no row. One statement is atomic. An operation of several statements is their
  sequence. Any statement may fail in the engine (\<open>e_fault\<close>, by the name of the statement and the
  state) and then has no effect; the error is the one that \<^verbatim>\<open>map_err\<close> hands on. \<open>e_unique\<close> is the error
  of a violated unique constraint.
\<close>

section \<open>Tables and statements\<close>

record sql_db =
  t_job :: "(string, job_row) hashmap"
  t_run :: "(string, run_row) hashmap"
  t_revision :: "(string, job_revision_row) hashmap"
  t_script :: "(string, script_row) hashmap"
  t_leader :: "(string, scheduler_leader_row) hashmap"
  t_partition :: "(string, partition_assignment_row) hashmap"
  t_worker :: "(string, worker_row) hashmap"

definition sql_empty :: sql_db where
  "sql_empty = \<lparr>t_job = [], t_run = [], t_revision = [], t_script = [], t_leader = [],
     t_partition = [], t_worker = []\<rparr>"

record sql_engine =
  e_codec :: sql_codec
  e_unique :: "string \<Rightarrow> chronon_error"
  e_fault :: "string \<Rightarrow> sql_db \<Rightarrow> chronon_error option"

abbreviation e_time :: "sql_engine \<Rightarrow> time \<Rightarrow> time" where
  "e_time E \<equiv> q_time (e_codec E)"

text \<open>\<^verbatim>\<open>sql_execute!\<close> and the fetching macros: run a statement, then read its rows.\<close>

definition sql_execute :: "sql_engine \<Rightarrow> string \<Rightarrow> (sql_db \<Rightarrow> 'a res \<times> sql_db) \<Rightarrow> (sql_db, 'a) store_op" where
  "sql_execute E name f db = (case e_fault E name db of Some e \<Rightarrow> (Inl e, db) | None \<Rightarrow> f db)"

definition sql_map_opt :: "('r \<Rightarrow> 'a res) \<Rightarrow> 'r option res \<times> sql_db \<Rightarrow> 'a option res \<times> sql_db" where
  "sql_map_opt dec res =
     (case res of (r, db) \<Rightarrow>
        (and_then r (\<lambda>row. case row of None \<Rightarrow> Inr None | Some x \<Rightarrow> and_then (dec x) (\<lambda>a. Inr (Some a))), db))"

primrec sql_collect :: "('r \<Rightarrow> 'a res) \<Rightarrow> 'r list \<Rightarrow> 'a list res" where
  "sql_collect dec [] = Inr []"
| "sql_collect dec (r # rs) = and_then (dec r) (\<lambda>a. and_then (sql_collect dec rs) (\<lambda>as. Inr (a # as)))"

definition sql_map_all :: "('r \<Rightarrow> 'a res) \<Rightarrow> 'r list res \<times> sql_db \<Rightarrow> 'a list res \<times> sql_db" where
  "sql_map_all dec res = (case res of (r, db) \<Rightarrow> (and_then r (sql_collect dec), db))"

text \<open>\<^verbatim>\<open>UPDATE ... SET ... WHERE\<close> on one table, and the rows that match.\<close>

definition update_where :: "('r \<Rightarrow> bool) \<Rightarrow> ('r \<Rightarrow> 'r) \<Rightarrow> (string, 'r) hashmap \<Rightarrow> (string, 'r) hashmap" where
  "update_where p f tab = map (\<lambda>(k, row). (k, if p row then f row else row)) tab"

definition select_where :: "('r \<Rightarrow> bool) \<Rightarrow> (string, 'r) hashmap \<Rightarrow> 'r list" where
  "select_where p tab = filter p (hm_values tab)"

abbreviation i64_max_nat :: nat where "i64_max_nat \<equiv> 9223372036854775807"

section \<open>Jobs\<close>

definition insert_job_row :: "sql_engine \<Rightarrow> job_row \<Rightarrow> sql_db \<Rightarrow> unit res \<times> sql_db" where
  "insert_job_row E row db =
     (if list_ex (\<lambda>(k, r). k \<noteq> jr_job_id row \<and> jr_job_name r = jr_job_name row) (t_job db)
      then (Inl (e_unique E ''chronon_job.job_name''), db)
      else (Inr (), db\<lparr>t_job := hm_insert (jr_job_id row) (bind_job_row (e_codec E) row) (t_job db)\<rparr>))"

definition sql_get_job :: "sql_engine \<Rightarrow> string \<Rightarrow> (sql_db, job option) store_op" where
  "sql_get_job E job_id db =
     sql_map_opt (row_to_job (e_codec E))
       (sql_execute E ''get_job'' (\<lambda>db. (Inr (hm_get (t_job db) job_id), db)) db)"

definition sql_get_job_by_name :: "sql_engine \<Rightarrow> string \<Rightarrow> (sql_db, job option) store_op" where
  "sql_get_job_by_name E job_name db =
     sql_map_opt (row_to_job (e_codec E))
       (sql_execute E ''get_job_by_name''
         (\<lambda>db. (Inr (find (\<lambda>r. jr_job_name r = job_name) (hm_values (t_job db))), db)) db)"

definition is_unique_violation :: "string \<Rightarrow> bool" where
  "is_unique_violation message \<longleftrightarrow>
     str_contains ''UNIQUE'' message \<or> str_contains ''unique'' message \<or> str_contains ''duplicate'' message"

definition sql_upsert_job :: "sql_engine \<Rightarrow> job \<Rightarrow> (sql_db, unit) store_op" where
  "sql_upsert_job E job db =
     (case job_row_from_model (e_codec E) job of
        Inl e \<Rightarrow> (Inl e, db)
      | Inr row \<Rightarrow>
          (case sql_execute E ''upsert_job'' (insert_job_row E row) db of
             (Inl (StorageError message source), db1) \<Rightarrow>
               if is_unique_violation message
               then (case sql_get_job_by_name E (j_job_name job) db1 of
                       (Inl e, db2) \<Rightarrow> (Inl e, db2)
                     | (Inr existing, db2) \<Rightarrow>
                         (case existing of
                            Some h \<Rightarrow>
                              if j_job_id h \<noteq> j_job_id job
                              then (Inl (JobNameTaken (j_job_name job) (j_job_id h)), db2)
                              else (Inl (StorageError message source), db2)
                          | None \<Rightarrow> (Inl (StorageError message source), db2)))
               else (Inl (StorageError message source), db1)
           | other \<Rightarrow> other))"

definition sql_list_jobs :: "sql_engine \<Rightarrow> (sql_db, job list) store_op" where
  "sql_list_jobs E db =
     sql_map_all (row_to_job (e_codec E))
       (sql_execute E ''list_jobs'' (\<lambda>db. (Inr (sort_key jr_created_at (hm_values (t_job db))), db)) db)"

definition sql_list_due_jobs :: "sql_engine \<Rightarrow> time \<Rightarrow> (sql_db, job list) store_op" where
  "sql_list_due_jobs E before db =
     sql_map_all (row_to_job (e_codec E))
       (sql_execute E ''list_due_jobs'' (\<lambda>db. (Inr (sort_key (\<lambda>r. the (jr_next_run_at r))
         (select_where (\<lambda>r. jr_enabled r = 1 \<and>
            (case jr_next_run_at r of None \<Rightarrow> False | Some t \<Rightarrow> t \<le> e_time E before)) (t_job db))), db)) db)"

text \<open>An update of one job row by its key.\<close>

definition update_job_row ::
  "sql_engine \<Rightarrow> string \<Rightarrow> string \<Rightarrow> (job_row \<Rightarrow> bool) \<Rightarrow> (job_row \<Rightarrow> job_row) \<Rightarrow> (sql_db, nat) store_op" where
  "update_job_row E name job_id p f db =
     sql_execute E name (\<lambda>db.
       (Inr (length (select_where (\<lambda>r. jr_job_id r = job_id \<and> p r) (t_job db))),
        db\<lparr>t_job := update_where (\<lambda>r. jr_job_id r = job_id \<and> p r) f (t_job db)\<rparr>)) db"

definition then_require_job :: "sql_engine \<Rightarrow> string \<Rightarrow> 'a res \<times> sql_db \<Rightarrow> unit res \<times> sql_db" where
  "then_require_job E job_id res =
     (case res of
        (Inl e, db) \<Rightarrow> (Inl e, db)
      | (Inr _, db) \<Rightarrow>
          (case sql_get_job E job_id db of
             (Inl e, db') \<Rightarrow> (Inl e, db')
           | (Inr None, db') \<Rightarrow> (Inl (JobNotFound job_id), db')
           | (Inr (Some _), db') \<Rightarrow> (Inr (), db')))"

definition sql_pause_job :: "sql_engine \<Rightarrow> time \<Rightarrow> string \<Rightarrow> (sql_db, unit) store_op" where
  "sql_pause_job E now job_id db =
     then_require_job E job_id (update_job_row E ''pause_job'' job_id (\<lambda>_. True)
       (\<lambda>r. r\<lparr>jr_enabled := 0, jr_updated_at := e_time E now\<rparr>) db)"

definition sql_resume_job :: "sql_engine \<Rightarrow> time \<Rightarrow> string \<Rightarrow> (sql_db, unit) store_op" where
  "sql_resume_job E now job_id db =
     then_require_job E job_id (update_job_row E ''resume_job'' job_id (\<lambda>_. True)
       (\<lambda>r. r\<lparr>jr_enabled := 1, jr_updated_at := e_time E now\<rparr>) db)"

definition sql_delete_job :: "sql_engine \<Rightarrow> string \<Rightarrow> (sql_db, bool) store_op" where
  "sql_delete_job E job_id db =
     (case sql_get_job E job_id db of
        (Inl e, db1) \<Rightarrow> (Inl e, db1)
      | (Inr None, db1) \<Rightarrow> (Inr False, db1)
      | (Inr (Some _), db1) \<Rightarrow>
          (case sql_execute E ''delete_revisions'' (\<lambda>db. (Inr (),
                  db\<lparr>t_revision := filter (\<lambda>(k, v). vr_job_id v \<noteq> job_id) (t_revision db)\<rparr>)) db1 of
             (Inl e, db2) \<Rightarrow> (Inl e, db2)
           | (Inr _, db2) \<Rightarrow>
               (case sql_execute E ''delete_job'' (\<lambda>db. (Inr (),
                       db\<lparr>t_job := filter (\<lambda>(k, r). jr_job_id r \<noteq> job_id) (t_job db)\<rparr>)) db2 of
                  (Inl e, db3) \<Rightarrow> (Inl e, db3)
                | (Inr _, db3) \<Rightarrow> (Inr True, db3))))"

section \<open>Runs\<close>

definition sql_create_run :: "sql_engine \<Rightarrow> run \<Rightarrow> (sql_db, unit) store_op" where
  "sql_create_run E r db =
     (case run_row_from_model (e_codec E) r of
        Inl e \<Rightarrow> (Inl e, db)
      | Inr row \<Rightarrow> sql_execute E ''create_run'' (\<lambda>db.
          if hm_get (t_run db) (rr_run_id row) \<noteq> None
          then (Inl (e_unique E ''chronon_run.run_id''), db)
          else (Inr (), db\<lparr>t_run := hm_insert (rr_run_id row) (bind_run_row (e_codec E) row) (t_run db)\<rparr>)) db)"

definition sql_get_run :: "sql_engine \<Rightarrow> string \<Rightarrow> (sql_db, run option) store_op" where
  "sql_get_run E run_id db =
     sql_map_opt (row_to_run (e_codec E))
       (sql_execute E ''get_run'' (\<lambda>db. (Inr (hm_get (t_run db) run_id), db)) db)"

definition sql_update_run :: "sql_engine \<Rightarrow> run \<Rightarrow> (sql_db, unit) store_op" where
  "sql_update_run E r db =
     (case run_row_from_model (e_codec E) r of
        Inl e \<Rightarrow> (Inl e, db)
      | Inr row \<Rightarrow>
          (case sql_execute E ''update_run'' (\<lambda>db. (Inr (),
                  db\<lparr>t_run := update_where (\<lambda>x. rr_run_id x = rr_run_id row)
                                 (\<lambda>_. bind_run_row (e_codec E) row) (t_run db)\<rparr>)) db of
             (Inl e, db1) \<Rightarrow> (Inl e, db1)
           | (Inr _, db1) \<Rightarrow>
               (case sql_get_run E (r_run_id r) db1 of
                  (Inl e, db2) \<Rightarrow> (Inl e, db2)
                | (Inr None, db2) \<Rightarrow> (Inl (RunNotFound (r_run_id r)), db2)
                | (Inr (Some _), db2) \<Rightarrow> (Inr (), db2))))"

definition sql_newest_first :: "run_row list \<Rightarrow> run_row list" where
  "sql_newest_first rows = sort_key (\<lambda>r. - rr_scheduled_for r) rows"

definition sql_list_runs_for_job :: "sql_engine \<Rightarrow> string \<Rightarrow> nat \<Rightarrow> (sql_db, run list) store_op" where
  "sql_list_runs_for_job E job_id limit db =
     sql_map_all (row_to_run (e_codec E))
       (sql_execute E ''list_runs_for_job'' (\<lambda>db. (Inr (take (min limit i64_max_nat)
         (sql_newest_first (select_where (\<lambda>r. rr_job_id r = Some job_id) (t_run db)))), db)) db)"

text \<open>The \<^verbatim>\<open>WHERE\<close> clause of \<^verbatim>\<open>list_runs_filtered\<close> for the four combinations of filters.\<close>

fun sql_run_filter :: "string option \<Rightarrow> run_status option \<Rightarrow> run_row \<Rightarrow> bool" where
  "sql_run_filter (Some job_id) (Some status) r \<longleftrightarrow>
     rr_job_id r = Some job_id \<and> rr_status r = run_status_to_str status"
| "sql_run_filter (Some job_id) None r \<longleftrightarrow> rr_job_id r = Some job_id"
| "sql_run_filter None (Some status) r \<longleftrightarrow> rr_status r = run_status_to_str status"
| "sql_run_filter None None r \<longleftrightarrow> True"

definition sql_list_runs_filtered ::
  "sql_engine \<Rightarrow> string option \<Rightarrow> run_status option \<Rightarrow> nat \<Rightarrow> nat \<Rightarrow> (sql_db, run list) store_op" where
  "sql_list_runs_filtered E job_id status offset limit db =
     sql_map_all (row_to_run (e_codec E))
       (sql_execute E ''list_runs_filtered'' (\<lambda>db. (Inr (take (min limit i64_max_nat)
         (drop (min offset i64_max_nat)
           (sql_newest_first (select_where (sql_run_filter job_id status) (t_run db))))), db)) db)"

text \<open>The condition shared by the claiming statements; \<open>now\<close> is bound as a column value.\<close>

definition sql_pool_ok :: "string \<Rightarrow> run_row \<Rightarrow> bool" where
  "sql_pool_ok pool_id r \<longleftrightarrow>
     rr_pool_id r = Some pool_id \<or>
     (pool_id = ''general'' \<and> (rr_pool_id r = None \<or> rr_pool_id r = Some ''general''))"

definition sql_claimable :: "string \<Rightarrow> time \<Rightarrow> run_row \<Rightarrow> bool" where
  "sql_claimable pool_id now r \<longleftrightarrow>
     rr_status r = ''queued'' \<and> rr_scheduled_for r \<le> now \<and>
     (case rr_claim_lease_until r of None \<Rightarrow> True | Some u \<Rightarrow> u \<le> now) \<and> sql_pool_ok pool_id r"

definition sql_set_claimed :: "string \<Rightarrow> time \<Rightarrow> run_row \<Rightarrow> run_row" where
  "sql_set_claimed worker_id lease_until r =
     r\<lparr>rr_status := ''claimed'', rr_claimed_by := Some worker_id,
       rr_claim_lease_until := Some lease_until\<rparr>"

definition sql_claim_next_queued ::
  "sql_engine \<Rightarrow> string \<Rightarrow> string \<Rightarrow> time \<Rightarrow> int \<Rightarrow> (sql_db, run option) store_op" where
  "sql_claim_next_queued E pool_id worker_id now lease_ttl_secs db =
     sql_map_opt (row_to_run (e_codec E))
       (sql_execute E ''claim_next_queued'' (\<lambda>db.
          case sort_key rr_scheduled_for (select_where (sql_claimable pool_id (e_time E now)) (t_run db)) of
            [] \<Rightarrow> (Inr None, db)
          | r # _ \<Rightarrow>
              let upd = sql_set_claimed worker_id (e_time E (add_secs now lease_ttl_secs))
              in (Inr (Some (upd r)),
                  db\<lparr>t_run := update_where (\<lambda>x. rr_run_id x = rr_run_id r) upd (t_run db)\<rparr>)) db)"

definition sql_claim_run_by_id ::
  "sql_engine \<Rightarrow> string \<Rightarrow> string \<Rightarrow> string \<Rightarrow> time \<Rightarrow> int \<Rightarrow> (sql_db, run option) store_op" where
  "sql_claim_run_by_id E run_id pool_id worker_id now lease_ttl_secs db =
     sql_map_opt (row_to_run (e_codec E))
       (sql_execute E ''claim_run_by_id'' (\<lambda>db.
          let p = (\<lambda>r. rr_run_id r = run_id \<and> sql_claimable pool_id (e_time E now) r);
              upd = sql_set_claimed worker_id (e_time E (add_secs now lease_ttl_secs))
          in (Inr (map_option upd (find p (hm_values (t_run db)))),
              db\<lparr>t_run := update_where p upd (t_run db)\<rparr>)) db)"

definition sql_claim_runs_by_ids ::
  "sql_engine \<Rightarrow> string list \<Rightarrow> string \<Rightarrow> string \<Rightarrow> time \<Rightarrow> int \<Rightarrow> (sql_db, run list) store_op" where
  "sql_claim_runs_by_ids E run_ids pool_id worker_id now lease_ttl_secs db =
     (if run_ids = [] then (Inr [], db)
      else if q_dialect (e_codec E) \<noteq> Postgres \<or> length run_ids = 1
      then claim_runs_by_ids_default
             (\<lambda>i. sql_claim_run_by_id E i pool_id worker_id now lease_ttl_secs) run_ids db
      else sql_map_all (row_to_run (e_codec E))
        (sql_execute E ''claim_runs_by_ids'' (\<lambda>db.
          let p = (\<lambda>r. rr_run_id r \<in> set run_ids \<and> sql_claimable pool_id (e_time E now) r);
              upd = sql_set_claimed worker_id (e_time E (add_secs now lease_ttl_secs))
          in (Inr (map upd (select_where p (t_run db))),
              db\<lparr>t_run := update_where p upd (t_run db)\<rparr>)) db))"

definition sql_renew_run_lease ::
  "sql_engine \<Rightarrow> string \<Rightarrow> string \<Rightarrow> time \<Rightarrow> int \<Rightarrow> (sql_db, bool) store_op" where
  "sql_renew_run_lease E run_id worker_id now lease_ttl_secs db =
     sql_execute E ''renew_run_lease'' (\<lambda>db.
       let p = (\<lambda>r. rr_run_id r = run_id \<and> rr_claimed_by r = Some worker_id \<and>
                    rr_status r \<in> {''claimed'', ''running''});
           until = e_time E (add_secs now lease_ttl_secs)
       in (Inr (length (select_where p (t_run db)) > 0),
           db\<lparr>t_run := update_where p (\<lambda>r. r\<lparr>rr_claim_lease_until := Some until\<rparr>) (t_run db)\<rparr>)) db"

definition sql_lease_expired :: "time \<Rightarrow> run_row \<Rightarrow> bool" where
  "sql_lease_expired now r \<longleftrightarrow>
     rr_status r \<in> {''claimed'', ''running''} \<and>
     (case rr_claim_lease_until r of None \<Rightarrow> False | Some u \<Rightarrow> u \<le> now)"

definition sql_reclaim_expired_run_leases :: "sql_engine \<Rightarrow> time \<Rightarrow> (sql_db, string list) store_op" where
  "sql_reclaim_expired_run_leases E now db =
     sql_execute E ''reclaim_expired_run_leases'' (\<lambda>db.
       let p = sql_lease_expired (e_time E now)
       in (Inr (map rr_run_id (select_where p (t_run db))),
           db\<lparr>t_run := update_where p (\<lambda>r. r\<lparr>rr_status := ''queued'', rr_claimed_by := None,
                 rr_claim_lease_until := None, rr_started_at := None\<rparr>) (t_run db)\<rparr>)) db"

section \<open>Run-once and tick claims\<close>

text \<open>\<^verbatim>\<open>rows_affected() > 0\<close> as the answer of a claim.\<close>

definition affected :: "nat res \<times> sql_db \<Rightarrow> bool res \<times> sql_db" where
  "affected res = (case res of (r, db) \<Rightarrow> (and_then r (\<lambda>n. Inr (n > 0)), db))"

definition ignore_count :: "nat res \<times> sql_db \<Rightarrow> unit res \<times> sql_db" where
  "ignore_count res = (case res of (r, db) \<Rightarrow> (and_then r (\<lambda>_. Inr ()), db))"

definition sql_try_claim_run_once ::
  "sql_engine \<Rightarrow> string \<Rightarrow> string \<Rightarrow> time \<Rightarrow> int \<Rightarrow> (sql_db, bool) store_op" where
  "sql_try_claim_run_once E job_id claimed_by now claim_ttl_secs db =
     affected (update_job_row E ''try_claim_run_once'' job_id
       (\<lambda>r. jr_run_once_completed_at r = None \<and>
            (jr_run_once_claimed_at r = None \<or>
             (case jr_run_once_claim_expires_at r of None \<Rightarrow> False | Some e \<Rightarrow> e \<le> e_time E now) \<or>
             jr_run_once_claimed_by r = Some claimed_by))
       (\<lambda>r. r\<lparr>jr_run_once_claimed_at := Some (e_time E now), jr_run_once_claimed_by := Some claimed_by,
              jr_run_once_claim_expires_at := Some (e_time E (add_secs now claim_ttl_secs)),
              jr_updated_at := e_time E now\<rparr>) db)"

definition sql_mark_run_once_completed :: "sql_engine \<Rightarrow> string \<Rightarrow> time \<Rightarrow> (sql_db, unit) store_op" where
  "sql_mark_run_once_completed E job_id completed_at db =
     ignore_count (update_job_row E ''mark_run_once_completed'' job_id (\<lambda>_. True)
       (\<lambda>r. r\<lparr>jr_run_once_completed_at := Some (e_time E completed_at), jr_run_once_claimed_at := None,
              jr_run_once_claimed_by := None, jr_run_once_claim_expires_at := None,
              jr_updated_at := e_time E completed_at\<rparr>) db)"

definition sql_release_run_once_claim ::
  "sql_engine \<Rightarrow> string \<Rightarrow> string \<Rightarrow> time \<Rightarrow> (sql_db, unit) store_op" where
  "sql_release_run_once_claim E job_id claimed_by now db =
     ignore_count (update_job_row E ''release_run_once_claim'' job_id
       (\<lambda>r. jr_run_once_claimed_by r = Some claimed_by)
       (\<lambda>r. r\<lparr>jr_run_once_claimed_at := None, jr_run_once_claimed_by := None,
              jr_run_once_claim_expires_at := None, jr_updated_at := e_time E now\<rparr>) db)"

definition sql_due :: "time \<Rightarrow> nat list \<Rightarrow> time \<Rightarrow> job_row \<Rightarrow> bool" where
  "sql_due now owned due_until r \<longleftrightarrow>
     jr_enabled r = 1 \<and> jr_schedule_kind r \<noteq> ''manual'' \<and>
     (case jr_next_run_at r of None \<Rightarrow> False | Some t \<Rightarrow> t \<le> due_until) \<and>
     (case jr_partition_hash r of None \<Rightarrow> False | Some h \<Rightarrow> h \<in> int ` set owned) \<and>
     (case jr_claim_lease_until r of None \<Rightarrow> True | Some u \<Rightarrow> u < now) \<and>
     (jr_schedule_kind r \<noteq> ''run_once'' \<or> jr_run_once_completed_at r = None)"

definition sql_find_due_job_ids_in_partitions ::
  "sql_engine \<Rightarrow> time \<Rightarrow> nat list \<Rightarrow> time \<Rightarrow> nat \<Rightarrow> (sql_db, string list) store_op" where
  "sql_find_due_job_ids_in_partitions E now owned due_until limit db =
     (if owned = [] \<or> limit = 0 then (Inr [], db)
      else sql_execute E ''find_due_job_ids_in_partitions'' (\<lambda>db.
        (Inr (map jr_job_id (take limit (sort_key (\<lambda>r. the (jr_next_run_at r))
           (select_where (sql_due (e_time E now) owned (e_time E due_until)) (t_job db))))), db)) db)"

definition sql_min_next_run_at_in_partitions ::
  "sql_engine \<Rightarrow> nat list \<Rightarrow> (sql_db, time option) store_op" where
  "sql_min_next_run_at_in_partitions E owned db =
     (if owned = [] then (Inr None, db)
      else sql_execute E ''min_next_run_at_in_partitions'' (\<lambda>db.
        (Inr (case map (\<lambda>r. the (jr_next_run_at r)) (select_where (\<lambda>r.
                jr_enabled r = 1 \<and> jr_schedule_kind r \<noteq> ''manual'' \<and> jr_next_run_at r \<noteq> None \<and>
                (case jr_partition_hash r of None \<Rightarrow> False | Some h \<Rightarrow> h \<in> int ` set owned)) (t_job db)) of
                [] \<Rightarrow> None
              | t # ts \<Rightarrow> Some (foldl min t ts)), db)) db)"

definition sql_claim_job_for_tick ::
  "sql_engine \<Rightarrow> string \<Rightarrow> string \<Rightarrow> time \<Rightarrow> int \<Rightarrow> (sql_db, bool) store_op" where
  "sql_claim_job_for_tick E job_id claim_id now lease_ttl_secs db =
     affected (update_job_row E ''claim_job_for_tick'' job_id
       (\<lambda>r. jr_enabled r = 1 \<and>
            (case jr_claim_lease_until r of None \<Rightarrow> True | Some u \<Rightarrow> u < e_time E now))
       (\<lambda>r. r\<lparr>jr_claim_lease_id := Some claim_id,
              jr_claim_lease_until := Some (e_time E (add_secs now lease_ttl_secs)),
              jr_updated_at := e_time E now\<rparr>) db)"

definition sql_release_job_tick_claim :: "sql_engine \<Rightarrow> time \<Rightarrow> string \<Rightarrow> (sql_db, unit) store_op" where
  "sql_release_job_tick_claim E now job_id db =
     ignore_count (update_job_row E ''release_job_tick_claim'' job_id (\<lambda>_. True)
       (\<lambda>r. r\<lparr>jr_claim_lease_id := None, jr_claim_lease_until := None,
              jr_updated_at := e_time E now\<rparr>) db)"

definition sql_persist_post_tick_job_state ::
  "sql_engine \<Rightarrow> time \<Rightarrow> string \<Rightarrow> time option \<Rightarrow> (sql_db, unit) store_op" where
  "sql_persist_post_tick_job_state E now job_id next_run_at db =
     ignore_count (update_job_row E ''persist_post_tick_job_state'' job_id (\<lambda>_. True)
       (\<lambda>r. r\<lparr>jr_next_run_at := map_option (e_time E) next_run_at, jr_claim_lease_id := None,
              jr_claim_lease_until := None, jr_updated_at := e_time E now\<rparr>) db)"

section \<open>Revisions, scripts, leader, partitions and workers\<close>

abbreviation sql_leader_row_id :: string where "sql_leader_row_id \<equiv> ''singleton''"

definition sql_append_revision :: "sql_engine \<Rightarrow> job_revision \<Rightarrow> (sql_db, unit) store_op" where
  "sql_append_revision E v db =
     (case revision_row_from_model (e_codec E) v of
        Inl e \<Rightarrow> (Inl e, db)
      | Inr row \<Rightarrow> sql_execute E ''append_revision'' (\<lambda>db.
          if hm_get (t_revision db) (vr_revision_id row) \<noteq> None
          then (Inl (e_unique E ''chronon_job_revision.revision_id''), db)
          else (Inr (), db\<lparr>t_revision :=
                  hm_insert (vr_revision_id row) (bind_revision_row (e_codec E) row) (t_revision db)\<rparr>)) db)"

definition sql_list_revisions :: "sql_engine \<Rightarrow> string \<Rightarrow> (sql_db, job_revision list) store_op" where
  "sql_list_revisions E job_id db =
     sql_map_all (row_to_revision (e_codec E))
       (sql_execute E ''list_revisions'' (\<lambda>db. (Inr (sort_key vr_revision_number
         (select_where (\<lambda>v. vr_job_id v = job_id) (t_revision db))), db)) db)"

text \<open>
  The script table has two unique columns, \<^verbatim>\<open>script_id\<close> and \<^verbatim>\<open>script_name\<close>; it is kept under the name, the
  conflict target of the upsert.
\<close>

definition sql_upsert_script :: "sql_engine \<Rightarrow> script \<Rightarrow> (sql_db, unit) store_op" where
  "sql_upsert_script E sc db =
     (case script_row_from_model (e_codec E) sc of
        Inl e \<Rightarrow> (Inl e, db)
      | Inr row \<Rightarrow> sql_execute E ''upsert_script'' (\<lambda>db.
          if list_ex (\<lambda>(k, r). k \<noteq> sr_script_name row \<and> sr_script_id r = sr_script_id row) (t_script db)
          then (Inl (e_unique E ''chronon_script.script_id''), db)
          else (Inr (), db\<lparr>t_script :=
                  hm_insert (sr_script_name row) (bind_script_row (e_codec E) row) (t_script db)\<rparr>)) db)"

definition sql_get_script :: "sql_engine \<Rightarrow> string \<Rightarrow> (sql_db, script option) store_op" where
  "sql_get_script E script_name db =
     sql_map_opt (row_to_script (e_codec E))
       (sql_execute E ''get_script'' (\<lambda>db. (Inr (hm_get (t_script db) script_name), db)) db)"

text \<open>
  \<^verbatim>\<open>INSERT ... ON CONFLICT DO UPDATE ... WHERE ... RETURNING leader_instance_id\<close>: no row is returned when
  the condition on the stored row fails.
\<close>

definition sql_try_acquire_leader :: "sql_engine \<Rightarrow> time \<Rightarrow> string \<Rightarrow> int \<Rightarrow> (sql_db, bool) store_op" where
  "sql_try_acquire_leader E now instance_id ttl_secs db =
     sql_execute E ''try_acquire_leader'' (\<lambda>db.
       let new = \<lparr>lr_leader_id = sql_leader_row_id, lr_leader_instance_id = instance_id,
                  lr_leader_lease_until = e_time E (add_secs now ttl_secs),
                  lr_last_heartbeat_at = e_time E now\<rparr>;
           free = (case hm_get (t_leader db) sql_leader_row_id of
                     None \<Rightarrow> True
                   | Some row \<Rightarrow> lr_leader_lease_until row \<le> e_time E now \<or>
                                 lr_leader_instance_id row = instance_id)
       in if free then (Inr True, db\<lparr>t_leader := hm_insert sql_leader_row_id new (t_leader db)\<rparr>)
          else (Inr False, db)) db"

definition sql_renew_leader_lease :: "sql_engine \<Rightarrow> time \<Rightarrow> string \<Rightarrow> int \<Rightarrow> (sql_db, unit) store_op" where
  "sql_renew_leader_lease E now instance_id ttl_secs db =
     sql_execute E ''renew_leader_lease'' (\<lambda>db. (Inr (),
       db\<lparr>t_leader := update_where
            (\<lambda>r. lr_leader_id r = sql_leader_row_id \<and> lr_leader_instance_id r = instance_id)
            (\<lambda>r. r\<lparr>lr_leader_lease_until := e_time E (add_secs now ttl_secs),
                   lr_last_heartbeat_at := e_time E now\<rparr>) (t_leader db)\<rparr>)) db"

definition sql_get_leader :: "sql_engine \<Rightarrow> (sql_db, scheduler_leader option) store_op" where
  "sql_get_leader E db =
     sql_map_opt (\<lambda>r. Inr (row_to_leader r))
       (sql_execute E ''get_leader'' (\<lambda>db. (Inr (hm_get (t_leader db) sql_leader_row_id), db)) db)"

definition sql_upsert_partition_assignment ::
  "sql_engine \<Rightarrow> partition_assignment \<Rightarrow> (sql_db, unit) store_op" where
  "sql_upsert_partition_assignment E a db =
     (let row = partition_row_from_model a
      in sql_execute E ''upsert_partition_assignment'' (\<lambda>db. (Inr (),
           db\<lparr>t_partition := hm_insert (pr_partition_id row) (bind_partition_row (e_codec E) row)
                               (t_partition db)\<rparr>)) db)"

definition sql_list_partition_assignments :: "sql_engine \<Rightarrow> (sql_db, partition_assignment list) store_op" where
  "sql_list_partition_assignments E db =
     sql_map_all (\<lambda>r. Inr (row_to_partition r))
       (sql_execute E ''list_partition_assignments'' (\<lambda>db.
         (Inr (sort_key pr_partition_id (hm_values (t_partition db))), db)) db)"

text \<open>On a conflict the \<^verbatim>\<open>created_at\<close> of the stored row is kept.\<close>

definition sql_register_worker :: "sql_engine \<Rightarrow> worker \<Rightarrow> (sql_db, unit) store_op" where
  "sql_register_worker E w db =
     (case worker_row_from_model (e_codec E) w of
        Inl e \<Rightarrow> (Inl e, db)
      | Inr row0 \<Rightarrow>
          let row = bind_worker_row (e_codec E) row0
          in sql_execute E ''register_worker'' (\<lambda>db. (Inr (),
               db\<lparr>t_worker := hm_insert (kr_worker_id row)
                    (case hm_get (t_worker db) (kr_worker_id row) of
                       None \<Rightarrow> row
                     | Some old \<Rightarrow> row\<lparr>kr_created_at := kr_created_at old\<rparr>) (t_worker db)\<rparr>)) db)"

definition sql_heartbeat_worker :: "sql_engine \<Rightarrow> string \<Rightarrow> time \<Rightarrow> (sql_db, unit) store_op" where
  "sql_heartbeat_worker E worker_id now db =
     (case sql_execute E ''heartbeat_worker'' (\<lambda>db.
             (Inr (length (select_where (\<lambda>r. kr_worker_id r = worker_id) (t_worker db))),
              db\<lparr>t_worker := update_where (\<lambda>r. kr_worker_id r = worker_id)
                   (\<lambda>r. r\<lparr>kr_last_heartbeat_at := e_time E now, kr_updated_at := e_time E now\<rparr>)
                   (t_worker db)\<rparr>)) db of
        (Inl e, db1) \<Rightarrow> (Inl e, db1)
      | (Inr n, db1) \<Rightarrow>
          if n = 0 then (Inl (Internal (''worker not registered: '' @ worker_id)), db1) else (Inr (), db1))"

section \<open>The backend as a store\<close>

definition sql_ops :: "sql_engine \<Rightarrow> sql_db scheduler_store" where
  "sql_ops E =
     \<lparr>so_upsert_job = sql_upsert_job E, so_get_job = sql_get_job E,
      so_get_job_by_name = sql_get_job_by_name E, so_list_jobs = sql_list_jobs E,
      so_list_due_jobs = sql_list_due_jobs E, so_pause_job = sql_pause_job E,
      so_resume_job = sql_resume_job E, so_delete_job = sql_delete_job E,
      so_create_run = sql_create_run E, so_update_run = sql_update_run E,
      so_get_run = sql_get_run E, so_list_runs_for_job = sql_list_runs_for_job E,
      so_list_runs_filtered = sql_list_runs_filtered E,
      so_claim_next_queued = sql_claim_next_queued E,
      so_claim_run_by_id = sql_claim_run_by_id E,
      so_claim_runs_by_ids = sql_claim_runs_by_ids E,
      so_renew_run_lease = sql_renew_run_lease E,
      so_reclaim_expired_run_leases = sql_reclaim_expired_run_leases E,
      so_append_revision = sql_append_revision E, so_list_revisions = sql_list_revisions E,
      so_upsert_script = sql_upsert_script E, so_get_script = sql_get_script E,
      so_try_claim_run_once = sql_try_claim_run_once E,
      so_mark_run_once_completed = (\<lambda>clk. sql_mark_run_once_completed E),
      so_release_run_once_claim = sql_release_run_once_claim E,
      so_find_due_job_ids_in_partitions = sql_find_due_job_ids_in_partitions E,
      so_min_next_run_at_in_partitions = sql_min_next_run_at_in_partitions E,
      so_claim_job_for_tick = sql_claim_job_for_tick E,
      so_release_job_tick_claim = sql_release_job_tick_claim E,
      so_persist_post_tick_job_state = sql_persist_post_tick_job_state E,
      so_try_acquire_leader = sql_try_acquire_leader E,
      so_renew_leader_lease = sql_renew_leader_lease E, so_get_leader = sql_get_leader E,
      so_upsert_partition_assignment = sql_upsert_partition_assignment E,
      so_list_partition_assignments = sql_list_partition_assignments E,
      so_register_worker = sql_register_worker E, so_heartbeat_worker = sql_heartbeat_worker E\<rparr>"

end
