(* ===== verification/Sql_Facts.thy ===== *)
theory Sql_Facts
  imports Sql_Store Mem_Store
begin

text \<open>
  Facts about the SQL backend: rows encode their models, and on an engine that keeps what it is given
  the backend meets the contracts of the port, so that every lemma about its clients applies.
\<close>

section \<open>Rows as encodings\<close>

text \<open>
  What is assumed of \<^verbatim>\<open>serde_json\<close>. It writes every document (\<open>json_writes\<close>), it reads every text it wrote
  (\<open>json_reads\<close>), and what it reads is the document it wrote (\<open>json_codec_ok\<close>), which holds of documents
  with keys in map order and no floating-point number that its parser rounds.
\<close>

definition json_writes :: "sql_codec \<Rightarrow> bool" where
  "json_writes C \<longleftrightarrow> (\<forall>v. \<exists>s. q_to_string C v = Inr s)"

definition json_reads :: "sql_codec \<Rightarrow> bool" where
  "json_reads C \<longleftrightarrow> (\<forall>v s. q_to_string C v = Inr s \<longrightarrow> (\<exists>v'. q_from_str C s = Inr v'))"

definition json_codec_ok :: "sql_codec \<Rightarrow> bool" where
  "json_codec_ok C \<longleftrightarrow> (\<forall>v. \<exists>s. q_to_string C v = Inr s \<and> q_from_str C s = Inr v)"

definition json_text :: "sql_codec \<Rightarrow> json \<Rightarrow> string" where
  "json_text C v = (case q_to_string C v of Inl _ \<Rightarrow> [] | Inr s \<Rightarrow> s)"

definition total_codec :: "sql_codec \<Rightarrow> sql_codec" where
  "total_codec C = C\<lparr>q_to_string := \<lambda>v. Inr (json_text C v)\<rparr>"

definition job_enc :: "sql_codec \<Rightarrow> job \<Rightarrow> job_row" where
  "job_enc C j = projr (job_row_from_model (total_codec C) j)"

definition run_enc :: "sql_codec \<Rightarrow> run \<Rightarrow> run_row" where
  "run_enc C r = projr (run_row_from_model (total_codec C) r)"

lemma encode_total [simp]:
  "encode_json (total_codec C) v = Inr (json_text C v)"
  "encode_json_opt (total_codec C) ov = Inr (map_option (json_text C) ov)"
  by (simp_all add: encode_json_def encode_json_opt_def total_codec_def split: option.splits)

lemma encode_ok [simp]:
  assumes "json_codec_ok C"
  shows "encode_json C v = Inr (json_text C v)" "encode_json_opt C ov = Inr (map_option (json_text C) ov)"
    "decode_json C (json_text C v) = Inr v"
    "decode_json_opt C (map_option (json_text C) ov) = Inr ov"
proof -
  have *: "q_to_string C v = Inr (json_text C v) \<and> q_from_str C (json_text C v) = Inr v" for v
    using assms unfolding json_codec_ok_def json_text_def by (metis old.sum.simps(6))
  then show "encode_json C v = Inr (json_text C v)" "decode_json C (json_text C v) = Inr v" for v
    by (simp_all add: encode_json_def decode_json_def)
  then show "encode_json_opt C ov = Inr (map_option (json_text C) ov)"
    "decode_json_opt C (map_option (json_text C) ov) = Inr ov"
    by (simp_all add: encode_json_opt_def decode_json_opt_def split: option.splits)
qed

lemma codec_ok_writes [simp]: "json_codec_ok C \<Longrightarrow> json_writes C"
  unfolding json_codec_ok_def json_writes_def by blast

lemma encode_writes:
  assumes "json_writes C"
  shows "encode_json C v = Inr (json_text C v)" "encode_json_opt C ov = Inr (map_option (json_text C) ov)"
proof -
  have "q_to_string C v = Inr (json_text C v)" for v
    using assms unfolding json_writes_def json_text_def by (metis old.sum.simps(6))
  then show "encode_json C v = Inr (json_text C v)" "encode_json_opt C ov = Inr (map_option (json_text C) ov)"
    by (simp_all add: encode_json_def encode_json_opt_def split: option.splits)
qed

lemma job_from_model [simp]: "json_writes C \<Longrightarrow> job_row_from_model C j = Inr (job_enc C j)"
  by (simp add: job_enc_def job_row_from_model_def encode_writes)

lemma run_from_model [simp]: "json_writes C \<Longrightarrow> run_row_from_model C r = Inr (run_enc C r)"
  by (simp add: run_enc_def run_row_from_model_def encode_writes)

lemma kind_roundtrip [simp]: "parse_schedule_kind (schedule_kind_to_str k) = Inr k"
  by (cases k) (simp_all add: parse_schedule_kind_def)

lemma status_roundtrip [simp]: "parse_sql_run_status (run_status_to_str s) = Inr s"
  by (cases s) (simp_all add: parse_sql_run_status_def)

lemma worker_status_roundtrip [simp]: "parse_worker_status (worker_status_to_str s) = Inr s"
  by (cases s) (simp_all add: parse_worker_status_def)

lemma status_str_inj [simp]: "run_status_to_str s = run_status_to_str t \<longleftrightarrow> s = t"
  by (metis status_roundtrip sum.inject(2))

lemma status_str_eq [simp]:
  "run_status_to_str s = ''queued'' \<longleftrightarrow> s = Queued" "run_status_to_str s = ''claimed'' \<longleftrightarrow> s = Claimed"
  "run_status_to_str s = ''running'' \<longleftrightarrow> s = Running"
  by (cases s; simp)+

lemma kind_str_eq [simp]:
  "schedule_kind_to_str k = ''manual'' \<longleftrightarrow> k = Manual" "schedule_kind_to_str k = ''run_once'' \<longleftrightarrow> k = RunOnce"
  by (cases k; simp)+

lemma job_enc_sel [simp]:
  "jr_job_id (job_enc C j) = j_job_id j" "jr_job_name (job_enc C j) = j_job_name j"
  "jr_enabled (job_enc C j) = (if j_enabled j then 1 else 0)"
  "jr_schedule_kind (job_enc C j) = schedule_kind_to_str (j_schedule_kind j)"
  "jr_run_once_claimed_at (job_enc C j) = j_run_once_claimed_at j"
  "jr_run_once_claimed_by (job_enc C j) = j_run_once_claimed_by j"
  "jr_run_once_completed_at (job_enc C j) = j_run_once_completed_at j"
  "jr_run_once_claim_expires_at (job_enc C j) = j_run_once_claim_expires_at j"
  "jr_partition_hash (job_enc C j) = j_partition_hash j"
  "jr_claim_lease_until (job_enc C j) = j_claim_lease_until j"
  "jr_next_run_at (job_enc C j) = j_next_run_at j" "jr_created_at (job_enc C j) = j_created_at j"
  by (simp_all add: job_enc_def job_row_from_model_def)

lemma run_enc_sel [simp]:
  "rr_run_id (run_enc C r) = r_run_id r" "rr_job_id (run_enc C r) = r_job_id r"
  "rr_scheduled_for (run_enc C r) = r_scheduled_for r"
  "rr_status (run_enc C r) = run_status_to_str (r_status r)"
  "rr_pool_id (run_enc C r) = r_pool_id r" "rr_claimed_by (run_enc C r) = r_claimed_by r"
  "rr_claim_lease_until (run_enc C r) = r_claim_lease_until r"
  by (simp_all add: run_enc_def run_row_from_model_def)

lemma job_enc_dec [simp]: "json_codec_ok C \<Longrightarrow> row_to_job C (job_enc C j) = Inr j"
  by (simp add: job_enc_def job_row_from_model_def row_to_job_def)

lemma run_enc_dec [simp]: "json_codec_ok C \<Longrightarrow> row_to_run C (run_enc C r) = Inr r"
  by (simp add: run_enc_def run_row_from_model_def row_to_run_def)

text \<open>The engine columns a statement sets, as changes of the model.\<close>

lemma job_enc_upd:
  "(job_enc C j)\<lparr>jr_enabled := (if b then 1 else 0), jr_updated_at := t\<rparr> =
     job_enc C (j\<lparr>j_enabled := b, j_updated_at := t\<rparr>)"
  "(job_enc C j)\<lparr>jr_claim_lease_id := cid, jr_claim_lease_until := u, jr_updated_at := t\<rparr> =
     job_enc C (j\<lparr>j_claim_lease_id := cid, j_claim_lease_until := u, j_updated_at := t\<rparr>)"
  "(job_enc C j)\<lparr>jr_next_run_at := n, jr_claim_lease_id := cid, jr_claim_lease_until := u, jr_updated_at := t\<rparr> =
     job_enc C (j\<lparr>j_next_run_at := n, j_claim_lease_id := cid, j_claim_lease_until := u, j_updated_at := t\<rparr>)"
  "(job_enc C j)\<lparr>jr_run_once_claimed_at := a, jr_run_once_claimed_by := b', jr_run_once_claim_expires_at := e,
     jr_updated_at := t\<rparr> =
     job_enc C (j\<lparr>j_run_once_claimed_at := a, j_run_once_claimed_by := b', j_run_once_claim_expires_at := e,
       j_updated_at := t\<rparr>)"
  "(job_enc C j)\<lparr>jr_run_once_completed_at := d, jr_run_once_claimed_at := a, jr_run_once_claimed_by := b',
     jr_run_once_claim_expires_at := e, jr_updated_at := t\<rparr> =
     job_enc C (j\<lparr>j_run_once_completed_at := d, j_run_once_claimed_at := a, j_run_once_claimed_by := b',
       j_run_once_claim_expires_at := e, j_updated_at := t\<rparr>)"
  by (simp_all add: job_enc_def job_row_from_model_def)

lemma run_enc_upd:
  "sql_set_claimed w u (run_enc C r) =
     run_enc C (r\<lparr>r_status := Claimed, r_claimed_by := Some w, r_claim_lease_until := Some u\<rparr>)"
  "(run_enc C r)\<lparr>rr_claim_lease_until := l\<rparr> = run_enc C (r\<lparr>r_claim_lease_until := l\<rparr>)"
  "(run_enc C r)\<lparr>rr_status := ''queued'', rr_claimed_by := None, rr_claim_lease_until := None,
      rr_started_at := None\<rparr> = run_enc C (requeue r)"
  by (simp_all add: run_enc_def run_row_from_model_def sql_set_claimed_def requeue_def)

section \<open>Tables\<close>

text \<open>A table keeps every row under its key.\<close>

definition keyed :: "('r \<Rightarrow> string) \<Rightarrow> (string, 'r) hashmap \<Rightarrow> bool" where
  "keyed key tab \<longleftrightarrow> hm_ok tab \<and> (\<forall>k r. hm_get tab k = Some r \<longrightarrow> key r = k)"

lemma keyedD: "keyed key tab \<Longrightarrow> hm_get tab k = Some r \<Longrightarrow> key r = k"
  by (simp add: keyed_def)

lemma keyed_Nil [simp]: "keyed key []"
  by (simp add: keyed_def)

lemma keyed_get: "keyed key tab \<Longrightarrow> r \<in> set (hm_values tab) \<longleftrightarrow> hm_get tab (key r) = Some r"
  by (auto simp: keyed_def hm_value_iff)

lemma keyed_keys: "keyed key tab \<Longrightarrow> map key (hm_values tab) = map fst tab"
  by (auto simp: keyed_def hm_values_def hm_entry_iff)

lemma keyed_distinct: "keyed key tab \<Longrightarrow> distinct (map key (hm_values tab))"
  by (simp add: keyed_keys) (simp add: keyed_def hm_ok_def)

lemma keyed_insert: "keyed key tab \<Longrightarrow> k = key r \<Longrightarrow> keyed key (hm_insert k r tab)"
  by (simp add: keyed_def hm_simps)

lemma update_where_get:
  "hm_get (update_where p f tab) k = map_option (\<lambda>r. if p r then f r else r) (hm_get tab k)"
  by (induction tab) (auto simp: update_where_def)

lemma update_where_ok [simp]: "hm_ok (update_where p f tab) = hm_ok tab"
  by (simp add: update_where_def)

lemma update_where_keyed:
  "keyed key tab \<Longrightarrow> (\<And>r. p r \<Longrightarrow> key (f r) = key r) \<Longrightarrow> keyed key (update_where p f tab)"
  by (auto simp: keyed_def update_where_get)

lemma update_where_id:
  assumes "\<And>r. r \<in> set (hm_values tab) \<Longrightarrow> \<not> p r"
  shows "update_where p f tab = tab"
  using assms by (force simp: update_where_def hm_values_def intro!: map_idI)

text \<open>An update that names a key changes that row or nothing.\<close>

lemma update_key_get:
  assumes "keyed key tab"
  shows "hm_get (update_where (\<lambda>r. key r = i \<and> p r) f tab) =
    (case hm_get tab i of None \<Rightarrow> hm_get tab
     | Some r \<Rightarrow> if p r then (hm_get tab)(i \<mapsto> f r) else hm_get tab)"
proof (intro ext)
  fix k show "hm_get (update_where (\<lambda>r. key r = i \<and> p r) f tab) k = (case hm_get tab i of None \<Rightarrow> hm_get tab
     | Some r \<Rightarrow> if p r then (hm_get tab)(i \<mapsto> f r) else hm_get tab) k"
    using keyedD[OF assms, of k]
    by (cases "hm_get tab k") (auto simp: update_where_get split: option.splits)
qed

lemma update_key_id:
  assumes "keyed key tab" "\<forall>r. hm_get tab i = Some r \<longrightarrow> \<not> p r"
  shows "update_where (\<lambda>r. key r = i \<and> p r) f tab = tab"
  using assms by (intro update_where_id) (auto simp: keyed_get)

lemma select_key:
  assumes "keyed key tab"
  shows "select_where (\<lambda>r. key r = i \<and> p r) tab =
    (case hm_get tab i of None \<Rightarrow> [] | Some r \<Rightarrow> if p r then [r] else [])"
proof -
  have "filter (\<lambda>r. key r = i) (hm_values tab) = (case hm_get tab i of None \<Rightarrow> [] | Some r \<Rightarrow> [r])"
    using assms
  proof (induction tab)
    case (Cons a tab)
    obtain k r where a: "a = (k, r)" by (cases a)
    have k: "key r = k" "k \<notin> fst ` set tab"
      using Cons.prems keyedD[OF Cons.prems, of k r] by (auto simp: keyed_def hm_ok_def a)
    have "keyed key tab"
      unfolding keyed_def
    proof (intro conjI allI impI)
      fix k' r' assume "hm_get tab k' = Some r'"
      moreover from this have "k' \<noteq> k" using k(2) by (force dest: map_of_SomeD)
      ultimately show "key r' = k'" using keyedD[OF Cons.prems, of k' r'] by (simp add: a)
    qed (use Cons.prems in \<open>simp add: keyed_def hm_ok_def\<close>)
    moreover have "hm_get tab k = None" using k(2) by (simp add: map_of_eq_None_iff)
    ultimately show ?case using Cons.IH k(1) by (auto simp: a hm_values_def split: option.splits)
  qed (simp add: hm_values_def)
  then have "filter p (filter (\<lambda>r. key r = i) (hm_values tab)) =
      filter p (case hm_get tab i of None \<Rightarrow> [] | Some r \<Rightarrow> [r])" by simp
  then show ?thesis by (simp add: select_where_def conj_commute split: option.splits)
qed

lemma find_filter: "find p xs = (case filter p xs of [] \<Rightarrow> None | x # _ \<Rightarrow> Some x)"
  by (induction xs) auto

lemma find_key:
  assumes "keyed key tab"
  shows "find (\<lambda>r. key r = i \<and> p r) (hm_values tab) =
    (case hm_get tab i of None \<Rightarrow> None | Some r \<Rightarrow> if p r then Some r else None)"
  using select_key[OF assms, of i p] by (auto simp: find_filter select_where_def split: option.splits)

section \<open>The invariant of the database\<close>

text \<open>
  What the backend relies on in its engine: instants are kept as given (as SQLite does with its
  text columns), JSON text is read back, statements do not fail, and the error of a violated
  name constraint says so.
\<close>

definition sql_ok :: "sql_engine \<Rightarrow> bool" where
  "sql_ok E \<longleftrightarrow> (\<forall>t. e_time E t = t) \<and> json_codec_ok (e_codec E) \<and> (\<forall>n db. e_fault E n db = None) \<and>
     (\<exists>m src. e_unique E ''chronon_job.job_name'' = StorageError m src \<and> is_unique_violation m)"

definition sql_jobs :: "sql_engine \<Rightarrow> sql_db \<Rightarrow> string \<Rightarrow> job option" where
  "sql_jobs E db i = map_option (\<lambda>row. projr (row_to_job (e_codec E) row)) (hm_get (t_job db) i)"

definition sql_runs :: "sql_engine \<Rightarrow> sql_db \<Rightarrow> string \<Rightarrow> run option" where
  "sql_runs E db i = map_option (\<lambda>row. projr (row_to_run (e_codec E) row)) (hm_get (t_run db) i)"

definition sql_inv :: "sql_engine \<Rightarrow> sql_db \<Rightarrow> bool" where
  "sql_inv E db \<longleftrightarrow>
     keyed jr_job_id (t_job db) \<and> keyed rr_run_id (t_run db) \<and>
     keyed lr_leader_id (t_leader db) \<and> keyed pr_partition_id (t_partition db) \<and>
     (\<forall>k row. hm_get (t_job db) k = Some row \<longrightarrow> row \<in> range (job_enc (e_codec E))) \<and>
     (\<forall>k row. hm_get (t_run db) k = Some row \<longrightarrow> row \<in> range (run_enc (e_codec E))) \<and>
     (\<forall>k k' row row'. hm_get (t_job db) k = Some row \<longrightarrow> hm_get (t_job db) k' = Some row' \<longrightarrow>
        jr_job_name row = jr_job_name row' \<longrightarrow> k = k')"

lemma sql_inv_empty: "sql_inv E sql_empty"
  by (simp add: sql_inv_def sql_empty_def)

lemma sql_okD:
  assumes "sql_ok E"
  shows "e_time E t = t" "json_codec_ok (e_codec E)" "sql_execute E n f = f"
    "bind_job_row (e_codec E) row = row" "bind_run_row (e_codec E) rrow = rrow"
    "bind_partition_row (e_codec E) prow = prow"
proof -
  have t: "e_time E = (\<lambda>t. t)" and f: "e_fault E n db = None" for n db
    using assms by (auto simp: sql_ok_def)
  show "e_time E t = t" "json_codec_ok (e_codec E)" "sql_execute E n f = f"
    using t f assms by (auto simp: sql_ok_def sql_execute_def)
  show "bind_job_row (e_codec E) row = row" "bind_run_row (e_codec E) rrow = rrow"
    "bind_partition_row (e_codec E) prow = prow"
    by (simp_all add: t bind_job_row_def bind_run_row_def bind_partition_row_def option.map_ident)
qed

lemma sql_rows_enc:
  "sql_inv E db \<Longrightarrow> hm_get (t_job db) k = Some row \<Longrightarrow> \<exists>j. row = job_enc (e_codec E) j"
  "sql_inv E db \<Longrightarrow> hm_get (t_run db) k = Some rrow \<Longrightarrow> \<exists>r. rrow = run_enc (e_codec E) r"
  unfolding sql_inv_def by blast+

lemma sql_jobs_enc:
  assumes "sql_ok E" "sql_inv E db"
  shows "hm_get (t_job db) i = map_option (job_enc (e_codec E)) (sql_jobs E db i)"
proof (cases "hm_get (t_job db) i")
  case (Some row)
  then obtain j where "row = job_enc (e_codec E) j" using sql_rows_enc(1)[OF assms(2)] by blast
  with Some sql_okD(2)[OF assms(1)] show ?thesis by (simp add: sql_jobs_def)
qed (simp add: sql_jobs_def)

lemma sql_runs_enc:
  assumes "sql_ok E" "sql_inv E db"
  shows "hm_get (t_run db) i = map_option (run_enc (e_codec E)) (sql_runs E db i)"
proof (cases "hm_get (t_run db) i")
  case (Some row)
  then obtain r where "row = run_enc (e_codec E) r" using sql_rows_enc(2)[OF assms(2)] by blast
  with Some sql_okD(2)[OF assms(1)] show ?thesis by (simp add: sql_runs_def)
qed (simp add: sql_runs_def)

lemma sql_inv_keyed:
  "sql_inv E db \<Longrightarrow> keyed jr_job_id (t_job db)" "sql_inv E db \<Longrightarrow> keyed rr_run_id (t_run db)"
  "sql_inv E db \<Longrightarrow> keyed lr_leader_id (t_leader db)" "sql_inv E db \<Longrightarrow> keyed pr_partition_id (t_partition db)"
  by (simp_all add: sql_inv_def)

lemma sql_job_key:
  assumes "sql_ok E" "sql_inv E db" "sql_jobs E db i = Some j"
  shows "j_job_id j = i"
  using keyedD[OF sql_inv_keyed(1)[OF assms(2)], of i "job_enc (e_codec E) j"] sql_jobs_enc[OF assms(1,2), of i] assms(3)
  by simp

lemma sql_run_key:
  assumes "sql_ok E" "sql_inv E db" "sql_runs E db i = Some r"
  shows "r_run_id r = i"
  using keyedD[OF sql_inv_keyed(2)[OF assms(2)], of i "run_enc (e_codec E) r"] sql_runs_enc[OF assms(1,2), of i] assms(3)
  by simp

lemma sql_name_unique:
  assumes "sql_ok E" "sql_inv E db" "sql_jobs E db i = Some j" "sql_jobs E db k = Some j'"
    "j_job_name j = j_job_name j'"
  shows "i = k"
  using assms sql_jobs_enc[OF assms(1,2)] by (auto simp: sql_inv_def)

text \<open>Setting one row of a table.\<close>

lemma run_put:
  assumes "sql_ok E" "sql_inv E db" "hm_ok tab" "r_run_id r = i"
    "hm_get tab = (hm_get (t_run db))(i \<mapsto> run_enc (e_codec E) r)"
  shows "sql_inv E (db\<lparr>t_run := tab\<rparr>)" "sql_runs E (db\<lparr>t_run := tab\<rparr>) = (sql_runs E db)(i \<mapsto> r)"
    "sql_jobs E (db\<lparr>t_run := tab\<rparr>) = sql_jobs E db"
  using assms sql_okD(2)[OF assms(1)]
  by (auto simp: sql_inv_def keyed_def sql_runs_def sql_jobs_def fun_eq_iff)

lemma job_put:
  assumes "sql_ok E" "sql_inv E db" "hm_ok tab" "j_job_id j = i"
    "hm_get tab = (hm_get (t_job db))(i \<mapsto> job_enc (e_codec E) j)"
    "\<And>k j'. sql_jobs E db k = Some j' \<Longrightarrow> j_job_name j' = j_job_name j \<Longrightarrow> k = i"
  shows "sql_inv E (db\<lparr>t_job := tab\<rparr>)" "sql_jobs E (db\<lparr>t_job := tab\<rparr>) = (sql_jobs E db)(i \<mapsto> j)"
    "sql_runs E (db\<lparr>t_job := tab\<rparr>) = sql_runs E db"
proof -
  note enc = sql_jobs_enc[OF assms(1,2)]
  have name: "k = i" if "hm_get (t_job db) k = Some row" "jr_job_name row = j_job_name j" for k row
    using that assms(6)[of k] enc[of k] by auto
  show "sql_inv E (db\<lparr>t_job := tab\<rparr>)"
    using assms(2-5) name unfolding sql_inv_def keyed_def
    by (auto split: if_splits)
  show "sql_jobs E (db\<lparr>t_job := tab\<rparr>) = (sql_jobs E db)(i \<mapsto> j)" "sql_runs E (db\<lparr>t_job := tab\<rparr>) = sql_runs E db"
    using assms(5) sql_okD(2)[OF assms(1)] by (auto simp: sql_jobs_def sql_runs_def fun_eq_iff)
qed

lemma collect_runs:
  assumes "sql_ok E" "sql_inv E db" "set rows \<subseteq> set (hm_values (t_run db))"
  obtains rs where "sql_collect (row_to_run (e_codec E)) rows = Inr rs" "rows = map (run_enc (e_codec E)) rs"
    "\<And>r. r \<in> set rs \<Longrightarrow> sql_runs E db (r_run_id r) = Some r"
proof -
  have "\<exists>rs. sql_collect (row_to_run (e_codec E)) rows = Inr rs \<and> rows = map (run_enc (e_codec E)) rs \<and>
     (\<forall>r \<in> set rs. sql_runs E db (r_run_id r) = Some r)"
    using assms(3)
  proof (induction rows)
    case (Cons row rows)
    then obtain rs where rs: "sql_collect (row_to_run (e_codec E)) rows = Inr rs" "rows = map (run_enc (e_codec E)) rs"
      "\<forall>r \<in> set rs. sql_runs E db (r_run_id r) = Some r" by auto
    have get: "hm_get (t_run db) (rr_run_id row) = Some row"
      using Cons.prems by (simp add: keyed_get[OF sql_inv_keyed(2)[OF assms(2)]])
    then obtain r where r: "row = run_enc (e_codec E) r" using sql_rows_enc(2)[OF assms(2)] by blast
    have "sql_runs E db (r_run_id r) = Some r" using get sql_okD(2)[OF assms(1)] by (simp add: sql_runs_def r)
    with rs show ?case using sql_okD(2)[OF assms(1)] by (auto simp: r intro!: exI[of _ "r # rs"])
  qed simp
  with that show thesis by blast
qed

section \<open>The contract of the job and run tables\<close>

lemmas sql_job_defs = sql_ops_def sql_get_job_def sql_get_job_by_name_def sql_upsert_job_def
  insert_job_row_def sql_map_opt_def

lemma sql_get_job_eq:
  assumes "sql_ok E" "sql_inv E db"
  shows "sql_get_job E i db = (Inr (sql_jobs E db i), db)"
  using sql_jobs_enc[OF assms, of i]
  by (cases "sql_jobs E db i") (simp_all add: sql_job_defs sql_okD[OF assms(1)])

lemma sql_get_run_eq:
  assumes "sql_ok E" "sql_inv E db"
  shows "sql_get_run E i db = (Inr (sql_runs E db i), db)"
  using sql_runs_enc[OF assms, of i]
  by (cases "sql_runs E db i") (simp_all add: sql_get_run_def sql_map_opt_def sql_okD[OF assms(1)])

lemma sql_get_by_name_eq:
  assumes "sql_ok E" "sql_inv E db"
  obtains (found) i j where "sql_get_job_by_name E n db = (Inr (Some j), db)" "sql_jobs E db i = Some j" "j_job_name j = n"
  | (none) "sql_get_job_by_name E n db = (Inr None, db)" "\<And>i j. sql_jobs E db i = Some j \<Longrightarrow> j_job_name j \<noteq> n"
proof (cases "find (\<lambda>r. jr_job_name r = n) (hm_values (t_job db))")
  case None
  have "j_job_name j \<noteq> n" if "sql_jobs E db i = Some j" for i j
  proof -
    have "hm_get (t_job db) i = Some (job_enc (e_codec E) j)" using that sql_jobs_enc[OF assms, of i] by simp
    then have "job_enc (e_codec E) j \<in> set (hm_values (t_job db))"
      using sql_inv_keyed(1)[OF assms(2)] by (auto simp: keyed_def hm_value_iff)
    with None show ?thesis by (auto simp: find_None_iff)
  qed
  moreover have "sql_get_job_by_name E n db = (Inr None, db)"
    using None by (simp add: sql_job_defs sql_okD[OF assms(1)])
  ultimately show thesis by (intro none)
next
  case (Some row)
  then have row: "row \<in> set (hm_values (t_job db))" "jr_job_name row = n"
    by (auto simp: find_Some_iff in_set_conv_nth)
  then have get: "hm_get (t_job db) (jr_job_id row) = Some row"
    by (simp add: keyed_get[OF sql_inv_keyed(1)[OF assms(2)]])
  then obtain j where j: "row = job_enc (e_codec E) j" using sql_rows_enc(1)[OF assms(2)] by blast
  have "sql_jobs E db (jr_job_id row) = Some j" using get sql_okD(2)[OF assms(1)] by (simp add: sql_jobs_def j)
  moreover have "sql_get_job_by_name E n db = (Inr (Some j), db)"
    using Some by (simp add: sql_job_defs j sql_okD[OF assms(1)])
  ultimately show thesis using row(2) by (intro found) (simp_all add: j)
qed

lemma name_clash_iff:
  assumes "sql_ok E" "sql_inv E db"
  shows "list_ex (\<lambda>(k, r). k \<noteq> j_job_id j \<and> jr_job_name r = j_job_name j) (t_job db) \<longleftrightarrow>
    (\<exists>k j'. sql_jobs E db k = Some j' \<and> j_job_name j' = j_job_name j \<and> k \<noteq> j_job_id j)"
proof -
  have "(k, r) \<in> set (t_job db) \<longleftrightarrow> hm_get (t_job db) k = Some r" for k r
    using sql_inv_keyed(1)[OF assms(2)] by (simp add: keyed_def hm_entry_iff)
  then have "list_ex (\<lambda>(k, r). k \<noteq> j_job_id j \<and> jr_job_name r = j_job_name j) (t_job db) \<longleftrightarrow>
     (\<exists>k r. hm_get (t_job db) k = Some r \<and> k \<noteq> j_job_id j \<and> jr_job_name r = j_job_name j)"
    by (auto simp: list_ex_iff)
  also have "\<dots> \<longleftrightarrow> (\<exists>k j'. sql_jobs E db k = Some j' \<and> j_job_name j' = j_job_name j \<and> k \<noteq> j_job_id j)"
  proof -
    have "hm_get (t_job db) k = Some r \<longleftrightarrow> (\<exists>j'. sql_jobs E db k = Some j' \<and> r = job_enc (e_codec E) j')" for k r
      unfolding sql_jobs_enc[OF assms] by auto
    then show ?thesis by (auto 0 4)
  qed
  finally show ?thesis .
qed

lemma sql_job_table:
  assumes "sql_ok E"
  shows "job_table (sql_ops E) (sql_inv E) (sql_jobs E) (sql_runs E)"
proof (unfold_locales, goal_cases)
  case (1 s i) then show ?case by (simp add: sql_ops_def sql_get_job_eq[OF assms])
next
  case (2 s n j s') show ?case
    by (rule sql_get_by_name_eq[OF assms 2(1), of n]) (use 2 in \<open>auto simp: sql_ops_def dest: sql_job_key[OF assms]\<close>)
next
  case (3 s n s') show ?case
    by (rule sql_get_by_name_eq[OF assms 3(1), of n]) (use 3 in \<open>auto simp: sql_ops_def\<close>)
next
  case (4 s n) show ?case
    by (rule sql_get_by_name_eq[OF assms 4(1), of n]) (auto simp: sql_ops_def)
next
  case (5 s i j) then show ?case by (rule sql_job_key[OF assms])
next
  case (6 s i j i' j') then show ?case by (rule sql_name_unique[OF assms])
next
  case (7 s j)
  let ?tab = "hm_insert (j_job_id j) (job_enc (e_codec E) j) (t_job s)"
  have "\<not> list_ex (\<lambda>(k, r). k \<noteq> j_job_id j \<and> jr_job_name r = j_job_name j) (t_job s)"
    using 7(2) by (auto simp: name_clash_iff[OF assms 7(1)])
  then have "sql_upsert_job E j s = (Inr (), s\<lparr>t_job := ?tab\<rparr>)"
    by (simp add: sql_job_defs sql_okD[OF assms])
  moreover have "hm_ok ?tab" using sql_inv_keyed(1)[OF 7(1)] by (simp add: keyed_def)
  ultimately show ?case
    using job_put[OF assms 7(1), of ?tab j "j_job_id j"] 7(2) by (auto simp: sql_ops_def hm_simps)
next
  case (8 s i j' j)
  have "list_ex (\<lambda>(k, r). k \<noteq> j_job_id j \<and> jr_job_name r = j_job_name j) (t_job s)"
    using 8 by (auto simp: name_clash_iff[OF assms 8(1)])
  moreover obtain m src where "e_unique E ''chronon_job.job_name'' = StorageError m src" "is_unique_violation m"
    using assms by (auto simp: sql_ok_def)
  moreover obtain h where "sql_get_job_by_name E (j_job_name j) s = (Inr (Some h), s)" "j_job_id h = i"
  proof (rule sql_get_by_name_eq[OF assms 8(1), of "j_job_name j"], goal_cases)
    case (1 k h) then show ?case using sql_name_unique[OF assms 8(1) _ 8(2), of k h] sql_job_key[OF assms 8(1)] 8(3) by auto
  qed (use 8 in blast)
  ultimately show ?case using 8(4)
    by (simp add: sql_ops_def sql_upsert_job_def insert_job_row_def sql_okD[OF assms])
qed

lemma sql_update_run_eq:
  assumes "sql_ok E" "sql_inv E db"
  shows "sql_runs E db (r_run_id r) = None \<Longrightarrow> sql_update_run E r db = (Inl (RunNotFound (r_run_id r)), db)"
    "sql_runs E db (r_run_id r) \<noteq> None \<Longrightarrow> \<exists>tab. sql_update_run E r db = (Inr (), db\<lparr>t_run := tab\<rparr>) \<and>
       hm_ok tab \<and> hm_get tab = (hm_get (t_run db))(r_run_id r \<mapsto> run_enc (e_codec E) r)"
proof -
  let ?tab = "update_where (\<lambda>x. rr_run_id x = r_run_id r) (\<lambda>_. run_enc (e_codec E) r) (t_run db)"
  note key = sql_inv_keyed(2)[OF assms(2)]
  have step: "sql_execute E ''update_run'' (\<lambda>db. (Inr (), db\<lparr>t_run := update_where (\<lambda>x. rr_run_id x = r_run_id r)
     (\<lambda>_. run_enc (e_codec E) r) (t_run db)\<rparr>)) db = (Inr (), db\<lparr>t_run := ?tab\<rparr>)"
    by (simp add: sql_okD[OF assms(1)])
  note enc = sql_runs_enc[OF assms, of "r_run_id r"]
  show "sql_update_run E r db = (Inl (RunNotFound (r_run_id r)), db)" if "sql_runs E db (r_run_id r) = None"
  proof -
    have "?tab = t_run db"
      using update_key_id[OF key, of "r_run_id r" "\<lambda>_. True"] that enc by simp
    then show ?thesis
      using that by (simp add: sql_update_run_def sql_okD[OF assms(1)] sql_get_run_eq[OF assms])
  qed
  show "\<exists>tab. sql_update_run E r db = (Inr (), db\<lparr>t_run := tab\<rparr>) \<and>
       hm_ok tab \<and> hm_get tab = (hm_get (t_run db))(r_run_id r \<mapsto> run_enc (e_codec E) r)"
    if "sql_runs E db (r_run_id r) \<noteq> None"
  proof -
    have tab: "hm_ok ?tab" "hm_get ?tab = (hm_get (t_run db))(r_run_id r \<mapsto> run_enc (e_codec E) r)"
      using update_key_get[OF key, of "r_run_id r" "\<lambda>_. True" "\<lambda>_. run_enc (e_codec E) r"] that enc key
      by (auto simp: keyed_def)
    note put = run_put[OF assms tab(1) refl tab(2)]
    have "sql_get_run E (r_run_id r) (db\<lparr>t_run := ?tab\<rparr>) = (Inr (Some r), db\<lparr>t_run := ?tab\<rparr>)"
      using sql_get_run_eq[OF assms(1) put(1), of "r_run_id r"] put(2) by simp
    then have "sql_update_run E r db = (Inr (), db\<lparr>t_run := ?tab\<rparr>)"
      by (simp add: sql_update_run_def sql_okD[OF assms(1)])
    with tab show ?thesis by blast
  qed
qed

lemma sql_list_runs_eq:
  assumes "sql_ok E" "sql_inv E db" "n \<le> i64_max_nat"
  shows "\<exists>rs. sql_list_runs_for_job E i n db = (Inr rs, db) \<and> length rs \<le> n \<and> distinct rs \<and>
     set rs \<subseteq> {r. sql_runs E db (r_run_id r) = Some r \<and> r_job_id r = Some i} \<and>
     (length rs < n \<longrightarrow> set rs = {r. sql_runs E db (r_run_id r) = Some r \<and> r_job_id r = Some i})"
proof -
  let ?C = "e_codec E"
  let ?sel = "sql_newest_first (select_where (\<lambda>r. rr_job_id r = Some i) (t_run db))"
  have sel: "set ?sel \<subseteq> set (hm_values (t_run db))" "set (take n ?sel) \<subseteq> set (hm_values (t_run db))"
    by (auto simp: sql_newest_first_def select_where_def dest: in_set_takeD)
  have "distinct (hm_values (t_run db))"
    using keyed_distinct[OF sql_inv_keyed(2)[OF assms(2)]] by (simp add: distinct_map)
  then have "distinct (take n ?sel)" by (simp add: sql_newest_first_def select_where_def)
  obtain rs where rs: "sql_collect (row_to_run ?C) (take n ?sel) = Inr rs" "take n ?sel = map (run_enc ?C) rs"
    "\<And>r. r \<in> set rs \<Longrightarrow> sql_runs E db (r_run_id r) = Some r"
    by (rule collect_runs[OF assms(1,2) sel(2)]) blast
  have mem: "r_job_id r = Some i" if "r \<in> set rs" for r
  proof -
    have "run_enc ?C r \<in> set (take n ?sel)" using that rs(2) by simp
    then show ?thesis by (auto simp: sql_newest_first_def select_where_def dest: in_set_takeD)
  qed
  have all: "r \<in> set rs" if "sql_runs E db (r_run_id r) = Some r" "r_job_id r = Some i" "length rs < n" for r
  proof -
    have "hm_get (t_run db) (rr_run_id (run_enc ?C r)) = Some (run_enc ?C r)"
      using that(1) sql_runs_enc[OF assms(1,2), of "r_run_id r"] by simp
    then have "run_enc ?C r \<in> set ?sel"
      using that(2) by (simp add: sql_newest_first_def select_where_def keyed_get[OF sql_inv_keyed(2)[OF assms(2)]])
    moreover have "length (take n ?sel) < n" unfolding rs(2) using that(3) by simp
    then have "take n ?sel = ?sel" by simp
    with rs(2) have "?sel = map (run_enc ?C) rs" by (simp only:)
    ultimately have "run_enc ?C r \<in> run_enc ?C ` set rs" by (metis list.set_map)
    then obtain r' where "r' \<in> set rs" "run_enc ?C r = run_enc ?C r'" by blast
    then show ?thesis using run_enc_dec[OF sql_okD(2)[OF assms(1)]] by (metis sum.inject(2))
  qed
  have "sql_list_runs_for_job E i n db = (Inr rs, db)"
    using rs(1) assms(3) by (simp add: sql_list_runs_for_job_def sql_map_all_def sql_okD[OF assms(1)] min_absorb1)
  moreover have "length rs \<le> n" using rs(2) by (metis length_map length_take min.cobounded2)
  moreover have "distinct rs" using \<open>distinct (take n ?sel)\<close> rs(2) by (metis distinct_map)
  ultimately show ?thesis using rs(3) mem all by (intro exI[of _ rs]) auto
qed

lemma sql_run_table:
  assumes "sql_ok E"
  shows "run_table (sql_ops E) (sql_inv E) (sql_jobs E) (sql_runs E)"
proof (rule run_table.intro[OF sql_job_table[OF assms]], unfold_locales, goal_cases)
  case (1 s r)
  let ?tab = "hm_insert (r_run_id r) (run_enc (e_codec E) r) (t_run s)"
  have "hm_get (t_run s) (r_run_id r) = None" using 1 sql_runs_enc[OF assms 1(1)] by simp
  then have "sql_create_run E r s = (Inr (), s\<lparr>t_run := ?tab\<rparr>)"
    by (simp add: sql_create_run_def sql_okD[OF assms])
  moreover have "hm_ok ?tab" using sql_inv_keyed(2)[OF 1(1)] by (simp add: keyed_def)
  ultimately show ?case using run_put[OF assms 1(1), of ?tab r "r_run_id r"] by (auto simp: sql_ops_def hm_simps)
next
  case (2 s i) then show ?case by (simp add: sql_ops_def sql_get_run_eq[OF assms])
next
  case (3 s i r) then show ?case by (rule sql_run_key[OF assms])
next
  case (4 s r)
  then obtain tab where "sql_update_run E r s = (Inr (), s\<lparr>t_run := tab\<rparr>)" "hm_ok tab"
     "hm_get tab = (hm_get (t_run s))(r_run_id r \<mapsto> run_enc (e_codec E) r)"
    using sql_update_run_eq(2)[OF assms 4(1)] by blast
  then show ?case using run_put[OF assms 4(1), of tab r "r_run_id r"] by (auto simp: sql_ops_def)
next
  case (5 s r) then show ?case using sql_update_run_eq(1)[OF assms] by (auto simp: sql_ops_def)
next
  case (6 s n i) then show ?case using sql_list_runs_eq[OF assms] by (simp add: sql_ops_def)
qed

section \<open>Claims\<close>

lemma update_job_row_hit:
  assumes "sql_ok E" "sql_inv E db" "sql_jobs E db i = Some j" "p (job_enc (e_codec E) j)"
    "f (job_enc (e_codec E) j) = job_enc (e_codec E) j'" "j_job_id j' = j_job_id j" "j_job_name j' = j_job_name j"
  obtains db' where "update_job_row E n i p f db = (Inr 1, db')" "sql_inv E db'"
    "sql_jobs E db' = (sql_jobs E db)(i \<mapsto> j')" "sql_runs E db' = sql_runs E db"
proof -
  let ?tab = "update_where (\<lambda>r. jr_job_id r = i \<and> p r) f (t_job db)"
  note key = sql_inv_keyed(1)[OF assms(2)]
  have get: "hm_get (t_job db) i = Some (job_enc (e_codec E) j)" using assms(3) sql_jobs_enc[OF assms(1,2), of i] by simp
  have tab: "hm_ok ?tab" "hm_get ?tab = (hm_get (t_job db))(i \<mapsto> job_enc (e_codec E) j')"
    using update_key_get[OF key, of i p f] get assms(4,5) key by (simp_all add: keyed_def)
  have id: "j_job_id j' = i" using assms(6) sql_job_key[OF assms(1-3)] by simp
  note put = job_put[OF assms(1,2) tab(1) id tab(2)]
  have "k = i" if "sql_jobs E db k = Some x" "j_job_name x = j_job_name j'" for k x
    using sql_name_unique[OF assms(1,2) that(1) assms(3)] that(2) assms(7) by simp
  moreover have "update_job_row E n i p f db = (Inr 1, db\<lparr>t_job := ?tab\<rparr>)"
    using get assms(4) by (simp add: update_job_row_def sql_okD[OF assms(1)] select_key[OF key])
  ultimately show thesis using put that by blast
qed

lemma update_job_row_miss:
  assumes "sql_ok E" "sql_inv E db" "\<forall>j. sql_jobs E db i = Some j \<longrightarrow> \<not> p (job_enc (e_codec E) j)"
  shows "update_job_row E n i p f db = (Inr 0, db)"
proof -
  note key = sql_inv_keyed(1)[OF assms(2)]
  have no: "\<forall>r. hm_get (t_job db) i = Some r \<longrightarrow> \<not> p r"
    using assms(3) sql_jobs_enc[OF assms(1,2), of i] by auto
  then have "update_where (\<lambda>r. jr_job_id r = i \<and> p r) f (t_job db) = t_job db" by (rule update_key_id[OF key])
  with no show ?thesis
    by (auto simp: update_job_row_def sql_okD[OF assms(1)] select_key[OF key] split: option.splits)
qed

text \<open>The run-once condition of the SQL statement; an absent expiry does not free a claim.\<close>

definition sql_once_free :: "string \<Rightarrow> time \<Rightarrow> job \<Rightarrow> bool" where
  "sql_once_free who now j \<longleftrightarrow> j_run_once_completed_at j = None \<and>
     (j_run_once_claimed_at j = None \<or>
      (case j_run_once_claim_expires_at j of None \<Rightarrow> False | Some e \<Rightarrow> e \<le> now) \<or>
      j_run_once_claimed_by j = Some who)"

lemmas sql_claim_defs = sql_ops_def scheduler_store.select_convs sql_claim_job_for_tick_def
  sql_release_job_tick_claim_def sql_persist_post_tick_job_state_def sql_try_claim_run_once_def
  sql_mark_run_once_completed_def

lemma affected_hit:
  assumes "sql_ok E" "sql_inv E db" "sql_jobs E db i = Some j" "p (job_enc (e_codec E) j)"
    "f (job_enc (e_codec E) j) = job_enc (e_codec E) j'" "j_job_id j' = j_job_id j" "j_job_name j' = j_job_name j"
  shows "\<exists>s'. affected (update_job_row E n i p f db) = (Inr True, s') \<and> sql_inv E s' \<and>
      sql_jobs E s' = (sql_jobs E db)(i \<mapsto> j') \<and> sql_runs E s' = sql_runs E db"
    "\<exists>s'. ignore_count (update_job_row E n i p f db) = (Inr (), s') \<and> sql_inv E s' \<and>
      sql_jobs E s' = (sql_jobs E db)(i \<mapsto> j') \<and> sql_runs E s' = sql_runs E db"
proof -
  obtain s' where "update_job_row E n i p f db = (Inr 1, s')" "sql_inv E s'"
      "sql_jobs E s' = (sql_jobs E db)(i \<mapsto> j')" "sql_runs E s' = sql_runs E db"
    by (rule update_job_row_hit[where p = p and f = f and n = n, OF assms])
  then show "\<exists>s'. affected (update_job_row E n i p f db) = (Inr True, s') \<and> sql_inv E s' \<and>
      sql_jobs E s' = (sql_jobs E db)(i \<mapsto> j') \<and> sql_runs E s' = sql_runs E db"
    "\<exists>s'. ignore_count (update_job_row E n i p f db) = (Inr (), s') \<and> sql_inv E s' \<and>
      sql_jobs E s' = (sql_jobs E db)(i \<mapsto> j') \<and> sql_runs E s' = sql_runs E db"
    by (auto simp: affected_def ignore_count_def)
qed

lemma affected_miss:
  assumes "sql_ok E" "sql_inv E db" "\<forall>j. sql_jobs E db i = Some j \<longrightarrow> \<not> p (job_enc (e_codec E) j)"
  shows "affected (update_job_row E n i p f db) = (Inr False, db)"
  by (simp add: affected_def update_job_row_miss[OF assms])

lemma sql_coordinator_claims:
  assumes "sql_ok E"
  shows "coordinator_claims (sql_ops E) (sql_inv E) (sql_jobs E) (sql_runs E) sql_once_free"
proof (rule coordinator_claims.intro[OF sql_run_table[OF assms]], unfold_locales, goal_cases)
  case (1 s i j now cid ttl)
  show ?case unfolding sql_claim_defs sql_okD(1)[OF assms]
    by (rule affected_hit[OF assms 1(1,2)])
      (use 1(3) in \<open>auto simp: job_enc_upd row_tick_claim_def tick_claimable_def split: option.splits\<close>)
next
  case (2 s i now cid ttl) then show ?case unfolding sql_claim_defs sql_okD(1)[OF assms]
    by (intro affected_miss[OF assms]) (auto simp: tick_claimable_def split: option.splits)
next
  case (3 s i j clk) then show ?case unfolding sql_claim_defs sql_okD(1)[OF assms]
    by (intro affected_hit(2)[OF assms]) (auto simp: job_enc_upd row_tick_release_def)
next
  case (4 s i j clk nra)
  show ?case unfolding sql_claim_defs sql_okD(1)[OF assms]
    by (rule affected_hit(2)[OF assms 4])
      (auto simp: job_enc_upd row_post_tick_def sql_okD(1)[OF assms] option.map_ident[unfolded id_def])
next
  case (5 s i j who now ttl)
  show ?case unfolding sql_claim_defs sql_okD(1)[OF assms]
    by (rule affected_hit[OF assms 5(1,2)])
      (use 5(3) in \<open>auto simp: job_enc_upd row_once_claim_def sql_once_free_def split: option.splits\<close>)
next
  case (6 s i who now ttl) then show ?case unfolding sql_claim_defs sql_okD(1)[OF assms]
    by (intro affected_miss[OF assms]) (auto simp: sql_once_free_def split: option.splits)
next
  case (7 s i j clk at')
  have "\<exists>s'. so_mark_run_once_completed (sql_ops E) clk i at' s = (Inr (), s') \<and> sql_inv E s' \<and>
      sql_jobs E s' = (sql_jobs E s)(i \<mapsto> row_once_complete at' at' j) \<and> sql_runs E s' = sql_runs E s"
    unfolding sql_claim_defs sql_okD(1)[OF assms]
    by (rule affected_hit(2)[OF assms 7]) (auto simp: job_enc_upd row_once_complete_def)
  then show ?case by blast
next
  case 8 then show ?case by (simp add: sql_once_free_def row_once_claim_def)
next
  case 9 then show ?case by (simp add: sql_once_free_def)
next
  case 10 show ?case by (simp add: sql_once_free_def row_tick_claim_def)
qed

end
