(* ===== verification/Sql_Claims.thy ===== *)
theory Sql_Claims
  imports Sql_Facts
begin

text \<open>
  The rest of the port contract on the SQL backend: the claim of the next run, the due queries, the
  partition table and the leader row; the locale of the backends on a faithful engine.
\<close>

section \<open>The next queued run\<close>

text \<open>A claim that returns a run wrote exactly that run; the run was queued, due, unleased and of the pool.\<close>

lemma sql_claimable_enc:
  "sql_claimable pool now (run_enc C r) \<longleftrightarrow> r_status r = Queued \<and> r_scheduled_for r \<le> now \<and>
     (case r_claim_lease_until r of None \<Rightarrow> True | Some u \<Rightarrow> u \<le> now) \<and>
     (r_pool_id r = Some pool \<or> pool = ''general'' \<and> r_pool_id r = None)"
  by (auto simp: sql_claimable_def sql_pool_ok_def)

definition row_claimed :: "string \<Rightarrow> time \<Rightarrow> run \<Rightarrow> run" where
  "row_claimed wid until r = r\<lparr>r_status := Claimed, r_claimed_by := Some wid, r_claim_lease_until := Some until\<rparr>"

lemma sql_claim_next_cases:
  assumes "sql_ok E" "sql_inv E db"
  obtains (none) "sql_claim_next_queued E pool wid now ttl db = (Inr None, db)"
      "\<And>i r. sql_runs E db i = Some r \<Longrightarrow> \<not> sql_claimable pool now (run_enc (e_codec E) r)"
  | (some) r db' where
      "sql_claim_next_queued E pool wid now ttl db = (Inr (Some (row_claimed wid (add_secs now ttl) r)), db')"
      "sql_inv E db'" "sql_runs E db (r_run_id r) = Some r"
      "sql_runs E db' = (sql_runs E db)(r_run_id r \<mapsto> row_claimed wid (add_secs now ttl) r)"
      "sql_jobs E db' = sql_jobs E db" "sql_claimable pool now (run_enc (e_codec E) r)"
proof -
  let ?sel = "select_where (sql_claimable pool now) (t_run db)"
  let ?set = "sql_set_claimed wid (add_secs now ttl)"
  note key = sql_inv_keyed(2)[OF assms(2)]
  show thesis
  proof (cases "sort_key rr_scheduled_for ?sel")
    case Nil
    then have "?sel = []" by (metis set_sort set_empty)
    then have "\<not> sql_claimable pool now (run_enc (e_codec E) r)" if "sql_runs E db i = Some r" for i r
      using that sql_runs_enc[OF assms, of i] sql_run_key[OF assms that]
      by (auto simp: select_where_def filter_empty_conv keyed_get[OF key])
    moreover have "sql_claim_next_queued E pool wid now ttl db = (Inr None, db)"
      using Nil by (simp add: sql_claim_next_queued_def sql_map_opt_def sql_okD[OF assms(1)])
    ultimately show thesis by (rule none[rotated])
  next
    case (Cons row rest)
    then have "row \<in> set ?sel" by (metis set_sort list.set_intros(1))
    then have row: "sql_claimable pool now row" "hm_get (t_run db) (rr_run_id row) = Some row"
      by (simp_all add: select_where_def keyed_get[OF key])
    obtain r where r: "row = run_enc (e_codec E) r" using sql_rows_enc(2)[OF assms(2) row(2)] by blast
    let ?r = "row_claimed wid (add_secs now ttl) r"
    let ?tab = "update_where (\<lambda>x. rr_run_id x = rr_run_id row) ?set (t_run db)"
    have enc: "?set row = run_enc (e_codec E) ?r" unfolding r row_claimed_def by (rule run_enc_upd(1))
    have tab: "hm_ok ?tab" "hm_get ?tab = (hm_get (t_run db))(r_run_id r \<mapsto> run_enc (e_codec E) ?r)"
      using update_key_get[OF key, of "rr_run_id row" "\<lambda>_. True" ?set] row(2) key enc by (simp_all add: keyed_def r)
    have id: "r_run_id ?r = r_run_id r" by (simp add: row_claimed_def)
    note put = run_put[OF assms tab(1) id tab(2)]
    have step: "sql_claim_next_queued E pool wid now ttl db = (Inr (Some ?r), db\<lparr>t_run := ?tab\<rparr>)"
      using Cons enc by (simp add: sql_claim_next_queued_def sql_map_opt_def sql_okD[OF assms(1)] Let_def)
    have old: "sql_runs E db (r_run_id r) = Some r"
      using row(2) sql_okD(2)[OF assms(1)] by (simp add: sql_runs_def r)
    show thesis by (rule some[OF step put(1) old put(2,3)]) (use row(1) r in simp)
  qed
qed

lemma sql_run_claims:
  assumes "sql_ok E"
  shows "run_claims (sql_ops E) (sql_inv E) (sql_jobs E) (sql_runs E)"
proof (rule run_claims.intro[OF sql_run_table[OF assms]], unfold_locales, goal_cases)
  case (1 s pool wid now ttl r s') show ?case
    by (rule sql_claim_next_cases[OF assms 1(1), of pool wid now ttl])
      (use 1(2) in \<open>auto simp: sql_ops_def row_claimed_def\<close>)
next
  case (2 s pool wid now ttl a s') show ?case
    by (rule sql_claim_next_cases[OF assms 2(1), of pool wid now ttl])
      (use 2 in \<open>auto simp: sql_ops_def\<close>)
qed

section \<open>Due jobs\<close>

lemma sql_due_queries:
  assumes "sql_ok E"
  shows "due_queries (sql_ops E) (sql_inv E) (sql_jobs E) (sql_runs E) sql_once_free"
proof (rule due_queries.intro[OF sql_coordinator_claims[OF assms]], unfold_locales, goal_cases)
  case (1 s clk owned due_until limit)
  let ?rows = "take limit (sort_key (\<lambda>r. the (jr_next_run_at r)) (select_where (sql_due clk owned due_until) (t_job s)))"
  note key = sql_inv_keyed(1)[OF 1]
  have "distinct (map jr_job_id (sort_key (\<lambda>r. the (jr_next_run_at r)) (select_where (sql_due clk owned due_until) (t_job s))))"
    using keyed_distinct[OF key] by (auto simp: select_where_def distinct_map inj_on_def)
  then have d: "distinct (map jr_job_id ?rows)" by (simp add: take_map[symmetric])
  have "\<exists>j. sql_jobs E s (jr_job_id row) = Some j \<and> j_enabled j \<and> (\<exists>t. j_next_run_at j = Some t \<and> t \<le> due_until)"
    if "row \<in> set ?rows" for row
  proof -
    have row: "sql_due clk owned due_until row" "hm_get (t_job s) (jr_job_id row) = Some row"
      using in_set_takeD[OF that] by (simp_all add: select_where_def keyed_get[OF key])
    obtain j where j: "row = job_enc (e_codec E) j" using sql_rows_enc(1)[OF 1 row(2)] by blast
    have "sql_jobs E s (jr_job_id row) = Some j" using row(2) sql_okD(2)[OF assms] by (simp add: sql_jobs_def j)
    with row(1) show ?thesis by (auto simp: sql_due_def j split: option.splits if_splits)
  qed
  with d show ?case
    by (cases "owned = [] \<or> limit = 0")
      (auto simp: sql_ops_def sql_find_due_job_ids_in_partitions_def sql_okD[OF assms])
next
  case (2 s owned) show ?case
    by (auto simp: sql_ops_def sql_min_next_run_at_in_partitions_def sql_okD[OF assms])
qed

section \<open>Partitions and the leader\<close>

definition sql_parts :: "sql_db \<Rightarrow> string \<Rightarrow> partition_assignment option" where
  "sql_parts db k = map_option row_to_partition (hm_get (t_partition db) k)"

definition sql_leader :: "sql_db \<Rightarrow> scheduler_leader option" where
  "sql_leader db = map_option row_to_leader (hm_get (t_leader db) sql_leader_row_id)"

lemma partition_row_inverse [simp]:
  "row_to_partition (partition_row_from_model a) = a" "partition_row_from_model (row_to_partition row) = row"
  by (simp_all add: row_to_partition_def partition_row_from_model_def)

lemma collect_Inr [simp]: "sql_collect (\<lambda>r. Inr (f r)) rows = Inr (map f rows)"
  by (induction rows) simp_all

lemma sql_partition_table:
  assumes "sql_ok E"
  shows "partition_table (sql_ops E) (sql_inv E) sql_parts"
proof (unfold_locales, goal_cases)
  case (1 s)
  note key = sql_inv_keyed(4)[OF 1]
  let ?rows = "map row_to_partition (sort_key pr_partition_id (hm_values (t_partition s)))"
  have "distinct (map pr_partition_id (sort_key pr_partition_id (hm_values (t_partition s))))"
    using keyed_distinct[OF key] by (simp add: distinct_map)
  moreover have "pa_partition_id \<circ> row_to_partition = pr_partition_id" by (auto simp: row_to_partition_def)
  ultimately have "distinct (map pa_partition_id ?rows)" by (simp add: distinct_map)
  moreover have "r \<in> set ?rows \<longleftrightarrow> sql_parts s (pa_partition_id r) = Some r" for r
  proof -
    have "pr_partition_id (partition_row_from_model r) = pa_partition_id r" by (simp add: partition_row_from_model_def)
    then have "partition_row_from_model r \<in> set (hm_values (t_partition s)) \<longleftrightarrow>
        hm_get (t_partition s) (pa_partition_id r) = Some (partition_row_from_model r)"
      using keyed_get[OF key, of "partition_row_from_model r"] by simp
    moreover have "row_to_partition x = r \<longleftrightarrow> x = partition_row_from_model r" for x by auto
    ultimately show ?thesis by (auto simp: sql_parts_def image_iff eq_commute[of r])
  qed
  ultimately show ?case
    by (simp add: sql_ops_def sql_list_partition_assignments_def sql_map_all_def sql_okD[OF assms])
next
  case (2 s k r) then show ?case
    using keyedD[OF sql_inv_keyed(4)[OF 2(1)], of k] by (auto simp: sql_parts_def row_to_partition_def)
next
  case (3 s a)
  let ?row = "partition_row_from_model a"
  have "pr_partition_id ?row = pa_partition_id a" by (simp add: partition_row_from_model_def)
  moreover from this have "sql_inv E (s\<lparr>t_partition := hm_insert (pa_partition_id a) ?row (t_partition s)\<rparr>)"
    using 3 keyed_insert[OF sql_inv_keyed(4)[OF 3], of "pa_partition_id a" ?row] by (simp add: sql_inv_def)
  ultimately show ?case
    by (auto simp: sql_ops_def sql_upsert_partition_assignment_def sql_okD[OF assms] Let_def sql_parts_def hm_simps fun_eq_iff)
qed

lemma sql_leader_row:
  assumes "sql_ok E"
  shows "leader_row (sql_ops E) (sql_inv E) sql_leader"
proof -
  have inv: "sql_inv E (s\<lparr>t_leader := tab\<rparr>)" if "sql_inv E s" "keyed lr_leader_id tab" for s tab
    using that by (simp add: sql_inv_def)
  have new: "keyed lr_leader_id (hm_insert sql_leader_row_id row (t_leader s))"
    if "sql_inv E s" "lr_leader_id row = sql_leader_row_id" for s row
    using keyed_insert[OF sql_inv_keyed(3)[OF that(1)], of sql_leader_row_id row] that(2) by simp
  note defs = sql_ops_def sql_try_acquire_leader_def sql_renew_leader_lease_def sql_get_leader_def
    sql_map_opt_def sql_okD[OF assms] Let_def sql_leader_def leader_live_other_def
  show ?thesis
  proof (unfold_locales, goal_cases)
    case (1 s now i ttl) then show ?case by (auto simp: defs row_to_leader_def split: option.splits)
  next
    case (2 s now i ttl) then show ?case
      by (auto simp: defs hm_simps row_to_leader_def intro!: inv new split: option.splits)
  next
    case (3 s l i now ttl)
    let ?f = "\<lambda>r. r\<lparr>lr_leader_lease_until := add_secs now ttl, lr_last_heartbeat_at := now\<rparr>"
    let ?tab = "update_where (\<lambda>r. lr_leader_id r = sql_leader_row_id \<and> lr_leader_instance_id r = i) ?f (t_leader s)"
    have "keyed lr_leader_id ?tab" by (rule update_where_keyed[OF sql_inv_keyed(3)[OF 3(1)]]) simp
    moreover obtain row where row: "hm_get (t_leader s) sql_leader_row_id = Some row" "l = row_to_leader row"
      using 3(2) by (auto simp: sql_leader_def)
    then have "hm_get ?tab sql_leader_row_id = Some (?f row)"
      using 3(3) keyedD[OF sql_inv_keyed(3)[OF 3(1)] row(1)] by (simp add: update_where_get row_to_leader_def)
    ultimately show ?case using 3 row(2) inv[OF 3(1)] by (auto simp: defs row_to_leader_def)
  next
    case (4 s i now ttl)
    have "update_where (\<lambda>r. lr_leader_id r = sql_leader_row_id \<and> lr_leader_instance_id r = i) f (t_leader s) = t_leader s" for f
      using 4(2) by (intro update_key_id[OF sql_inv_keyed(3)[OF 4(1)]]) (auto simp: sql_leader_def row_to_leader_def)
    then show ?case by (simp add: defs)
  next
    case (5 s) then show ?case by (auto simp: defs split: option.splits)
  qed
qed

section \<open>The locale of the backend\<close>

locale sql_backend =
  fixes E :: sql_engine
  assumes engine_ok: "sql_ok E"

sublocale sql_backend \<subseteq> due_queries "sql_ops E" "sql_inv E" "sql_jobs E" "sql_runs E" sql_once_free
  by (rule sql_due_queries[OF engine_ok])

sublocale sql_backend \<subseteq> claims: run_claims "sql_ops E" "sql_inv E" "sql_jobs E" "sql_runs E"
  by (rule sql_run_claims[OF engine_ok])

sublocale sql_backend \<subseteq> parts: partition_table "sql_ops E" "sql_inv E" sql_parts
  by (rule sql_partition_table[OF engine_ok])

sublocale sql_backend \<subseteq> lead: leader_row "sql_ops E" "sql_inv E" sql_leader
  by (rule sql_leader_row[OF engine_ok])

end
