(* ===== verification/Sql_Steps.thy ===== *)
theory Sql_Steps
  imports Sql_Claims
begin

text \<open>
  The SQL backend as a state machine over every operation that writes, on any engine: statements may
  fail and instants may be rounded. Every reachable database is well typed, that is, every row of
  every table stands under its key and decodes.
\<close>

section \<open>Well-typed tables\<close>

definition table_ok :: "('r \<Rightarrow> string) \<Rightarrow> ('r \<Rightarrow> bool) \<Rightarrow> (string, 'r) hashmap \<Rightarrow> bool" where
  "table_ok key P tab \<longleftrightarrow> keyed key tab \<and> (\<forall>k row. hm_get tab k = Some row \<longrightarrow> P row)"

lemma table_ok_Nil [simp]: "table_ok key P []"
  by (simp add: table_ok_def)

lemma table_ok_insert: "table_ok key P tab \<Longrightarrow> k = key row \<Longrightarrow> P row \<Longrightarrow> table_ok key P (hm_insert k row tab)"
  by (auto simp: table_ok_def keyed_insert hm_simps)

lemma table_ok_update:
  assumes "table_ok key P tab" "\<And>row. P row \<Longrightarrow> p row \<Longrightarrow> P (f row) \<and> key (f row) = key row"
  shows "table_ok key P (update_where p f tab)"
  using assms by (auto simp: table_ok_def keyed_def update_where_get)

lemma hm_get_filter:
  assumes "hm_ok tab"
  shows "hm_get (filter (\<lambda>(k, r). p r) tab) k = (case hm_get tab k of Some r \<Rightarrow> if p r then Some r else None | None \<Rightarrow> None)"
  using assms
proof (induction tab)
  case (Cons a tab)
  then show ?case
    by (cases a) (auto simp: hm_ok_def split: option.splits dest: map_of_SomeD intro: rev_image_eqI)
qed simp

lemma table_ok_filter:
  assumes "table_ok key P tab"
  shows "table_ok key P (filter (\<lambda>(k, r). p r) tab)"
proof -
  have "hm_ok tab" using assms by (simp add: table_ok_def keyed_def)
  then show ?thesis
    using assms distinct_map_filter[of fst tab]
    by (auto simp: table_ok_def keyed_def hm_get_filter hm_ok_def split: option.splits if_splits)
qed

definition revision_enc :: "sql_codec \<Rightarrow> job_revision \<Rightarrow> job_revision_row" where
  "revision_enc C v = projr (revision_row_from_model (total_codec C) v)"

definition script_enc :: "sql_codec \<Rightarrow> script \<Rightarrow> script_row" where
  "script_enc C s = projr (script_row_from_model (total_codec C) s)"

definition worker_enc :: "sql_codec \<Rightarrow> worker \<Rightarrow> worker_row" where
  "worker_enc C k = projr (worker_row_from_model (total_codec C) k)"

lemmas enc_defs = revision_enc_def script_enc_def worker_enc_def revision_row_from_model_def
  script_row_from_model_def worker_row_from_model_def

lemma meta_from_model [simp]:
  assumes "json_writes C"
  shows "revision_row_from_model C v = Inr (revision_enc C v)" "script_row_from_model C s = Inr (script_enc C s)"
    "worker_row_from_model C k = Inr (worker_enc C k)"
  using assms by (simp_all add: enc_defs encode_writes)

lemma meta_enc_dec [simp]:
  assumes "json_codec_ok C"
  shows "row_to_revision C (revision_enc C v) = Inr v" "row_to_script C (script_enc C s) = Inr s"
    "row_to_worker C (worker_enc C k) = Inr k"
  using assms by (simp_all add: enc_defs row_to_revision_def row_to_script_def row_to_worker_def)

text \<open>Binding rounds the instants of a model and changes nothing else.\<close>

definition round_job :: "(time \<Rightarrow> time) \<Rightarrow> job \<Rightarrow> job" where
  "round_job q j =
     j\<lparr>j_run_once_at := map_option q (j_run_once_at j), j_run_once_claimed_at := map_option q (j_run_once_claimed_at j),
       j_run_once_completed_at := map_option q (j_run_once_completed_at j),
       j_run_once_claim_expires_at := map_option q (j_run_once_claim_expires_at j),
       j_claim_lease_until := map_option q (j_claim_lease_until j), j_next_run_at := map_option q (j_next_run_at j),
       j_updated_at := q (j_updated_at j), j_created_at := q (j_created_at j)\<rparr>"

definition round_run :: "(time \<Rightarrow> time) \<Rightarrow> run \<Rightarrow> run" where
  "round_run q r =
     r\<lparr>r_scheduled_for := q (r_scheduled_for r), r_started_at := map_option q (r_started_at r),
       r_finished_at := map_option q (r_finished_at r), r_claim_lease_until := map_option q (r_claim_lease_until r)\<rparr>"

lemma bind_enc:
  "bind_job_row C (job_enc C j) = job_enc C (round_job (q_time C) j)"
  "bind_run_row C (run_enc C r) = run_enc C (round_run (q_time C) r)"
  "bind_revision_row C (revision_enc C v) = revision_enc C (v\<lparr>v_changed_at := q_time C (v_changed_at v)\<rparr>)"
  "bind_script_row C (script_enc C s) = script_enc C (s\<lparr>s_created_at := q_time C (s_created_at s)\<rparr>)"
  "bind_worker_row C (worker_enc C k) = worker_enc C (k\<lparr>k_last_heartbeat_at := q_time C (k_last_heartbeat_at k),
     k_created_at := q_time C (k_created_at k), k_updated_at := q_time C (k_updated_at k)\<rparr>)"
  "(worker_enc C k)\<lparr>kr_last_heartbeat_at := t, kr_updated_at := u\<rparr> =
     worker_enc C (k\<lparr>k_last_heartbeat_at := t, k_updated_at := u\<rparr>)"
  "(worker_enc C k)\<lparr>kr_created_at := t\<rparr> = worker_enc C (k\<lparr>k_created_at := t\<rparr>)"
  by (simp_all add: job_enc_def job_row_from_model_def bind_job_row_def round_job_def run_enc_def
      run_row_from_model_def bind_run_row_def round_run_def enc_defs bind_revision_row_def
      bind_script_row_def bind_worker_row_def)

lemma round_sel [simp]:
  "j_job_id (round_job q j) = j_job_id j" "j_job_name (round_job q j) = j_job_name j"
  "r_run_id (round_run q r) = r_run_id r"
  by (simp_all add: round_job_def round_run_def)

lemma meta_sel [simp]:
  "vr_revision_id (revision_enc C v) = v_revision_id v" "sr_script_name (script_enc C s) = s_script_name s"
  "kr_worker_id (worker_enc C k) = k_worker_id k"
  by (simp_all add: enc_defs)

definition job_names_unique :: "(string, job_row) hashmap \<Rightarrow> bool" where
  "job_names_unique tab \<longleftrightarrow> (\<forall>k k' row row'. hm_get tab k = Some row \<longrightarrow> hm_get tab k' = Some row' \<longrightarrow>
     jr_job_name row = jr_job_name row' \<longrightarrow> k = k')"

definition sql_typed :: "sql_engine \<Rightarrow> sql_db \<Rightarrow> bool" where
  "sql_typed E db \<longleftrightarrow>
     table_ok jr_job_id (\<lambda>row. row \<in> range (job_enc (e_codec E))) (t_job db) \<and> job_names_unique (t_job db) \<and>
     table_ok rr_run_id (\<lambda>row. row \<in> range (run_enc (e_codec E))) (t_run db) \<and>
     table_ok vr_revision_id (\<lambda>row. row \<in> range (revision_enc (e_codec E))) (t_revision db) \<and>
     table_ok sr_script_name (\<lambda>row. row \<in> range (script_enc (e_codec E))) (t_script db) \<and>
     table_ok lr_leader_id (\<lambda>_. True) (t_leader db) \<and> table_ok pr_partition_id (\<lambda>_. True) (t_partition db) \<and>
     table_ok kr_worker_id (\<lambda>row. row \<in> range (worker_enc (e_codec E))) (t_worker db)"

lemma sql_typed_inv: "sql_typed E db \<Longrightarrow> sql_inv E db"
  by (auto simp: sql_typed_def sql_inv_def table_ok_def job_names_unique_def)

section \<open>Operations keep the tables well typed\<close>

text \<open>A store operation keeps a property of the database, also when its statement fails.\<close>

lemma sql_execute_keeps:
  "P db \<Longrightarrow> (\<And>r db'. f db = (r, db') \<Longrightarrow> P db') \<Longrightarrow> P (snd (sql_execute E n f db))"
  by (cases "f db") (auto simp: sql_execute_def split: option.splits)

lemma snd_wrappers [simp]:
  "snd (sql_map_opt dec res) = snd res" "snd (sql_map_all dec' res') = snd res'"
  "snd (affected c) = snd c" "snd (ignore_count c) = snd c"
  by (simp_all add: sql_map_opt_def sql_map_all_def affected_def ignore_count_def split: prod.splits)

lemma sql_get_state [simp]:
  "snd (sql_get_job E i db) = db" "snd (sql_get_job_by_name E n db) = db" "snd (sql_get_run E k db) = db"
  by (simp_all add: sql_get_job_def sql_get_job_by_name_def sql_get_run_def sql_execute_def split: option.splits)

lemma sql_get_snd:
  "sql_get_job E i db = (r, db') \<Longrightarrow> db' = db" "sql_get_job_by_name E n db = (r', db') \<Longrightarrow> db' = db"
  "sql_get_run E k db = (r'', db') \<Longrightarrow> db' = db"
  by (metis sql_get_state snd_conv)+

lemma snd_require [simp]: "snd (then_require_job E i res) = snd res"
  by (auto simp: then_require_job_def split: prod.splits sum.splits option.splits dest: sql_get_snd)

text \<open>Replacing one table.\<close>

lemma typed_tables:
  assumes "sql_typed E db"
  shows "table_ok rr_run_id (\<lambda>row. row \<in> range (run_enc (e_codec E))) t1 \<Longrightarrow> sql_typed E (db\<lparr>t_run := t1\<rparr>)"
    "table_ok vr_revision_id (\<lambda>row. row \<in> range (revision_enc (e_codec E))) t2 \<Longrightarrow> sql_typed E (db\<lparr>t_revision := t2\<rparr>)"
    "table_ok sr_script_name (\<lambda>row. row \<in> range (script_enc (e_codec E))) t3 \<Longrightarrow> sql_typed E (db\<lparr>t_script := t3\<rparr>)"
    "table_ok lr_leader_id (\<lambda>_. True) t4 \<Longrightarrow> sql_typed E (db\<lparr>t_leader := t4\<rparr>)"
    "table_ok pr_partition_id (\<lambda>_. True) t5 \<Longrightarrow> sql_typed E (db\<lparr>t_partition := t5\<rparr>)"
    "table_ok kr_worker_id (\<lambda>row. row \<in> range (worker_enc (e_codec E))) t6 \<Longrightarrow> sql_typed E (db\<lparr>t_worker := t6\<rparr>)"
    "table_ok jr_job_id (\<lambda>row. row \<in> range (job_enc (e_codec E))) t7 \<Longrightarrow> job_names_unique t7 \<Longrightarrow> sql_typed E (db\<lparr>t_job := t7\<rparr>)"
  using assms by (simp_all add: sql_typed_def)

lemma typed_tableD:
  assumes "sql_typed E db"
  shows "table_ok rr_run_id (\<lambda>row. row \<in> range (run_enc (e_codec E))) (t_run db)"
    "table_ok vr_revision_id (\<lambda>row. row \<in> range (revision_enc (e_codec E))) (t_revision db)"
    "table_ok sr_script_name (\<lambda>row. row \<in> range (script_enc (e_codec E))) (t_script db)"
    "table_ok lr_leader_id (\<lambda>_. True) (t_leader db)" "table_ok pr_partition_id (\<lambda>_. True) (t_partition db)"
    "table_ok kr_worker_id (\<lambda>row. row \<in> range (worker_enc (e_codec E))) (t_worker db)"
    "table_ok jr_job_id (\<lambda>row. row \<in> range (job_enc (e_codec E))) (t_job db)" "job_names_unique (t_job db)"
  using assms by (simp_all add: sql_typed_def)

lemma update_job_typed:
  assumes "sql_typed E db" "\<And>j. \<exists>j'. f (job_enc (e_codec E) j) = job_enc (e_codec E) j' \<and>
     j_job_id j' = j_job_id j \<and> j_job_name j' = j_job_name j"
  shows "sql_typed E (snd (update_job_row E n i p f db))"
proof -
  have row: "f row \<in> range (job_enc (e_codec E)) \<and> jr_job_id (f row) = jr_job_id row \<and> jr_job_name (f row) = jr_job_name row"
    if m: "row \<in> range (job_enc (e_codec E))" for row
  proof -
    obtain j where j: "row = job_enc (e_codec E) j" using m by blast
    show ?thesis using assms(2)[of j] unfolding j by fastforce
  qed
  let ?tab = "update_where (\<lambda>r. jr_job_id r = i \<and> p r) f (t_job db)"
  have old: "\<exists>r. hm_get (t_job db) k = Some r \<and> jr_job_name r = jr_job_name r'" if "hm_get ?tab k = Some r'" for k r'
    using that row typed_tableD(7)[OF assms(1)] by (auto simp: update_where_get table_ok_def)
  have "job_names_unique ?tab"
    unfolding job_names_unique_def
  proof (intro allI impI)
    fix k k' r r'
    assume g: "hm_get ?tab k = Some r" "hm_get ?tab k' = Some r'" "jr_job_name r = jr_job_name r'"
    obtain o1 o2 where o: "hm_get (t_job db) k = Some o1" "jr_job_name o1 = jr_job_name r"
      "hm_get (t_job db) k' = Some o2" "jr_job_name o2 = jr_job_name r'"
      using old[OF g(1)] old[OF g(2)] by blast
    then have "jr_job_name o1 = jr_job_name o2" using g(3) by simp
    with o(1,3) typed_tableD(8)[OF assms(1)] show "k = k'" unfolding job_names_unique_def by blast
  qed
  moreover have "table_ok jr_job_id (\<lambda>row. row \<in> range (job_enc (e_codec E))) ?tab"
    using row by (intro table_ok_update[OF typed_tableD(7)[OF assms(1)]]) auto
  ultimately have "sql_typed E (db\<lparr>t_job := ?tab\<rparr>)" by (intro typed_tables(7)[OF assms(1)])
  with assms(1) show ?thesis by (simp add: update_job_row_def sql_execute_def split: option.splits)
qed

lemma job_updates_typed:
  assumes "sql_typed E db"
  shows "sql_typed E (snd (sql_pause_job E now i db))" "sql_typed E (snd (sql_resume_job E now i db))"
    "sql_typed E (snd (sql_try_claim_run_once E i who now ttl db))"
    "sql_typed E (snd (sql_mark_run_once_completed E i now db))"
    "sql_typed E (snd (sql_release_run_once_claim E i who now db))"
    "sql_typed E (snd (sql_claim_job_for_tick E i cid now ttl db))"
    "sql_typed E (snd (sql_release_job_tick_claim E now i db))"
    "sql_typed E (snd (sql_persist_post_tick_job_state E now i nra db))"
  unfolding sql_pause_job_def sql_resume_job_def sql_try_claim_run_once_def sql_mark_run_once_completed_def
    sql_release_run_once_claim_def sql_claim_job_for_tick_def sql_release_job_tick_claim_def
    sql_persist_post_tick_job_state_def snd_require snd_wrappers
  by (rule update_job_typed[OF assms]; use job_enc_upd(1)[where b = True] job_enc_upd(1)[where b = False] in
      \<open>auto simp: job_enc_upd intro!: exI\<close>)+

lemma execute_typed:
  "sql_typed E db \<Longrightarrow> sql_typed E (snd (f db)) \<Longrightarrow> sql_typed E (snd (sql_execute E n f db))"
  by (simp add: sql_execute_def split: option.splits)

lemma run_updates_typed:
  assumes "sql_typed E db"
  shows "sql_typed E (snd (sql_claim_next_queued E pool wid now ttl db))"
    "sql_typed E (snd (sql_claim_run_by_id E i pool wid now ttl db))"
    "sql_typed E (snd (sql_renew_run_lease E i wid now ttl db))"
    "sql_typed E (snd (sql_reclaim_expired_run_leases E now db))"
proof -
  have upd: "sql_typed E (db\<lparr>t_run := update_where p f (t_run db)\<rparr>)"
    if "\<And>r. \<exists>r'. f (run_enc (e_codec E) r) = run_enc (e_codec E) r' \<and> r_run_id r' = r_run_id r" for p f
  proof (intro typed_tables(1)[OF assms] table_ok_update[OF typed_tableD(1)[OF assms]])
    fix row assume "row \<in> range (run_enc (e_codec E))"
    then obtain r where "row = run_enc (e_codec E) r" by blast
    with that[of r] show "f row \<in> range (run_enc (e_codec E)) \<and> rr_run_id (f row) = rr_run_id row" by fastforce
  qed
  have c: "sql_typed E (db\<lparr>t_run := update_where p (sql_set_claimed wid u) (t_run db)\<rparr>)"
    "sql_typed E (db\<lparr>t_run := update_where p (\<lambda>r. r\<lparr>rr_claim_lease_until := l\<rparr>) (t_run db)\<rparr>)"
    "sql_typed E (db\<lparr>t_run := update_where p (\<lambda>r. r\<lparr>rr_status := ''queued'', rr_claimed_by := None,
       rr_claim_lease_until := None, rr_started_at := None\<rparr>) (t_run db)\<rparr>)" for p u l
    by (rule upd, force simp: run_enc_upd requeue_def)+
  show "sql_typed E (snd (sql_claim_next_queued E pool wid now ttl db))"
    using assms c(1) by (auto simp: sql_claim_next_queued_def Let_def intro!: execute_typed split: list.splits)
  show "sql_typed E (snd (sql_claim_run_by_id E i pool wid now ttl db))"
    using assms c(1) by (auto simp: sql_claim_run_by_id_def Let_def intro!: execute_typed)
  show "sql_typed E (snd (sql_renew_run_lease E i wid now ttl db))"
    using assms c(2) by (auto simp: sql_renew_run_lease_def Let_def intro!: execute_typed)
  show "sql_typed E (snd (sql_reclaim_expired_run_leases E now db))"
    using assms c(3) by (auto simp: sql_reclaim_expired_run_leases_def Let_def intro!: execute_typed)
qed

lemma claim_many_typed:
  assumes "sql_typed E db"
  shows "sql_typed E (snd (sql_claim_runs_by_ids E ids pool wid now ttl db))"
proof -
  have one: "sql_typed E (snd (claim_runs_by_ids_default (\<lambda>i. sql_claim_run_by_id E i pool wid now ttl) ids db))"
    using assms
  proof (induction ids arbitrary: db)
    case (Cons i ids)
    obtain a db1 where s: "sql_claim_run_by_id E i pool wid now ttl db = (a, db1)" by force
    have "sql_typed E db1" using run_updates_typed(2)[OF Cons.prems, of i pool wid now ttl] s by simp
    from Cons.IH[OF this] this show ?case by (auto simp: s split: sum.splits prod.splits)
  qed simp
  have "table_ok rr_run_id (\<lambda>row. row \<in> range (run_enc (e_codec E))) (update_where p (sql_set_claimed wid u) (t_run db))" for p u
    by (rule table_ok_update[OF typed_tableD(1)[OF assms]]) (auto simp: run_enc_upd)
  then have "sql_typed E (db\<lparr>t_run := update_where p (sql_set_claimed wid u) (t_run db)\<rparr>)" for p u
    by (rule typed_tables(1)[OF assms])
  with one assms show ?thesis
    by (auto simp: sql_claim_runs_by_ids_def Let_def intro!: execute_typed)
qed

lemma run_writes_typed:
  assumes "json_writes (e_codec E)" "sql_typed E db"
  shows "sql_typed E (snd (sql_create_run E r db))" "sql_typed E (snd (sql_update_run E r db))"
proof -
  show "sql_typed E (snd (sql_create_run E r db))"
    using assms by (auto simp: sql_create_run_def bind_enc
        intro!: execute_typed typed_tables(1) table_ok_insert typed_tableD(1))
  have "table_ok rr_run_id (\<lambda>row. row \<in> range (run_enc (e_codec E)))
      (update_where (\<lambda>x. rr_run_id x = r_run_id r) (\<lambda>_. bind_run_row (e_codec E) (run_enc (e_codec E) r)) (t_run db))"
    by (rule table_ok_update[OF typed_tableD(1)[OF assms(2)]]) (simp add: bind_enc)
  from typed_tables(1)[OF assms(2) this] assms show "sql_typed E (snd (sql_update_run E r db))"
    by (auto simp: sql_update_run_def sql_execute_def split: option.splits sum.splits prod.splits dest: sql_get_snd)
qed

lemma upsert_job_typed:
  assumes "json_writes (e_codec E)" "sql_typed E db"
  shows "sql_typed E (snd (sql_upsert_job E j db))"
proof -
  let ?row = "job_enc (e_codec E) (round_job (e_time E) j)"
  have ins: "sql_typed E (snd (insert_job_row E (job_enc (e_codec E) j) db))"
  proof (cases "list_ex (\<lambda>(k, r). k \<noteq> j_job_id j \<and> jr_job_name r = j_job_name j) (t_job db)")
    case False
    have "hm_ok (t_job db)" using typed_tableD(7)[OF assms(2)] by (simp add: table_ok_def keyed_def)
    then have new: "k = j_job_id j" if "hm_get (t_job db) k = Some r" "jr_job_name r = j_job_name j" for k r
      using False that by (force simp: list_ex_iff hm_entry_iff[symmetric])
    then have "job_names_unique (hm_insert (j_job_id j) ?row (t_job db))"
      using typed_tableD(8)[OF assms(2)] unfolding job_names_unique_def by (auto simp: hm_simps)
    then show ?thesis
      using assms(2) False by (auto simp: insert_job_row_def bind_enc
          intro!: typed_tables(7) table_ok_insert typed_tableD(7))
  qed (use assms(2) in \<open>simp add: insert_job_row_def\<close>)
  obtain a db1 where e: "sql_execute E ''upsert_job'' (insert_job_row E (job_enc (e_codec E) j)) db = (a, db1)" by force
  have "sql_typed E db1"
    using execute_typed[where f = "insert_job_row E (job_enc (e_codec E) j)", OF assms(2) ins, of "''upsert_job''"] e by simp
  then show ?thesis using assms(1)
    by (auto simp: sql_upsert_job_def e split: sum.splits chronon_error.splits prod.splits option.splits
        dest: sql_get_snd)
qed

lemma delete_job_typed:
  assumes "sql_typed E db"
  shows "sql_typed E (snd (sql_delete_job E i db))"
proof -
  have names: "job_names_unique (filter (\<lambda>(k, r). jr_job_id r \<noteq> i) (t_job d))" if "sql_typed E d" for d
    using typed_tableD(7,8)[OF that]
    by (auto simp: job_names_unique_def table_ok_def keyed_def hm_get_filter split: option.splits if_splits)
  have del: "sql_typed E (d\<lparr>t_revision := filter (\<lambda>(k, v). vr_job_id v \<noteq> i) (t_revision d)\<rparr>)"
    "sql_typed E (d\<lparr>t_job := filter (\<lambda>(k, r). jr_job_id r \<noteq> i) (t_job d)\<rparr>)" if "sql_typed E d" for d
    using that names by (auto intro!: typed_tables table_ok_filter typed_tableD)
  show ?thesis using assms del
    by (auto simp: sql_delete_job_def sql_execute_def split: prod.splits sum.splits option.splits dest: sql_get_snd)
qed

lemma meta_writes_typed:
  assumes "json_writes (e_codec E)" "sql_typed E db"
  shows "sql_typed E (snd (sql_append_revision E v db))" "sql_typed E (snd (sql_upsert_script E sc db))"
    "sql_typed E (snd (sql_try_acquire_leader E now inst ttl db))"
    "sql_typed E (snd (sql_renew_leader_lease E now inst ttl db))"
    "sql_typed E (snd (sql_upsert_partition_assignment E a db))"
    "sql_typed E (snd (sql_register_worker E w db))" "sql_typed E (snd (sql_heartbeat_worker E wid now db))"
proof -
  show "sql_typed E (snd (sql_append_revision E v db))" "sql_typed E (snd (sql_upsert_script E sc db))"
    using assms by (auto simp: sql_append_revision_def sql_upsert_script_def bind_enc
        intro!: execute_typed typed_tables(2,3) table_ok_insert typed_tableD(2,3))
  show "sql_typed E (snd (sql_try_acquire_leader E now inst ttl db))"
    "sql_typed E (snd (sql_upsert_partition_assignment E a db))"
    using assms(2) by (auto simp: sql_try_acquire_leader_def sql_upsert_partition_assignment_def Let_def
        bind_partition_row_def partition_row_from_model_def
        intro!: execute_typed typed_tables(4,5) table_ok_insert typed_tableD(4,5))
  have "table_ok lr_leader_id (\<lambda>_. True) (update_where (\<lambda>r. lr_leader_id r = sql_leader_row_id \<and> lr_leader_instance_id r = inst)
      (\<lambda>r. r\<lparr>lr_leader_lease_until := u, lr_last_heartbeat_at := t\<rparr>) (t_leader db))" for u t
    by (rule table_ok_update[OF typed_tableD(4)[OF assms(2)]]) simp
  from typed_tables(4)[OF assms(2) this] assms(2) show "sql_typed E (snd (sql_renew_leader_lease E now inst ttl db))"
    by (auto simp: sql_renew_leader_lease_def intro!: execute_typed)
  have "\<exists>w'. old = worker_enc (e_codec E) w'" if "hm_get (t_worker db) i = Some old" for i old
    using that typed_tableD(6)[OF assms(2)] by (auto simp: table_ok_def)
  then show "sql_typed E (snd (sql_register_worker E w db))"
    using assms by (auto simp: sql_register_worker_def Let_def bind_enc
        intro!: execute_typed typed_tables(6) table_ok_insert typed_tableD(6) split: option.splits)
  have "table_ok kr_worker_id (\<lambda>row. row \<in> range (worker_enc (e_codec E))) (update_where (\<lambda>r. kr_worker_id r = wid)
      (\<lambda>r. r\<lparr>kr_last_heartbeat_at := u, kr_updated_at := u\<rparr>) (t_worker db))" for u
    by (rule table_ok_update[OF typed_tableD(6)[OF assms(2)]]) (auto simp: bind_enc)
  from typed_tables(6)[OF assms(2) this] assms(2) show "sql_typed E (snd (sql_heartbeat_worker E wid now db))"
    by (auto simp: sql_heartbeat_worker_def sql_execute_def split: option.splits sum.splits prod.splits)
qed

lemmas sql_typed_ops = job_updates_typed run_updates_typed claim_many_typed run_writes_typed upsert_job_typed
  delete_job_typed meta_writes_typed

section \<open>The backend as a state machine\<close>

inductive sql_step :: "sql_engine \<Rightarrow> sql_db \<Rightarrow> sql_db \<Rightarrow> bool" for E where
  "sql_step E db (snd (sql_upsert_job E j db))"
| "sql_step E db (snd (sql_delete_job E i db))"
| "sql_step E db (snd (sql_pause_job E now i db))"
| "sql_step E db (snd (sql_resume_job E now i db))"
| "sql_step E db (snd (sql_create_run E r db))"
| "sql_step E db (snd (sql_update_run E r db))"
| "sql_step E db (snd (sql_claim_next_queued E p w now ttl db))"
| "sql_step E db (snd (sql_claim_run_by_id E i p w now ttl db))"
| "sql_step E db (snd (sql_claim_runs_by_ids E ids p w now ttl db))"
| "sql_step E db (snd (sql_renew_run_lease E i w now ttl db))"
| "sql_step E db (snd (sql_reclaim_expired_run_leases E now db))"
| "sql_step E db (snd (sql_try_claim_run_once E i who now ttl db))"
| "sql_step E db (snd (sql_mark_run_once_completed E i now db))"
| "sql_step E db (snd (sql_release_run_once_claim E i who now db))"
| "sql_step E db (snd (sql_claim_job_for_tick E i cid now ttl db))"
| "sql_step E db (snd (sql_release_job_tick_claim E now i db))"
| "sql_step E db (snd (sql_persist_post_tick_job_state E now i nra db))"
| "sql_step E db (snd (sql_append_revision E v db))"
| "sql_step E db (snd (sql_upsert_script E sc db))"
| "sql_step E db (snd (sql_try_acquire_leader E now inst ttl db))"
| "sql_step E db (snd (sql_renew_leader_lease E now inst ttl db))"
| "sql_step E db (snd (sql_upsert_partition_assignment E a db))"
| "sql_step E db (snd (sql_register_worker E wk db))"
| "sql_step E db (snd (sql_heartbeat_worker E wid now db))"

inductive sql_reachable :: "sql_engine \<Rightarrow> sql_db \<Rightarrow> bool" for E where
  init: "sql_reachable E sql_empty"
| step: "sql_reachable E db \<Longrightarrow> sql_step E db db' \<Longrightarrow> sql_reachable E db'"

lemma sql_step_typed: "sql_step E db db' \<Longrightarrow> json_writes (e_codec E) \<Longrightarrow> sql_typed E db \<Longrightarrow> sql_typed E db'"
  by (induction rule: sql_step.induct) (auto intro: sql_typed_ops)

lemma sql_reachable_typed: "sql_reachable E db \<Longrightarrow> json_writes (e_codec E) \<Longrightarrow> sql_typed E db"
proof (induction rule: sql_reachable.induct)
  case init show ?case by (simp add: sql_typed_def sql_empty_def job_names_unique_def)
qed (blast intro: sql_step_typed)

lemma sql_reachable_inv: "sql_ok E \<Longrightarrow> sql_reachable E db \<Longrightarrow> sql_inv E db"
  by (rule sql_typed_inv[OF sql_reachable_typed]) (simp_all add: sql_okD)

end
