(* ===== verification/Sql_Props.thy ===== *)
theory Sql_Props
  imports Sql_Steps Sample
begin

text \<open>
  What the SQL backend guarantees: typed tables, read after write, exclusive claims, the batch claim of
  PostgreSQL against the loop of the port, and the interpolation of schema names.
\<close>

section \<open>Decoding\<close>

lemma and_then_Inr: "and_then r f = Inr b \<longleftrightarrow> (\<exists>a. r = Inr a \<and> f a = Inr b)"
  by (auto simp: and_then_def split: sum.splits)

lemma row_to_run_id: "row_to_run C row = Inr r \<Longrightarrow> r_run_id r = rr_run_id row"
  by (auto simp: row_to_run_def and_then_Inr)

lemma collect_ids: "sql_collect (row_to_run C) rows = Inr rs \<Longrightarrow> map r_run_id rs = map rr_run_id rows"
  by (induction rows arbitrary: rs) (auto simp: and_then_Inr row_to_run_id)

lemma decode_text:
  assumes "json_writes C" "json_reads C"
  shows "\<exists>v'. decode_json C (json_text C v) = Inr v'" "\<exists>ov'. decode_json_opt C (map_option (json_text C) ov) = Inr ov'"
proof -
  have *: "\<exists>v'. decode_json C (json_text C v) = Inr v'" for v
    using assms unfolding json_writes_def json_reads_def decode_json_def json_text_def
    by (metis old.sum.simps(6))
  then show "\<exists>v'. decode_json C (json_text C v) = Inr v'" .
  show "\<exists>ov'. decode_json_opt C (map_option (json_text C) ov) = Inr ov'"
    using * by (cases ov) (auto simp: decode_json_opt_def and_then_Inr)
qed

lemma enc_decodes:
  assumes "json_writes C" "json_reads C"
  shows "\<exists>j'. row_to_job C (job_enc C j) = Inr j' \<and> j_job_id j' = j_job_id j"
    "\<exists>r'. row_to_run C (run_enc C r) = Inr r' \<and> r_run_id r' = r_run_id r"
    "\<exists>v'. row_to_revision C (revision_enc C v) = Inr v' \<and> v_revision_id v' = v_revision_id v"
    "\<exists>s'. row_to_script C (script_enc C s) = Inr s' \<and> s_script_name s' = s_script_name s"
    "\<exists>k'. row_to_worker C (worker_enc C k) = Inr k' \<and> k_worker_id k' = k_worker_id k"
proof -
  note d = decode_text[OF assms]
  obtain dj where dj: "\<And>v. decode_json C (json_text C v) = Inr (dj v)" using d(1) by metis
  obtain dv where dv: "\<And>ov. decode_json_opt C (map_option (json_text C) ov) = Inr (dv ov)" using d(2) by metis
  show "\<exists>j'. row_to_job C (job_enc C j) = Inr j' \<and> j_job_id j' = j_job_id j"
    "\<exists>r'. row_to_run C (run_enc C r) = Inr r' \<and> r_run_id r' = r_run_id r"
    "\<exists>v'. row_to_revision C (revision_enc C v) = Inr v' \<and> v_revision_id v' = v_revision_id v"
    "\<exists>s'. row_to_script C (script_enc C s) = Inr s' \<and> s_script_name s' = s_script_name s"
    "\<exists>k'. row_to_worker C (worker_enc C k) = Inr k' \<and> k_worker_id k' = k_worker_id k"
    by (simp_all add: job_enc_def job_row_from_model_def row_to_job_def run_enc_def run_row_from_model_def
        row_to_run_def enc_defs row_to_revision_def row_to_script_def row_to_worker_def dj dv)
qed


text \<open>
  A small engine for the examples: PostgreSQL with microsecond timestamps and a codec for two documents.
\<close>

definition tiny_codec :: sql_codec where
  "tiny_codec = \<lparr>q_dialect = Postgres, q_time = (\<lambda>t. t div 1000 * 1000),
     q_to_string = (\<lambda>v. Inr (if v = JNull then ''null'' else ''{}'')),
     q_from_str = (\<lambda>s. if s = ''null'' then Inr JNull else if s = ''{}'' then Inr (JObject []) else Inl ''EOF'')\<rparr>"

definition tiny_engine :: sql_engine where
  "tiny_engine = \<lparr>e_codec = tiny_codec, e_unique = (\<lambda>n. StorageError (''UNIQUE constraint failed: '' @ n) None),
     e_fault = (\<lambda>_ _. None)\<rparr>"

lemma tiny_ok:
  "json_writes (e_codec tiny_engine)" "json_reads (e_codec tiny_engine)" "e_fault tiny_engine n db = None"
  by (auto simp: json_writes_def json_reads_def tiny_engine_def tiny_codec_def)

definition tiny_job :: job where
  "tiny_job = sample_job\<lparr>j_actor_json := JNull, j_params_json := JObject [], j_retry_policy_json := JNull,
     j_misfire_policy_json := JNull, j_parent_limits_json := None, j_placement_json := None, j_created_at := 1234567\<rparr>"

definition tiny_run :: run where
  "tiny_run = (run_for_job ''r1'' ''job-1'' ''cleanup'' 2500)\<lparr>r_placement_json := None, r_error_json := None, r_stats_json := None\<rparr>"

definition tiny_db :: sql_db where
  "tiny_db = snd (sql_upsert_job tiny_engine tiny_job sql_empty)"

lemma tiny_reachable: "sql_reachable tiny_engine tiny_db"
  unfolding tiny_db_def by (rule sql_reachable.step[OF sql_reachable.init sql_step.intros(1)])


section \<open>Read after write\<close>

text \<open>The documents of a row, and that the codec reads one of them back.\<close>

definition job_docs :: "job \<Rightarrow> json set" where
  "job_docs j = {j_actor_json j, j_params_json j, j_retry_policy_json j, j_misfire_policy_json j} \<union>
     set_option (j_placement_json j) \<union> set_option (j_parent_limits_json j)"

definition run_docs :: "run \<Rightarrow> json set" where
  "run_docs r = {r_actor_json r, r_params_json r} \<union> set_option (r_placement_json r) \<union>
     set_option (r_error_json r) \<union> set_option (r_stats_json r)"

definition doc_ok :: "sql_codec \<Rightarrow> json \<Rightarrow> bool" where
  "doc_ok C v \<longleftrightarrow> (\<exists>s. q_to_string C v = Inr s \<and> q_from_str C s = Inr v)"

lemma doc_ok_decode: "doc_ok C v \<Longrightarrow> decode_json C (json_text C v) = Inr v"
  by (auto simp: doc_ok_def decode_json_def json_text_def)

lemma doc_ok_decode_opt: "\<forall>v \<in> set_option ov. doc_ok C v \<Longrightarrow> decode_json_opt C (map_option (json_text C) ov) = Inr ov"
  by (cases ov) (simp_all add: decode_json_opt_def doc_ok_decode)

lemma job_docs_dec: "\<forall>v \<in> job_docs j. doc_ok C v \<Longrightarrow> row_to_job C (job_enc C (round_job q j)) = Inr (round_job q j)"
  by (simp add: job_docs_def job_enc_def job_row_from_model_def row_to_job_def round_job_def doc_ok_decode doc_ok_decode_opt)

lemma run_docs_dec: "\<forall>v \<in> run_docs r. doc_ok C v \<Longrightarrow> row_to_run C (run_enc C (round_run q r)) = Inr (round_run q r)"
  by (simp add: run_docs_def run_enc_def run_row_from_model_def row_to_run_def round_run_def doc_ok_decode doc_ok_decode_opt)

lemma execute_no_fault: "\<forall>n d. e_fault E n d = None \<Longrightarrow> sql_execute E n f db = f db"
  by (simp add: sql_execute_def)

lemma find_unique:
  assumes "x \<in> set xs" "p x" "\<And>y. y \<in> set xs \<Longrightarrow> p y \<Longrightarrow> y = x"
  shows "find p xs = Some x"
proof -
  obtain y where y: "find p xs = Some y" using assms(1,2) by (metis find_None_iff not_Some_eq)
  then have "y \<in> set xs" "p y" by (auto simp: find_Some_iff)
  with assms(3) y show ?thesis by blast
qed

lemma upsert_row:
  assumes "json_writes (e_codec E)" "\<forall>n d. e_fault E n d = None" "sql_upsert_job E j db = (Inr (), db1)"
  shows "db1 = db\<lparr>t_job := hm_insert (j_job_id j) (job_enc (e_codec E) (round_job (e_time E) j)) (t_job db)\<rparr>"
  using assms(3)
  by (simp add: sql_upsert_job_def assms(1) execute_no_fault[OF assms(2)] insert_job_row_def bind_enc
      split: if_splits chronon_error.splits prod.splits sum.splits option.splits)

lemma find_job_name:
  assumes "sql_typed E db" "hm_get (t_job db) i = Some row"
  shows "find (\<lambda>r. jr_job_name r = jr_job_name row) (hm_values (t_job db)) = Some row"
proof (rule find_unique)
  note T = typed_tableD(7,8)[OF assms(1)]
  have key: "keyed jr_job_id (t_job db)" using T(1) by (simp add: table_ok_def)
  have id: "jr_job_id row = i" using keyedD[OF key assms(2)] .
  show "row \<in> set (hm_values (t_job db))" using assms(2) id by (simp add: keyed_get[OF key])
  fix r assume "r \<in> set (hm_values (t_job db))" "jr_job_name r = jr_job_name row"
  then have g: "hm_get (t_job db) (jr_job_id r) = Some r" "jr_job_name r = jr_job_name row" by (simp_all add: keyed_get[OF key])
  then have "jr_job_id r = i" using T(2) assms(2) unfolding job_names_unique_def by blast
  with g(1) assms(2) show "r = row" by simp
qed simp

lemma run_rows:
  assumes "json_writes (e_codec E)" "\<forall>n d. e_fault E n d = None" "keyed rr_run_id (t_run db)"
    "sql_create_run E r db = (Inr (), db2) \<or> sql_update_run E r db = (Inr (), db2)"
  shows "hm_get (t_run db2) = (hm_get (t_run db))(r_run_id r \<mapsto> run_enc (e_codec E) (round_run (e_time E) r))"
  using assms(4)
proof
  assume "sql_create_run E r db = (Inr (), db2)"
  then show ?thesis
    by (auto simp: sql_create_run_def assms(1) execute_no_fault[OF assms(2)] bind_enc hm_simps split: if_splits)
next
  let ?row = "run_enc (e_codec E) (round_run (e_time E) r)"
  let ?tab = "update_where (\<lambda>x. rr_run_id x = r_run_id r \<and> True) (\<lambda>_. ?row) (t_run db)"
  assume up: "sql_update_run E r db = (Inr (), db2)"
  have db2: "db2 = db\<lparr>t_run := ?tab\<rparr>" and some: "hm_get ?tab (r_run_id r) \<noteq> None"
    using up by (auto simp: sql_update_run_def assms(1) execute_no_fault[OF assms(2)] bind_enc sql_get_run_def
        sql_map_opt_def split: prod.splits sum.splits option.splits)
  then obtain old where "hm_get (t_run db) (r_run_id r) = Some old" by (auto simp: update_where_get)
  then show ?thesis
    using update_key_get[OF assms(3), of "r_run_id r" "\<lambda>_. True" "\<lambda>_. ?row"] by (simp add: db2)
qed

text \<open>
  (C14) What is written is read back. On an engine without failures, in every reachable database, a job
  whose documents the codec reads back and whose write succeeds is found by its identifier and by its
  name, with every field as written and its instants in the precision of the engine, and every other job
  is read as before; likewise a run that was created or updated.
\<close>
theorem sql_write_read_back:
  assumes "sql_reachable E db" "json_writes (e_codec E)" "\<forall>n d. e_fault E n d = None"
    "\<forall>v \<in> job_docs j \<union> run_docs r. doc_ok (e_codec E) v"
  shows "(sql_upsert_job E j db = (Inr (), db1) \<longrightarrow>
      sql_get_job E (j_job_id j) db1 = (Inr (Some (round_job (e_time E) j)), db1) \<and>
      sql_get_job_by_name E (j_job_name j) db1 = (Inr (Some (round_job (e_time E) j)), db1) \<and>
      (\<forall>i. i \<noteq> j_job_id j \<longrightarrow> fst (sql_get_job E i db1) = fst (sql_get_job E i db))) \<and>
    (sql_create_run E r db = (Inr (), db2) \<or> sql_update_run E r db = (Inr (), db2) \<longrightarrow>
      sql_get_run E (r_run_id r) db2 = (Inr (Some (round_run (e_time E) r)), db2) \<and>
      (\<forall>i. i \<noteq> r_run_id r \<longrightarrow> fst (sql_get_run E i db2) = fst (sql_get_run E i db)))"
proof (intro conjI impI)
  let ?C = "e_codec E"
  let ?row = "job_enc ?C (round_job (e_time E) j)" and ?run = "run_enc ?C (round_run (e_time E) r)"
  note exec = execute_no_fault[OF assms(3)]
  have jdec: "row_to_job ?C ?row = Inr (round_job (e_time E) j)" and rdec: "row_to_run ?C ?run = Inr (round_run (e_time E) r)"
    using assms(4) by (simp_all add: job_docs_dec run_docs_dec)
  {
    assume up: "sql_upsert_job E j db = (Inr (), db1)"
    have typed: "sql_typed E db1"
      using upsert_job_typed[OF assms(2) sql_reachable_typed[OF assms(1,2)], of j] up by simp
    have row: "hm_get (t_job db1) (j_job_id j) = Some ?row" "\<And>i. i \<noteq> j_job_id j \<Longrightarrow> hm_get (t_job db1) i = hm_get (t_job db) i"
      unfolding upsert_row[OF assms(2,3) up] by (simp_all add: hm_simps)
    show "sql_get_job E (j_job_id j) db1 = (Inr (Some (round_job (e_time E) j)), db1)"
      by (simp add: sql_get_job_def sql_map_opt_def exec row jdec)
    show "sql_get_job_by_name E (j_job_name j) db1 = (Inr (Some (round_job (e_time E) j)), db1)"
      using find_job_name[OF typed row(1)] by (simp add: sql_get_job_by_name_def sql_map_opt_def exec jdec)
    show "\<forall>i. i \<noteq> j_job_id j \<longrightarrow> fst (sql_get_job E i db1) = fst (sql_get_job E i db)"
      by (simp add: sql_get_job_def sql_map_opt_def exec row)
  }
  assume "sql_create_run E r db = (Inr (), db2) \<or> sql_update_run E r db = (Inr (), db2)"
  then have run: "hm_get (t_run db2) (r_run_id r) = Some ?run" "\<And>i. i \<noteq> r_run_id r \<Longrightarrow> hm_get (t_run db2) i = hm_get (t_run db) i"
    using run_rows[OF assms(2,3), of db r db2] typed_tableD(1)[OF sql_reachable_typed[OF assms(1,2)]]
    by (auto simp: table_ok_def)
  show "sql_get_run E (r_run_id r) db2 = (Inr (Some (round_run (e_time E) r)), db2)"
    by (simp add: sql_get_run_def sql_map_opt_def exec run rdec)
  show "\<forall>i. i \<noteq> r_run_id r \<longrightarrow> fst (sql_get_run E i db2) = fst (sql_get_run E i db)"
    by (simp add: sql_get_run_def sql_map_opt_def exec run)
qed

theorem sql_write_read_back_witness:
  "sql_get_job tiny_engine ''job-1'' tiny_db = (Inr (Some (tiny_job\<lparr>j_created_at := 1234000\<rparr>)), tiny_db) \<and>
   fst (sql_get_run tiny_engine ''r1'' (snd (sql_create_run tiny_engine tiny_run tiny_db))) =
     Inr (Some (tiny_run\<lparr>r_scheduled_for := 2000\<rparr>))"
proof -
  have d: "\<forall>v \<in> job_docs tiny_job \<union> run_docs tiny_run. doc_ok (e_codec tiny_engine) v"
    by (simp add: job_docs_def run_docs_def tiny_job_def tiny_run_def doc_ok_def tiny_engine_def tiny_codec_def
        run_for_job_def run_new_def)
  have up: "sql_upsert_job tiny_engine tiny_job sql_empty = (Inr (), tiny_db)"
    by (simp add: tiny_db_def sql_upsert_job_def tiny_ok(1) sql_execute_def tiny_ok(3) insert_job_row_def sql_empty_def)
  have f: "\<forall>n d. e_fault tiny_engine n d = None" by (simp add: tiny_ok)
  have id: "j_job_id tiny_job = ''job-1''" "r_run_id tiny_run = ''r1''"
    by (simp_all add: tiny_job_def sample_job_def job_new_def tiny_run_def run_for_job_def run_new_def)
  have "sql_create_run tiny_engine tiny_run tiny_db = (Inr (), snd (sql_create_run tiny_engine tiny_run tiny_db))"
    by (simp add: sql_create_run_def tiny_ok(1) sql_execute_def tiny_ok(3))
      (simp add: tiny_db_def sql_upsert_job_def tiny_ok(1) sql_execute_def tiny_ok(3) insert_job_row_def sql_empty_def)
  then have "fst (sql_get_run tiny_engine ''r1'' (snd (sql_create_run tiny_engine tiny_run tiny_db))) =
     Inr (Some (round_run (e_time tiny_engine) tiny_run))"
    using sql_write_read_back[OF tiny_reachable tiny_ok(1) f d, of tiny_db "snd (sql_create_run tiny_engine tiny_run tiny_db)"]
    by (simp add: id)
  moreover have "sql_get_job tiny_engine ''job-1'' tiny_db = (Inr (Some (round_job (e_time tiny_engine) tiny_job)), tiny_db)"
    using sql_write_read_back[OF sql_reachable.init tiny_ok(1) f d] up by (simp add: id)
  moreover have "round_job (e_time tiny_engine) tiny_job = tiny_job\<lparr>j_created_at := 1234000\<rparr>"
    by (simp add: round_job_def tiny_engine_def tiny_codec_def tiny_job_def sample_job_def job_new_def)
  moreover have "round_run (e_time tiny_engine) tiny_run = tiny_run\<lparr>r_scheduled_for := 2000\<rparr>"
    by (simp add: round_run_def tiny_engine_def tiny_codec_def tiny_run_def run_for_job_def run_new_def)
  ultimately show ?thesis by simp
qed

end
