(* ===== verification/Tick.thy ===== *)
theory Tick
  imports Leader
begin

text \<open>
  The coordinator tick (\<^verbatim>\<open>chronon-scheduler/src/tick_loop.rs\<close>) and the scheduler facade (\<^verbatim>\<open>tick.rs\<close>,
  \<^verbatim>\<open>lib.rs\<close>): claim a due job, apply concurrency and misfire gating, enqueue a run and persist the
  next fire time. A loop runs over the leadership flags it observes before the shutdown
  notification; a tick that has started is run to its end.
\<close>

abbreviation max_idle_sleep_ms :: nat where "max_idle_sleep_ms \<equiv> 1000"

definition count_active_runs :: "'s scheduler_store \<Rightarrow> string \<Rightarrow> ('s, int res) proc" where
  "count_active_runs S job_id =
     bind_ok (call (so_list_runs_for_job S job_id 10000)) (\<lambda>runs.
       ret (Inr (wrap_i32 (int (length (filter (\<lambda>r. is_active (r_status r)) runs))))))"

definition cron_next_run_at :: "('sc, 'tz) ext \<Rightarrow> job \<Rightarrow> time \<Rightarrow> time option" where
  "cron_next_run_at X job after =
     (case j_cron_expr job of
        None \<Rightarrow> None
      | Some expr \<Rightarrow>
          (case cron_parse X expr (j_timezone job) of
             Inl _ \<Rightarrow> None
           | Inr c \<Rightarrow> next_after X c after))"

definition should_enqueue_for_misfire :: "time \<Rightarrow> time \<Rightarrow> misfire_policy \<Rightarrow> bool" where
  "should_enqueue_for_misfire scheduled_for now policy =
     (if max_misfire_window_secs policy = 0 then True
      else let lateness_secs = nat (max (num_seconds (now - scheduled_for)) 0)
           in if lateness_secs = 0 then True
              else lateness_secs \<le> max_misfire_window_secs policy \<and> run_immediately policy)"

text \<open>A release or a completion whose failure is only logged by tracing.\<close>

definition release_tick_claim :: "'s scheduler_store \<Rightarrow> string \<Rightarrow> ('s, unit) proc" where
  "release_tick_claim S job_id =
     do { clk \<leftarrow> utc_now; call (so_release_job_tick_claim S clk job_id); ret () }"

definition tick_event :: "string \<Rightarrow> string \<Rightarrow> tele" where
  "tick_event name msg = LogEvent name [(''component'', ''tick_loop''), (''message'', msg)]"

definition persist_next :: "'s scheduler_store \<Rightarrow> string \<Rightarrow> time option \<Rightarrow> ('s, unit) proc" where
  "persist_next S job_id next_run_at =
     do { clk \<leftarrow> utc_now;
          r \<leftarrow> call (so_persist_post_tick_job_state S clk job_id next_run_at);
          case r of
            Inl e \<Rightarrow> emit (tick_event ''chronon_scheduler_error'' (error_to_string e))
          | Inr _ \<Rightarrow> ret () }"

definition next_fire :: "('sc, 'tz) ext \<Rightarrow> job \<Rightarrow> time \<Rightarrow> time option" where
  "next_fire X job now =
     (if j_schedule_kind job = Cron then cron_next_run_at X job now else None)"

definition skip_due_job ::
  "('sc, 'tz) ext \<Rightarrow> 's scheduler_store \<Rightarrow> job \<Rightarrow> string \<Rightarrow> time \<Rightarrow> ('s, bool res) proc" where
  "skip_due_job X S job job_id now =
     do {
       (if j_schedule_kind job = RunOnce
        then do { clk \<leftarrow> utc_now; call (so_mark_run_once_completed S clk job_id now); ret () }
        else ret ());
       persist_next S job_id (next_fire X job now);
       release_tick_claim S job_id;
       ret (Inr False)
     }"

text \<open>The run that a due job is turned into: a snapshot of the job's actor, parameters and pool.\<close>

definition due_run :: "string \<Rightarrow> job \<Rightarrow> time \<Rightarrow> run" where
  "due_run run_id job scheduled_for =
     (run_for_job run_id (j_job_id job) (j_script_name job) scheduled_for)
       \<lparr>r_actor_json := j_actor_json job, r_params_json := j_params_json job,
        r_pool_id := Some (job_execution_pool_id job)\<rparr>"

text \<open>The part of \<^verbatim>\<open>enqueue_due_job\<close> that follows the gates: create the run, complete, persist.\<close>

definition create_due_run ::
  "('sc, 'tz) ext \<Rightarrow> 's scheduler_store \<Rightarrow> string \<Rightarrow> string \<Rightarrow> job \<Rightarrow> time \<Rightarrow> time \<Rightarrow>
   ('s, bool res) proc" where
  "create_due_run X S instance_id job_id job scheduled_for now =
     do {
       run_id \<leftarrow> new_uuid;
       created \<leftarrow> call (so_create_run S (due_run run_id job scheduled_for));
       case created of
         Inl e \<Rightarrow> do {
           (if j_schedule_kind job = RunOnce
            then do { t \<leftarrow> utc_now; call (so_release_run_once_claim S job_id instance_id t); ret () }
            else ret ());
           release_tick_claim S job_id;
           ret (Inr False) }
       | Inr _ \<Rightarrow> do {
           (if j_schedule_kind job = RunOnce
            then do { t \<leftarrow> utc_now; clk \<leftarrow> utc_now;
                      call (so_mark_run_once_completed S clk job_id t); ret () }
            else ret ());
           emit (tick_event ''chronon_scheduler_info''
             (''enqueued run run_id='' @ run_id @ '' job_id='' @ j_job_id job @
              '' job_name='' @ j_job_name job @ '' script='' @ j_script_name job));
           persist_next S job_id (next_fire X job now);
           ret (Inr True) }
     }"

text \<open>
  The gates of \<^verbatim>\<open>enqueue_due_job\<close> once the job is claimed and its active runs are counted:
  concurrency, misfire window, run-once claim.
\<close>

definition gate_due_job ::
  "('sc, 'tz) ext \<Rightarrow> 's scheduler_store \<Rightarrow> string \<Rightarrow> string \<Rightarrow> job \<Rightarrow> time \<Rightarrow> int \<Rightarrow> int \<Rightarrow>
   ('s, bool res) proc" where
  "gate_due_job X S instance_id job_id job now lease_ttl active_count =
     (if active_count \<ge> j_concurrency job
      then do { release_tick_claim S job_id; ret (Inr False) }
      else let scheduled_for = (case j_next_run_at job of Some t \<Rightarrow> t | None \<Rightarrow> now) in
        if \<not> should_enqueue_for_misfire scheduled_for now (job_misfire_policy X job)
        then skip_due_job X S job job_id now
        else if j_schedule_kind job = RunOnce
        then do {
          once \<leftarrow> call (so_try_claim_run_once S job_id instance_id now lease_ttl);
          case once of
            Inr True \<Rightarrow> create_due_run X S instance_id job_id job scheduled_for now
          | Inr False \<Rightarrow> do { release_tick_claim S job_id; ret (Inr False) }
          | Inl e \<Rightarrow> do {
              emit (tick_event ''chronon_scheduler_error'' (error_to_string e));
              release_tick_claim S job_id; ret (Inr False) } }
        else create_due_run X S instance_id job_id job scheduled_for now)"

definition enqueue_due_job ::
  "('sc, 'tz) ext \<Rightarrow> 's scheduler_store \<Rightarrow> string \<Rightarrow> string \<Rightarrow> ('s, bool res) proc" where
  "enqueue_due_job X S instance_id job_id =
     do {
       now \<leftarrow> utc_now;
       uuid \<leftarrow> new_uuid;
       let claim_id = instance_id @ '':'' @ uuid;
       env \<leftarrow> env_vars;
       let lease_ttl = job_claim_lease_ttl_secs env;
       claimed \<leftarrow> call (so_claim_job_for_tick S job_id claim_id now lease_ttl);
       if claimed \<noteq> Inr True then ret (Inr False)
       else bind_ok (call (so_get_job S job_id)) (\<lambda>found. case found of
         None \<Rightarrow> do { release_tick_claim S job_id; ret (Inr False) }
       | Some job \<Rightarrow> do {
           counted \<leftarrow> count_active_runs S job_id;
           gate_due_job X S instance_id job_id job now lease_ttl (unwrap_or 0 counted) })
     }"

section \<open>One tick and the coordinator loop\<close>

record tick_result =
  enqueued :: nat
  due_count :: nat

text \<open>The \<^verbatim>\<open>for job_id in ids\<close> loop; an error of one job counts as not enqueued.\<close>

primrec enqueue_all ::
  "('sc, 'tz) ext \<Rightarrow> 's scheduler_store \<Rightarrow> string \<Rightarrow> string list \<Rightarrow> nat \<Rightarrow> ('s, nat) proc" where
  "enqueue_all X S instance_id [] n = ret n"
| "enqueue_all X S instance_id (job_id # ids) n =
     do { r \<leftarrow> enqueue_due_job X S instance_id job_id;
          enqueue_all X S instance_id ids (if r = Inr True then n + 1 else n) }"

text \<open>Milliseconds an idle tick sleeps when the earliest fire time is known.\<close>

definition idle_wait_ms :: "time \<Rightarrow> time \<Rightarrow> nat" where
  "idle_wait_ms t now =
     min (nat (max (sat_i64 (num_milliseconds (t - now) - 20)) 0)) max_idle_sleep_ms"

definition run_one_tick ::
  "('sc, 'tz) ext \<Rightarrow> 's scheduler_store \<Rightarrow> string \<Rightarrow> assigner \<Rightarrow> bool \<Rightarrow>
   ('s, tick_result \<times> bool) proc" where
  "run_one_tick X S instance_id a draining =
     do {
       env \<leftarrow> env_vars;
       if env_flag env ''CHRONON_DISABLE_COORDINATOR'' \<or> env_flag env ''CHRONON_INTERACTIVE''
       then do { sleep_ms 30000; ret (\<lparr>enqueued = 0, due_count = 0\<rparr>, draining) }
       else do {
         let tick_ms = tick_interval_ms_from_env env;
         let batch_limit = tick_batch_limit_from_env env;
         emit (Counter ''chronon_scheduler_ticks'' [(''component'', ''scheduler'')] 1);
         let owned = owned_partitions a;
         if owned = []
         then do { sleep_ms 500; ret (\<lparr>enqueued = 0, due_count = 0\<rparr>, draining) }
         else do {
           now \<leftarrow> utc_now;
           let due_until = add_ms now (if draining then 50 else 0);
           clk \<leftarrow> utc_now;
           found \<leftarrow> call (so_find_due_job_ids_in_partitions S clk owned due_until batch_limit);
           case found of
             Inl e \<Rightarrow> do {
               emit (tick_event ''chronon_scheduler_warn'' (error_to_string e));
               sleep_ms tick_ms;
               ret (\<lparr>enqueued = 0, due_count = 0\<rparr>, draining) }
           | Inr ids \<Rightarrow>
               if ids = [] then do {
                 next \<leftarrow> call (so_min_next_run_at_in_partitions S owned);
                 sleep_ms (case next of Inr (Some t) \<Rightarrow> idle_wait_ms t now | _ \<Rightarrow> tick_ms);
                 ret (\<lparr>enqueued = 0, due_count = 0\<rparr>, False) }
               else do {
                 next \<leftarrow> call (so_min_next_run_at_in_partitions S owned);
                 let min_next = (case next of Inr m \<Rightarrow> m | Inl _ \<Rightarrow> None);
                 let soon = (case min_next of None \<Rightarrow> False | Some t \<Rightarrow> t \<le> add_ms now 250);
                 let draining' = (min (length ids) u32_max \<ge> batch_limit div 2 \<or> soon);
                 n \<leftarrow> enqueue_all X S instance_id ids 0;
                 (if draining' then ret () else sleep_ms tick_ms);
                 ret (\<lparr>enqueued = n, due_count = length ids\<rparr>, draining') }
         }
       }
     }"

text \<open>The loop, over the flag values it reads and the assigner states it then sees.\<close>

fun run_coordinator_tick_loop ::
  "('sc, 'tz) ext \<Rightarrow> 's scheduler_store \<Rightarrow> string \<Rightarrow> (bool \<times> assigner) list \<Rightarrow> bool \<Rightarrow>
   ('s, unit) proc" where
  "run_coordinator_tick_loop X S instance_id [] draining = ret ()"
| "run_coordinator_tick_loop X S instance_id ((is_leader, a) # rest) draining =
     (if \<not> is_leader
      then do { env \<leftarrow> env_vars; sleep_ms (tick_interval_ms_from_env env);
                run_coordinator_tick_loop X S instance_id rest draining }
      else do { (_, draining') \<leftarrow> run_one_tick X S instance_id a draining;
                run_coordinator_tick_loop X S instance_id rest draining' })"

section \<open>The scheduler facade\<close>

record scheduler_config =
  sc_tick_interval_ms :: nat
  sc_instance_id :: string
  sc_num_partitions :: nat
  sc_embedded :: bool

definition scheduler_config_default :: "('s, scheduler_config) proc" where
  "scheduler_config_default =
     do { env \<leftarrow> env_vars; uuid \<leftarrow> new_uuid;
          ret \<lparr>sc_tick_interval_ms = tick_interval_ms_from_env env, sc_instance_id = uuid,
               sc_num_partitions = num_partitions_from_env env, sc_embedded = True\<rparr> }"

record scheduler =
  sd_config :: scheduler_config
  sd_assigner :: assigner

definition scheduler_new :: "scheduler_config \<Rightarrow> scheduler" where
  "scheduler_new config =
     \<lparr>sd_config = config,
      sd_assigner = assigner_new (sc_instance_id config) (sc_num_partitions config)\<rparr>"

definition init_partitions :: "'s scheduler_store \<Rightarrow> scheduler \<Rightarrow> ('s, scheduler) proc" where
  "init_partitions S sd =
     (if sc_embedded (sd_config sd)
      then ret (sd\<lparr>sd_assigner := assign_all_embedded (sd_assigner sd)\<rparr>)
      else do {
        r \<leftarrow> refresh_leases S (sd_assigner sd);
        case r of
          Inl _ \<Rightarrow> do {
            emit (LogEvent ''chronon_scheduler_warn''
              [(''component'', ''scheduler''), (''message'', ''initial partition refresh failed'')]);
            ret sd }
        | Inr a \<Rightarrow> ret (sd\<lparr>sd_assigner := a\<rparr>) })"

definition tick_once ::
  "('sc, 'tz) ext \<Rightarrow> 's scheduler_store \<Rightarrow> scheduler \<Rightarrow> ('s, tick_result res) proc" where
  "tick_once X S sd =
     do { (r, _) \<leftarrow> run_one_tick X S (sc_instance_id (sd_config sd)) (sd_assigner sd) False;
          ret (Inr r) }"

definition due_job_count :: "'s scheduler_store \<Rightarrow> scheduler \<Rightarrow> ('s, nat res) proc" where
  "due_job_count S sd =
     do { now \<leftarrow> utc_now; clk \<leftarrow> utc_now;
          bind_ok (call (so_find_due_job_ids_in_partitions S clk (owned_partitions (sd_assigner sd)) now 10000))
            (\<lambda>ids. ret (Inr (length ids))) }"

end
