(* ===== verification/Tick_Facts.thy ===== *)
theory Tick_Facts
  imports Tick Election
begin

text \<open>
  What a coordinator does with a due job, as a decision and its effect on the two tables, and the
  proof that \<^verbatim>\<open>enqueue_due_job\<close> implements it on every store that keeps the contract of the port.
\<close>

section \<open>Specification\<close>

datatype tick_decision = Refused | Busy | Skipped | Contended | Fire

definition fire_time :: "job \<Rightarrow> time \<Rightarrow> time" where
  "fire_time j now = (case j_next_run_at j of Some t \<Rightarrow> t | None \<Rightarrow> now)"

definition tick_decide ::
  "(string \<Rightarrow> time \<Rightarrow> job \<Rightarrow> bool) \<Rightarrow> ('sc, 'tz) ext \<Rightarrow> string \<Rightarrow> time \<Rightarrow> nat \<Rightarrow> job \<Rightarrow> tick_decision" where
  "tick_decide once_free X inst now active j =
     (if \<not> tick_claimable now j then Refused
      else if j_concurrency j \<le> int active then Busy
      else if \<not> should_enqueue_for_misfire (fire_time j now) now (job_misfire_policy X j) then Skipped
      else if j_schedule_kind j = RunOnce \<and> \<not> once_free inst now j then Contended
      else Fire)"

text \<open>
  The row after the decision, up to its time stamp: \<open>at\<close> is the instant a run-once job is marked
  completed at.
\<close>

definition unclaimed :: "job \<Rightarrow> job" where
  "unclaimed j = j\<lparr>j_claim_lease_id := None, j_claim_lease_until := None\<rparr>"

definition advanced :: "('sc, 'tz) ext \<Rightarrow> time \<Rightarrow> time \<Rightarrow> job \<Rightarrow> job" where
  "advanced X now at j =
     (let j1 = (unclaimed j)\<lparr>j_next_run_at := next_fire X j now\<rparr>
      in if j_schedule_kind j = RunOnce
         then j1\<lparr>j_run_once_completed_at := Some at, j_run_once_claimed_at := None,
                 j_run_once_claimed_by := None, j_run_once_claim_expires_at := None\<rparr>
         else j1)"

fun tick_row :: "('sc, 'tz) ext \<Rightarrow> time \<Rightarrow> time \<Rightarrow> tick_decision \<Rightarrow> job \<Rightarrow> job" where
  "tick_row X now at Refused j = j"
| "tick_row X now at Busy j = unclaimed j"
| "tick_row X now at Contended j = unclaimed j"
| "tick_row X now at Skipped j = advanced X now now j"
| "tick_row X now at Fire j = advanced X now at j"

definition same_row :: "job \<Rightarrow> job \<Rightarrow> bool" where
  "same_row j j' \<longleftrightarrow> j\<lparr>j_updated_at := 0\<rparr> = j'\<lparr>j_updated_at := 0\<rparr>"

definition active_runs :: "(string \<Rightarrow> run option) \<Rightarrow> string \<Rightarrow> run set" where
  "active_runs R i = {r. R (r_run_id r) = Some r \<and> r_job_id r = Some i \<and> is_active (r_status r)}"

definition job_runs :: "(string \<Rightarrow> run option) \<Rightarrow> string \<Rightarrow> run set" where
  "job_runs R i = {r. R (r_run_id r) = Some r \<and> r_job_id r = Some i}"

text \<open>A first attempt waiting for a worker, of one of the given jobs.\<close>

definition queued_for :: "string set \<Rightarrow> run \<Rightarrow> bool" where
  "queued_for I r \<longleftrightarrow> r_status r = Queued \<and> r_attempt r = 1 \<and> (\<exists>i \<in> I. r_job_id r = Some i)"

lemma queued_for_mono: "I \<subseteq> J \<Longrightarrow> queued_for I r \<Longrightarrow> queued_for J r"
  by (auto simp: queued_for_def)

section \<open>Facts about rows\<close>

lemma tick_claim_sel [simp]:
  "j_concurrency (row_tick_claim cid now ttl j) = j_concurrency j"
  "j_next_run_at (row_tick_claim cid now ttl j) = j_next_run_at j"
  "j_schedule_kind (row_tick_claim cid now ttl j) = j_schedule_kind j"
  "job_misfire_policy X (row_tick_claim cid now ttl j) = job_misfire_policy X j"
  "next_fire X (row_tick_claim cid now ttl j) t = next_fire X j t"
  "due_run rid (row_tick_claim cid now ttl j) t = due_run rid j t"
  "j_job_id (row_tick_claim cid now ttl j) = j_job_id j"
  "j_job_name (row_tick_claim cid now ttl j) = j_job_name j"
  "j_script_name (row_tick_claim cid now ttl j) = j_script_name j"
  by (simp_all add: row_tick_claim_def job_misfire_policy_def next_fire_def cron_next_run_at_def
      due_run_def job_execution_pool_id_def split: option.splits)

lemma same_row_refl [simp]: "same_row j j"
  by (simp add: same_row_def)

lemma released_row:
  "same_row (row_tick_release clk (row_tick_claim cid now ttl j)) (unclaimed j)"
  by (simp add: same_row_def unclaimed_def row_change_defs)

lemma skipped_row:
  "j_schedule_kind j = RunOnce \<Longrightarrow>
   same_row (row_tick_release c3 (row_post_tick c2 (next_fire X j now)
     (row_once_complete c1 at (row_tick_claim cid now ttl j)))) (advanced X now at j)"
  "j_schedule_kind j \<noteq> RunOnce \<Longrightarrow>
   same_row (row_tick_release c3 (row_post_tick c2 (next_fire X j now) (row_tick_claim cid now ttl j)))
     (advanced X now at' j)"
  by (simp_all add: same_row_def advanced_def unclaimed_def row_change_defs)

lemma fired_row:
  "j_schedule_kind j = RunOnce \<Longrightarrow>
   same_row (row_post_tick c2 (next_fire X j now) (row_once_complete c1 at
     (row_once_claim who now ttl' (row_tick_claim cid now ttl j)))) (advanced X now at j)"
  "j_schedule_kind j \<noteq> RunOnce \<Longrightarrow>
   same_row (row_post_tick c2 (next_fire X j now) (row_tick_claim cid now ttl j)) (advanced X now at' j)"
  by (simp_all add: same_row_def advanced_def unclaimed_def row_change_defs)

section \<open>The implementation meets the specification\<close>

context coordinator_claims
begin

lemma wp_release:
  assumes "invar (w_store w)" "jobs_of (w_store w) i = Some j"
    "\<And>s' clk. invar s' \<Longrightarrow> jobs_of s' = (jobs_of (w_store w))(i \<mapsto> row_tick_release clk j) \<Longrightarrow>
       runs_of s' = runs_of (w_store w) \<Longrightarrow> Q () (w\<lparr>w_reads := Suc (w_reads w), w_store := s'\<rparr>)"
  shows "wp (release_tick_claim S i) Q w"
  using release_tick[OF assms(1,2), of "w_clock w (w_reads w)"] assms(3)
  by (auto simp: release_tick_claim_def wp_simps wp_call)

lemma wp_persist:
  assumes "invar (w_store w)" "jobs_of (w_store w) i = Some j"
    "\<And>s' clk. invar s' \<Longrightarrow> jobs_of s' = (jobs_of (w_store w))(i \<mapsto> row_post_tick clk nra j) \<Longrightarrow>
       runs_of s' = runs_of (w_store w) \<Longrightarrow> Q () (w\<lparr>w_reads := Suc (w_reads w), w_store := s'\<rparr>)"
  shows "wp (persist_next S i nra) Q w"
  using persist_post_tick[OF assms(1,2), of "w_clock w (w_reads w)" nra] assms(3)
  by (auto simp: persist_next_def wp_simps wp_call)

lemma wp_once_complete:
  assumes "invar (w_store w)" "jobs_of (w_store w) i = Some j"
    "\<And>s' u. invar s' \<Longrightarrow> jobs_of s' = (jobs_of (w_store w))(i \<mapsto> row_once_complete u at j) \<Longrightarrow>
       runs_of s' = runs_of (w_store w) \<Longrightarrow> Q (Inr ()) (w\<lparr>w_store := s'\<rparr>)"
  shows "wp (call (so_mark_run_once_completed S clk i at)) Q w"
  using once_complete[OF assms(1,2), of clk "at"] assms(3) by (auto simp: wp_call)

text \<open>The outcome of a tick on one job: result, run table and job table.\<close>

definition tick_effect ::
  "('sc, 'tz) ext \<Rightarrow> 's world \<Rightarrow> string \<Rightarrow> job \<Rightarrow> tick_decision \<Rightarrow> bool res \<Rightarrow> 's world \<Rightarrow> bool" where
  "tick_effect X w i j d r w' \<longleftrightarrow>
     (let now = w_clock w (w_reads w); rid = w_uuid w (Suc (w_uuids w)) in
      invar (w_store w') \<and> r = Inr (d = Fire) \<and>
      runs_of (w_store w') =
        (if d = Fire then (runs_of (w_store w))(rid \<mapsto> due_run rid j (fire_time j now))
         else runs_of (w_store w)) \<and>
      (\<forall>k. k \<noteq> i \<longrightarrow> jobs_of (w_store w') k = jobs_of (w_store w) k) \<and>
      (\<exists>j' at. jobs_of (w_store w') i = Some j' \<and> same_row j' (tick_row X now at d j)))"

lemma wp_create_due_run:
  assumes "invar (w_store w)" "jobs_of (w_store w) i = Some j1"
    "runs_of (w_store w) (w_uuid w (w_uuids w)) = None"
    "\<And>w' c1 c2 at. invar (w_store w') \<Longrightarrow>
       jobs_of (w_store w') = (jobs_of (w_store w))(i \<mapsto> row_post_tick c2 (next_fire X job now)
         (if j_schedule_kind job = RunOnce then row_once_complete c1 at j1 else j1)) \<Longrightarrow>
       runs_of (w_store w') =
         (runs_of (w_store w))(w_uuid w (w_uuids w) \<mapsto> due_run (w_uuid w (w_uuids w)) job t) \<Longrightarrow>
       proc_frame w w' \<Longrightarrow> w_uuids w' = Suc (w_uuids w) \<Longrightarrow> Q (Inr True) w'"
  shows "wp (create_due_run X S inst i job t now) Q w"
proof -
  let ?rid = "w_uuid w (w_uuids w)"
  have "r_run_id (due_run ?rid job t) = ?rid" by (simp add: due_run_def)
  then obtain s1 where s1: "so_create_run S (due_run ?rid job t) (w_store w) = (Inr (), s1)" "invar s1"
    "runs_of s1 = (runs_of (w_store w))(?rid \<mapsto> due_run ?rid job t)" "jobs_of s1 = jobs_of (w_store w)"
    using create_run[OF assms(1), of "due_run ?rid job t"] assms(3) by auto
  show ?thesis
  proof (cases "j_schedule_kind job = RunOnce")
    case True
    with s1 assms(2) show ?thesis
      by (auto simp: create_due_run_def wp_simps wp_call_eq proc_frame_def intro!: wp_persist
          wp_once_complete[where j = j1] assms(4))
  next
    case False
    with s1 assms(2) show ?thesis
      by (auto simp: create_due_run_def wp_simps wp_call_eq proc_frame_def intro!: wp_persist[where j = j1] assms(4))
  qed
qed

text \<open>
  Counting returns some number, and the number of active runs when the job has fewer runs than the
  page that is read.
\<close>

definition counted :: "(string \<Rightarrow> run option) \<Rightarrow> string \<Rightarrow> nat \<Rightarrow> bool" where
  "counted R i n \<longleftrightarrow>
     (finite (job_runs R i) \<and> card (job_runs R i) < 10000 \<longrightarrow> n = card (active_runs R i))"

lemma count_ok:
  assumes "invar s"
  shows "\<exists>n. counted (runs_of s) i n \<and>
    (\<forall>w Q. w_store w = s \<longrightarrow> wp (count_active_runs S i) Q w = Q (Inr (int n)) w)"
proof -
  let ?R = "runs_of s"
  obtain rs where rs: "so_list_runs_for_job S i 10000 s = (Inr rs, s)" "length rs \<le> 10000"
    "distinct rs" "set rs \<subseteq> job_runs ?R i" "length rs < 10000 \<longrightarrow> set rs = job_runs ?R i"
    using list_runs_for_job[OF assms(1), of 10000 i] by (auto simp: job_runs_def)
  let ?act = "filter (\<lambda>r. is_active (r_status r)) rs"
  have "length ?act = card (active_runs ?R i)" if b: "finite (job_runs ?R i)" "card (job_runs ?R i) < 10000"
  proof -
    have "length rs = card (set rs)" using rs(3) by (simp add: distinct_card)
    also have "\<dots> \<le> card (job_runs ?R i)" using rs(4) b(1) by (rule card_mono[rotated])
    finally have "set rs = job_runs ?R i" using b(2) rs(5) by simp
    then have "set ?act = active_runs ?R i" by (auto simp: active_runs_def job_runs_def)
    then show ?thesis using distinct_card[OF distinct_filter[OF rs(3)]] by metis
  qed
  moreover have "length ?act \<le> 10000" using rs(2) length_filter_le order_trans by blast
  then have "wrap_i32 (int (length ?act)) = int (length ?act)" by (simp add: wrap_i32_id)
  ultimately show ?thesis
    using rs(1) by (intro exI[of _ "length ?act"]) (auto simp: counted_def count_active_runs_def wp_simps wp_call_eq)
qed

text \<open>Where the tick claim is refused nothing happens.\<close>

lemma enqueue_refused:
  assumes "invar (w_store w)"
    "\<forall>j. jobs_of (w_store w) i = Some j \<longrightarrow> \<not> tick_claimable (w_clock w (w_reads w)) j"
    "\<And>w'. w_store w' = w_store w \<Longrightarrow> proc_frame w w' \<Longrightarrow>
       Q (Inr False) w'"
  shows "wp (enqueue_due_job X S inst i) Q w"
proof -
  have c: "so_claim_job_for_tick S i cid (w_clock w (w_reads w)) ttl (w_store w) = (Inr False, w_store w)" for cid ttl
    using claim_tick_no[OF assms(1,2)] .
  have "Q (Inr False) (w\<lparr>w_reads := Suc (w_reads w), w_uuids := Suc (w_uuids w)\<rparr>)"
    by (rule assms(3)) (simp_all add: proc_frame_def)
  with c show ?thesis by (simp add: enqueue_due_job_def wp_simps wp_call_eq Let_def)
qed

lemma enqueue_refines:
  assumes inv: "invar (w_store w)" and job: "jobs_of (w_store w) i = Some j"
    and fresh: "runs_of (w_store w) (w_uuid w (Suc (w_uuids w))) = None"
  shows "\<exists>n. counted (runs_of (w_store w)) i n \<and>
     wp (enqueue_due_job X S inst i) (\<lambda>r w'. tick_effect X w i j
       (tick_decide once_free X inst (w_clock w (w_reads w)) n j) r w' \<and> proc_frame w w' \<and>
       (r = Inr True \<longrightarrow> w_uuids w' = w_uuids w + 2)) w"
proof (cases "tick_claimable (w_clock w (w_reads w)) j")
  case False
  then have "tick_decide once_free X inst (w_clock w (w_reads w)) n j = Refused" for n
    by (simp add: tick_decide_def)
  with False job inv show ?thesis
    by (intro exI[of _ "card (active_runs (runs_of (w_store w)) i)"] conjI enqueue_refused)
      (auto simp: tick_effect_def Let_def counted_def)
next
  case True
  let ?now = "w_clock w (w_reads w)" let ?ttl = "job_claim_lease_ttl_secs (w_env w)"
  let ?cid = "inst @ '':'' @ w_uuid w (w_uuids w)"
  let ?j1 = "row_tick_claim ?cid ?now ?ttl j"
  let ?rid = "w_uuid w (Suc (w_uuids w))"
  obtain s1 where s1: "so_claim_job_for_tick S i ?cid ?now ?ttl (w_store w) = (Inr True, s1)" "invar s1"
    "jobs_of s1 = (jobs_of (w_store w))(i \<mapsto> ?j1)" "runs_of s1 = runs_of (w_store w)"
    using claim_tick_yes[OF inv job True, of ?cid ?ttl] by auto
  obtain n where n: "counted (runs_of (w_store w)) i n"
    "\<And>w' Q. w_store w' = s1 \<Longrightarrow> wp (count_active_runs S i) Q w' = Q (Inr (int n)) w'"
    using count_ok[OF s1(2), of i] s1(4) by auto
  define d where d: "d = tick_decide once_free X inst ?now n j"
  let ?w1 = "w\<lparr>w_reads := Suc (w_reads w), w_uuids := Suc (w_uuids w), w_store := s1\<rparr>"
  have g: "so_get_job S i s1 = (Inr (Some ?j1), s1)" using get_job[OF s1(2), of i] s1(3) by simp
  have fr: "proc_frame w ?w1" by (simp add: proc_frame_def)
  have pf: "proc_frame w w'" if "proc_frame ?w1 w'" for w' using fr that by (rule proc_frame_trans)
  have busy: "wp (do { release_tick_claim S i; ret (Inr False) })
      (\<lambda>r w'. tick_effect X w i j d r w' \<and> proc_frame w w' \<and> (r = Inr True \<longrightarrow> w_uuids w' = w_uuids w + 2)) ?w1" if "d \<in> {Busy, Contended}"
    using that s1 unfolding wp_bind
    by (intro wp_release[where j = ?j1])
      (auto simp: wp_simps tick_effect_def Let_def proc_frame_def intro!: released_row)
  have skip: "wp (skip_due_job X S ?j1 i ?now)
      (\<lambda>r w'. tick_effect X w i j d r w' \<and> proc_frame w w' \<and> (r = Inr True \<longrightarrow> w_uuids w' = w_uuids w + 2)) ?w1" if "d = Skipped"
  proof (cases "j_schedule_kind j = RunOnce")
    case True
    with that s1 show ?thesis unfolding skip_due_job_def wp_bind
      by (auto simp: wp_simps tick_effect_def Let_def proc_frame_def
          intro!: wp_release wp_persist wp_once_complete[where j = ?j1] skipped_row)
  next
    case False
    with that s1 show ?thesis unfolding skip_due_job_def wp_bind
      by (auto simp: wp_simps tick_effect_def Let_def proc_frame_def
          intro!: wp_release wp_persist[where j = ?j1] skipped_row)
  qed
  have fire: "wp (create_due_run X S inst i ?j1 (fire_time j ?now) ?now)
      (\<lambda>r w'. tick_effect X w i j d r w' \<and> proc_frame w w' \<and> (r = Inr True \<longrightarrow> w_uuids w' = w_uuids w + 2)) (?w1\<lparr>w_store := s\<rparr>)"
    if "d = Fire" "invar s" "runs_of s = runs_of (w_store w)"
      "jobs_of s = (jobs_of (w_store w))(i \<mapsto> j2)"
      "j2 = (if j_schedule_kind j = RunOnce then row_once_claim inst ?now ?ttl ?j1 else ?j1)" for s j2
    using that fresh
    by (intro wp_create_due_run[where ?j1.0 = j2])
      (auto simp: tick_effect_def Let_def proc_frame_def intro!: fired_row)
  have once: "wp (call (so_try_claim_run_once S i inst ?now ?ttl))
      (\<lambda>once. wp (case once of
                 Inr True \<Rightarrow> create_due_run X S inst i ?j1 (fire_time j ?now) ?now
               | Inr False \<Rightarrow> do { release_tick_claim S i; ret (Inr False) }
               | Inl e \<Rightarrow> do {
                   emit (tick_event ''chronon_scheduler_error'' (error_to_string e));
                   release_tick_claim S i; ret (Inr False) })
        (\<lambda>r w'. tick_effect X w i j d r w' \<and> proc_frame w w' \<and> (r = Inr True \<longrightarrow> w_uuids w' = w_uuids w + 2))) ?w1"
    if "j_schedule_kind j = RunOnce" "d = (if once_free inst ?now j then Fire else Contended)"
  proof (cases "once_free inst ?now j")
    case True
    then obtain s2 where "so_try_claim_run_once S i inst ?now ?ttl s1 = (Inr True, s2)" "invar s2"
      "jobs_of s2 = (jobs_of s1)(i \<mapsto> row_once_claim inst ?now ?ttl ?j1)" "runs_of s2 = runs_of s1"
      using once_claim_yes[OF s1(2), of i ?j1 inst ?now ?ttl] s1(3) by (auto simp: once_ticked)
    with True that s1 fire[of s2 "row_once_claim inst ?now ?ttl ?j1"] show ?thesis
      by (simp add: wp_call_eq)
  next
    case False
    then have "so_try_claim_run_once S i inst ?now ?ttl s1 = (Inr False, s1)"
      using once_claim_no[OF s1(2), of i inst ?now ?ttl] s1(3) by (simp add: once_ticked)
    with False that busy show ?thesis by (simp add: wp_call_eq)
  qed
  let ?go = "should_enqueue_for_misfire (fire_time j ?now) ?now (job_misfire_policy X j)"
  have gate: "gate_due_job X S inst i ?j1 ?now ?ttl (int n) =
     (if j_concurrency j \<le> int n then do { release_tick_claim S i; ret (Inr False) }
      else if \<not> ?go then skip_due_job X S ?j1 i ?now
      else if j_schedule_kind j = RunOnce
      then do { once \<leftarrow> call (so_try_claim_run_once S i inst ?now ?ttl);
                case once of
                 Inr True \<Rightarrow> create_due_run X S inst i ?j1 (fire_time j ?now) ?now
               | Inr False \<Rightarrow> do { release_tick_claim S i; ret (Inr False) }
               | Inl e \<Rightarrow> do {
                   emit (tick_event ''chronon_scheduler_error'' (error_to_string e));
                   release_tick_claim S i; ret (Inr False) } }
      else create_due_run X S inst i ?j1 (fire_time j ?now) ?now)"
    unfolding gate_due_job_def Let_def tick_claim_sel fire_time_def by (rule refl)
  have rest: "wp (gate_due_job X S inst i ?j1 ?now ?ttl (int n))
    (\<lambda>r w'. tick_effect X w i j d r w' \<and> proc_frame w w' \<and> (r = Inr True \<longrightarrow> w_uuids w' = w_uuids w + 2)) ?w1"
  proof -
    consider "j_concurrency j \<le> int n" | "\<not> j_concurrency j \<le> int n" "\<not> ?go"
      | "\<not> j_concurrency j \<le> int n" ?go "j_schedule_kind j = RunOnce"
      | "\<not> j_concurrency j \<le> int n" ?go "j_schedule_kind j \<noteq> RunOnce" by blast
    then show ?thesis
    proof cases
      case 1
      then have "d = Busy" using True by (simp add: d tick_decide_def)
      with 1 busy show ?thesis unfolding gate by simp
    next
      case 2
      then have "d = Skipped" using True by (simp add: d tick_decide_def)
      with 2 skip show ?thesis unfolding gate by simp
    next
      case 3
      then have "d = (if once_free inst ?now j then Fire else Contended)"
        using True by (simp add: d tick_decide_def)
      from once[OF 3(3) this] 3 show ?thesis unfolding gate by (simp add: wp_bind del: append_Cons append_Nil)
    next
      case 4
      then have "d = Fire" using True by (simp add: d tick_decide_def)
      with 4 fire[of s1 ?j1] s1 show ?thesis unfolding gate by simp
    qed
  qed
  with s1 g n(2) have "wp (enqueue_due_job X S inst i) (\<lambda>r w'. tick_effect X w i j d r w' \<and>
      proc_frame w w' \<and> (r = Inr True \<longrightarrow> w_uuids w' = w_uuids w + 2)) w"
    by (simp add: enqueue_due_job_def wp_simps wp_call_eq Let_def)
  with n(1) d show ?thesis by blast
qed

section \<open>Many jobs\<close>

text \<open>The identifiers still to be drawn are pairwise different and name no stored run.\<close>

definition fresh_ids :: "'s world \<Rightarrow> bool" where
  "fresh_ids w \<longleftrightarrow> inj (w_uuid w) \<and> (\<forall>n \<ge> w_uuids w. runs_of (w_store w) (w_uuid w n) = None)"

text \<open>Every later state has the old runs and new queued ones, of the jobs given.\<close>

definition adds_runs :: "string set \<Rightarrow> 's world \<Rightarrow> nat \<Rightarrow> 's world \<Rightarrow> bool" where
  "adds_runs I w n w' \<longleftrightarrow>
     (\<forall>k r. runs_of (w_store w) k = Some r \<longrightarrow> runs_of (w_store w') k = Some r) \<and>
     (\<exists>K. finite K \<and> card K = n \<and> K \<inter> dom (runs_of (w_store w)) = {} \<and>
        dom (runs_of (w_store w')) = dom (runs_of (w_store w)) \<union> K \<and>
        (\<forall>k \<in> K. \<exists>r. runs_of (w_store w') k = Some r \<and> queued_for I r))"

lemma adds_runs_none: "runs_of (w_store w') = runs_of (w_store w) \<Longrightarrow> adds_runs I w 0 w'"
  by (auto simp: adds_runs_def)

lemma adds_runs_trans:
  assumes "adds_runs I w m w1" "adds_runs I w1 n w2"
  shows "adds_runs I w (m + n) w2"
proof -
  let ?d = "\<lambda>w. dom (runs_of (w_store w))"
  obtain K where K: "finite K" "card K = m" "K \<inter> ?d w = {}" "?d w1 = ?d w \<union> K"
    "\<forall>k \<in> K. \<exists>r. runs_of (w_store w1) k = Some r \<and> queued_for I r"
    using assms(1) unfolding adds_runs_def by blast
  obtain L where L: "finite L" "card L = n" "L \<inter> ?d w1 = {}" "?d w2 = ?d w1 \<union> L"
    "\<forall>k \<in> L. \<exists>r. runs_of (w_store w2) k = Some r \<and> queued_for I r"
    using assms(2) unfolding adds_runs_def by blast
  have keep: "\<forall>k r. runs_of (w_store w1) k = Some r \<longrightarrow> runs_of (w_store w2) k = Some r"
    using assms(2) unfolding adds_runs_def by blast
  have "K \<inter> L = {}" using K L by auto
  then have "card (K \<union> L) = m + n" using K L by (simp add: card_Un_disjoint)
  moreover have "(K \<union> L) \<inter> ?d w = {}" "?d w2 = ?d w \<union> (K \<union> L)" using K L by auto
  moreover have "\<forall>k \<in> K \<union> L. \<exists>r. runs_of (w_store w2) k = Some r \<and> queued_for I r"
    using K(5) L(5) keep by blast
  moreover have "\<forall>k r. runs_of (w_store w) k = Some r \<longrightarrow> runs_of (w_store w2) k = Some r"
    using assms keep unfolding adds_runs_def by blast
  ultimately show ?thesis
    unfolding adds_runs_def using K(1) L(1) by (intro conjI exI[of _ "K \<union> L"]) auto
qed

lemma adds_runs_one:
  assumes "runs_of (w_store w') = (runs_of (w_store w))(k \<mapsto> r)" "runs_of (w_store w) k = None"
    "queued_for I r"
  shows "adds_runs I w 1 w'"
  unfolding adds_runs_def using assms by (auto intro!: exI[of _ "{k}"])

lemma due_run_sel [simp]:
  "r_status (due_run rid j t) = Queued" "r_attempt (due_run rid j t) = 1"
  "r_job_id (due_run rid j t) = Some (j_job_id j)" "r_run_id (due_run rid j t) = rid"
  by (simp_all add: due_run_def)

text \<open>One job of a batch; the row of another job is untouched.\<close>

lemma enqueue_step:
  assumes "invar (w_store w)" "fresh_ids w"
  shows "wp (enqueue_due_job X S inst i) (\<lambda>r w'. invar (w_store w') \<and> fresh_ids w' \<and>
     adds_runs {i} w (if r = Inr True then 1 else 0) w' \<and>
     (\<forall>k. k \<noteq> i \<longrightarrow> jobs_of (w_store w') k = jobs_of (w_store w) k)) w"
proof (cases "jobs_of (w_store w) i")
  case None
  with assms show ?thesis
    by (intro enqueue_refused) (auto simp: fresh_ids_def proc_frame_def intro: adds_runs_none)
next
  case (Some j)
  have fresh: "runs_of (w_store w) (w_uuid w (Suc (w_uuids w))) = None"
    using assms(2) by (simp add: fresh_ids_def)
  obtain n where n: "wp (enqueue_due_job X S inst i) (\<lambda>r w'. tick_effect X w i j
       (tick_decide once_free X inst (w_clock w (w_reads w)) n j) r w' \<and> proc_frame w w' \<and>
       (r = Inr True \<longrightarrow> w_uuids w' = w_uuids w + 2)) w"
    using enqueue_refines[OF assms(1) Some fresh] by blast
  have key: "j_job_id j = i" using job_key[OF assms(1) Some] .
  show ?thesis
  proof (rule wp_mono[OF n], goal_cases)
    case (1 r w')
    let ?d = "tick_decide once_free X inst (w_clock w (w_reads w)) n j"
    have e: "invar (w_store w')" "r = Inr (?d = Fire)" "proc_frame w w'"
      "r = Inr True \<longrightarrow> w_uuids w' = w_uuids w + 2"
      "\<forall>k. k \<noteq> i \<longrightarrow> jobs_of (w_store w') k = jobs_of (w_store w) k"
      "runs_of (w_store w') = (if ?d = Fire then (runs_of (w_store w))(w_uuid w (Suc (w_uuids w)) \<mapsto>
          due_run (w_uuid w (Suc (w_uuids w))) j (fire_time j (w_clock w (w_reads w))))
         else runs_of (w_store w))"
      using 1 by (simp_all add: tick_effect_def Let_def)
    show ?case
    proof (cases "?d = Fire")
      case True
      have u: "w_uuid w' = w_uuid w" "w_uuids w' = w_uuids w + 2"
        using e True by (simp_all add: proc_frame_def)
      have "fresh_ids w'"
        unfolding fresh_ids_def u e(6) using assms(2) True
        by (auto simp: fresh_ids_def dest: injD)
      moreover have "adds_runs {i} w 1 w'"
        using e(6) True fresh key by (intro adds_runs_one) (auto simp: queued_for_def)
      ultimately show ?thesis using e True by simp
    next
      case False
      with e assms(2) show ?thesis by (auto simp: fresh_ids_def proc_frame_def intro: adds_runs_none)
    qed
  qed
qed

lemma adds_runs_weaken:
  assumes "adds_runs I w n w'" "I \<subseteq> J"
  shows "adds_runs J w n w'"
proof -
  obtain K where K: "finite K" "card K = n" "K \<inter> dom (runs_of (w_store w)) = {}"
    "dom (runs_of (w_store w')) = dom (runs_of (w_store w)) \<union> K"
    "\<forall>k \<in> K. \<exists>r. runs_of (w_store w') k = Some r \<and> queued_for I r"
    using assms(1) unfolding adds_runs_def by blast
  have "\<forall>k \<in> K. \<exists>r. runs_of (w_store w') k = Some r \<and> queued_for J r"
    using K(5) queued_for_mono[OF assms(2)] by blast
  moreover have "\<forall>k r. runs_of (w_store w) k = Some r \<longrightarrow> runs_of (w_store w') k = Some r"
    using assms(1) by (simp add: adds_runs_def)
  ultimately show ?thesis
    unfolding adds_runs_def using K(1-4) by (intro conjI exI[of _ K])
qed

lemma enqueue_all_adds:
  assumes "invar (w_store w)" "fresh_ids w"
  shows "wp (enqueue_all X S inst ids n0) (\<lambda>n w'. invar (w_store w') \<and> fresh_ids w' \<and> n0 \<le> n \<and>
     n \<le> n0 + length ids \<and> adds_runs (set ids) w (n - n0) w') w"
  using assms
proof (induction ids arbitrary: w n0)
  case Nil
  then show ?case by (simp add: wp_simps adds_runs_none)
next
  case (Cons i ids)
  let ?P = "\<lambda>n0 w n w'. invar (w_store w') \<and> fresh_ids w' \<and> n0 \<le> n \<and> n \<le> n0 + length ids \<and>
      adds_runs (set ids) w (n - n0) w'"
  have "wp (enqueue_due_job X S inst i) (\<lambda>r. wp (enqueue_all X S inst ids (if r = Inr True then n0 + 1 else n0))
      (\<lambda>n w'. invar (w_store w') \<and> fresh_ids w' \<and> n0 \<le> n \<and> n \<le> n0 + length (i # ids) \<and>
        adds_runs (set (i # ids)) w (n - n0) w')) w"
  proof (rule wp_mono[OF enqueue_step[OF Cons.prems, of X inst i]], goal_cases)
    case (1 r w1)
    let ?k = "if r = Inr True then 1 else 0"
    have a: "adds_runs (set (i # ids)) w ?k w1" using 1 by (auto intro: adds_runs_weaken)
    have "adds_runs (set (i # ids)) w (?k + (n - (n0 + ?k))) w'"
      if "adds_runs (set ids) w1 (n - (n0 + ?k)) w'" for n w'
      by (rule adds_runs_trans[OF a]) (use that in \<open>auto intro: adds_runs_weaken\<close>)
    then have imp: "invar (w_store w') \<and> fresh_ids w' \<and> n0 \<le> n \<and> n \<le> n0 + length (i # ids) \<and>
        adds_runs (set (i # ids)) w (n - n0) w'" if "?P (n0 + ?k) w1 n w'" for n w'
    proof -
      have "?k + (n - (n0 + ?k)) = n - n0" using that by simp
      with \<open>\<And>n w'. adds_runs (set ids) w1 (n - (n0 + ?k)) w' \<Longrightarrow> _ n w'\<close>[of n w'] that
      have "adds_runs (set (i # ids)) w (n - n0) w'" by metis
      with that show ?thesis by (auto split: if_splits)
    qed
    have "wp (enqueue_all X S inst ids (n0 + ?k)) (?P (n0 + ?k) w1) w1"
      by (rule Cons.IH) (use 1 in auto)
    then have "wp (enqueue_all X S inst ids (n0 + ?k)) (\<lambda>n w'. invar (w_store w') \<and> fresh_ids w' \<and>
        n0 \<le> n \<and> n \<le> n0 + length (i # ids) \<and> adds_runs (set (i # ids)) w (n - n0) w') w1"
      by (rule wp_mono) (rule imp)
    then show ?case by (auto split: if_splits)
  qed
  then show ?case by (simp add: wp_bind)
qed

text \<open>A completed run-once job never gets another run.\<close>

definition done_once :: "string \<Rightarrow> 's world \<Rightarrow> bool" where
  "done_once i w \<longleftrightarrow> (\<exists>j. jobs_of (w_store w) i = Some j \<and> j_schedule_kind j = RunOnce \<and>
     j_run_once_completed_at j \<noteq> None)"

lemma tick_row_done:
  "same_row j' (tick_row X now at d j) \<Longrightarrow> j_schedule_kind j = RunOnce \<Longrightarrow>
   d = Fire \<or> j_run_once_completed_at j \<noteq> None \<Longrightarrow>
   j_schedule_kind j' = RunOnce \<and> j_run_once_completed_at j' \<noteq> None"
  by (cases d; cases j; cases j')
    (auto simp: same_row_def unclaimed_def advanced_def Let_def job.defs split: if_splits)

lemma enqueue_done_once:
  assumes "invar (w_store w)" "fresh_ids w" "done_once i w"
  shows "wp (enqueue_due_job X S inst k) (\<lambda>r w'. invar (w_store w') \<and> fresh_ids w' \<and> done_once i w' \<and>
     job_runs (runs_of (w_store w')) i = job_runs (runs_of (w_store w)) i) w"
proof -
  have fresh: "runs_of (w_store w) (w_uuid w (Suc (w_uuids w))) = None"
    using assms(2) by (simp add: fresh_ids_def)
  have keep: "wp (enqueue_due_job X S inst k) (\<lambda>r w'. (invar (w_store w') \<and> fresh_ids w' \<and>
     adds_runs {k} w (if r = Inr True then 1 else 0) w' \<and>
     (\<forall>k'. k' \<noteq> k \<longrightarrow> jobs_of (w_store w') k' = jobs_of (w_store w) k'))) w"
    by (rule enqueue_step[OF assms(1,2)])
  show ?thesis
  proof (cases "k = i")
    case False
    show ?thesis
    proof (rule wp_mono[OF keep], goal_cases)
      case (1 r w')
      have "\<not> (runs_of (w_store w') k' = Some q \<and> r_job_id q = Some i)"
        if "runs_of (w_store w) k' = None" for k' q
      proof -
        obtain K where K: "dom (runs_of (w_store w')) = dom (runs_of (w_store w)) \<union> K"
          "\<forall>k' \<in> K. \<exists>r. runs_of (w_store w') k' = Some r \<and> queued_for {k} r"
          using 1 unfolding adds_runs_def by blast
        have "k' \<in> K" if "runs_of (w_store w') k' = Some q"
          using K(1) that \<open>runs_of (w_store w) k' = None\<close> by (metis Un_iff domIff option.distinct(1))
        then show ?thesis using K(2) False by (fastforce simp: queued_for_def)
      qed
      moreover have "runs_of (w_store w) k' = Some q \<Longrightarrow> runs_of (w_store w') k' = Some q" for k' q
        using 1 unfolding adds_runs_def by blast
      ultimately have "runs_of (w_store w') k' = Some q \<and> r_job_id q = Some i \<longleftrightarrow>
          runs_of (w_store w) k' = Some q \<and> r_job_id q = Some i" for k' q
        by (cases "runs_of (w_store w) k'") auto
      then have "job_runs (runs_of (w_store w')) i = job_runs (runs_of (w_store w)) i"
        by (simp add: job_runs_def)
      with 1 assms(3) False show ?case by (auto simp: done_once_def)
    qed
  next
    case True
    obtain j where j: "jobs_of (w_store w) i = Some j" "j_schedule_kind j = RunOnce"
      "j_run_once_completed_at j \<noteq> None" using assms(3) by (auto simp: done_once_def)
    obtain n where n: "wp (enqueue_due_job X S inst i) (\<lambda>r w'. tick_effect X w i j
       (tick_decide once_free X inst (w_clock w (w_reads w)) n j) r w' \<and> proc_frame w w' \<and>
       (r = Inr True \<longrightarrow> w_uuids w' = w_uuids w + 2)) w"
      using enqueue_refines[OF assms(1) j(1) fresh] by blast
    have nf: "tick_decide once_free X inst (w_clock w (w_reads w)) n j \<noteq> Fire"
      using j by (simp add: tick_decide_def once_completed)
    show ?thesis
      unfolding True
    proof (rule wp_mono[OF n], goal_cases)
      case (1 r w')
      then obtain j' "at" where j': "jobs_of (w_store w') i = Some j'"
        "same_row j' (tick_row X (w_clock w (w_reads w)) at
           (tick_decide once_free X inst (w_clock w (w_reads w)) n j) j)"
        by (auto simp: tick_effect_def Let_def)
      have "done_once i w'" using tick_row_done[OF j'(2)] j j'(1) by (simp add: done_once_def)
      with 1 nf assms(2) show ?case by (auto simp: tick_effect_def Let_def fresh_ids_def proc_frame_def)
    qed
  qed
qed

lemma enqueue_all_done_once:
  assumes "invar (w_store w)" "fresh_ids w" "done_once i w"
  shows "wp (enqueue_all X S inst ids n) (\<lambda>m w'. invar (w_store w') \<and> fresh_ids w' \<and> done_once i w' \<and>
     job_runs (runs_of (w_store w')) i = job_runs (runs_of (w_store w)) i) w"
  using assms
proof (induction ids arbitrary: w n)
  case Nil then show ?case by (simp add: wp_simps)
next
  case (Cons k ids)
  show ?case
    unfolding enqueue_all.simps wp_bind
    by (rule wp_mono[OF enqueue_done_once[OF Cons.prems]]) (auto dest: Cons.IH elim!: wp_mono)
qed

end

definition due_ids :: "(string \<Rightarrow> job option) \<Rightarrow> time \<Rightarrow> string set" where
  "due_ids J until = {i. \<exists>j t. J i = Some j \<and> j_enabled j \<and> j_next_run_at j = Some t \<and> t \<le> until}"

lemma due_ids_mono: "u \<le> u' \<Longrightarrow> due_ids J u \<subseteq> due_ids J u'"
  by (fastforce simp: due_ids_def)

context due_queries
begin

lemma fresh_ids_upd [simp]:
  "fresh_ids (w\<lparr>w_reads := n\<rparr>) = fresh_ids w" "fresh_ids (w\<lparr>w_tele := t\<rparr>) = fresh_ids w"
  "fresh_ids (w\<lparr>w_sleeps := sl\<rparr>) = fresh_ids w"
  by (simp_all add: fresh_ids_def)

lemma adds_runs_upd [simp]:
  "adds_runs I (w\<lparr>w_reads := n\<rparr>) m w' = adds_runs I w m w'"
  "adds_runs I (w\<lparr>w_tele := t\<rparr>) m w' = adds_runs I w m w'"
  "adds_runs I w m (w'\<lparr>w_sleeps := sl\<rparr>) = adds_runs I w m w'"
  "adds_runs I w m (w'\<lparr>w_reads := n\<rparr>) = adds_runs I w m w'"
  "adds_runs I w m (w'\<lparr>w_tele := t\<rparr>) = adds_runs I w m w'"
  by (simp_all add: adds_runs_def)

lemma tick_adds:
  assumes "invar (w_store w)" "fresh_ids w"
  shows "wp (run_one_tick X S inst a draining) (\<lambda>(res, dr) w'.
     invar (w_store w') \<and> fresh_ids w' \<and> enqueued res \<le> due_count res \<and>
     due_count res \<le> tick_batch_limit_from_env (w_env w) \<and>
     adds_runs (due_ids (jobs_of (w_store w)) (add_ms (w_clock w (w_reads w)) 50)) w (enqueued res) w') w"
proof -
  let ?I = "due_ids (jobs_of (w_store w)) (add_ms (w_clock w (w_reads w)) 50)"
  let ?now = "w_clock w (w_reads w)" let ?until = "add_ms ?now (if draining then 50 else 0)"
  let ?lim = "tick_batch_limit_from_env (w_env w)"
  let ?w1 = "w\<lparr>w_tele := w_tele w @ [Counter ''chronon_scheduler_ticks'' [(''component'', ''scheduler'')] 1],
               w_reads := Suc (Suc (w_reads w))\<rparr>"
  have none: "adds_runs ?I w 0 w" by (rule adds_runs_none) simp
  obtain ids where ids: "so_find_due_job_ids_in_partitions S (w_clock w (Suc (w_reads w))) (as_owned a) ?until
      ?lim (w_store w) = (Inr ids, w_store w)" "length ids \<le> ?lim" "set ids \<subseteq> due_ids (jobs_of (w_store w)) ?until"
    using find_due[OF assms(1), of "w_clock w (Suc (w_reads w))" "as_owned a" ?until ?lim]
    by (auto simp: due_ids_def)
  obtain m where m: "so_min_next_run_at_in_partitions S (as_owned a) (w_store w) = (Inr m, w_store w)"
    using min_next[OF assms(1)] by blast
  have sub: "set ids \<subseteq> ?I" using ids(3) due_ids_mono[of ?until "add_ms ?now 50"] by (auto simp: add_ms_def split: if_splits)
  have "wp (enqueue_all X S inst ids 0) (\<lambda>n w'. invar (w_store w') \<and> fresh_ids w' \<and>
     n \<le> length ids \<and> adds_runs ?I w n w') ?w1"
  proof (rule wp_mono[OF enqueue_all_adds], goal_cases)
    case (3 n w') then show ?case using sub by (auto intro: adds_runs_weaken)
  qed (use assms in simp_all)
  then have all: "wp (enqueue_all X S inst ids 0) (\<lambda>n w'. P n w') ?w1"
    if "\<And>n w'. invar (w_store w') \<and> fresh_ids w' \<and> n \<le> length ids \<and> adds_runs ?I w n w' \<Longrightarrow> P n w'" for P
    using that by (rule wp_mono) auto
  have w1: "?w1\<lparr>w_store := w_store w\<rparr> = ?w1" by simp
  show ?thesis
  proof (cases "env_flag (w_env w) ''CHRONON_DISABLE_COORDINATOR'' \<or>
      env_flag (w_env w) ''CHRONON_INTERACTIVE'' \<or> as_owned a = []")
    case True
    with assms none show ?thesis
      by (auto simp: run_one_tick_def wp_simps Let_def owned_partitions_def)
  next
    case run: False
    show ?thesis
    proof (cases "ids = []")
      case True
      with run ids m assms none show ?thesis
        by (simp add: run_one_tick_def wp_simps Let_def owned_partitions_def wp_call_eq)
    next
      case False
      with run ids m all show ?thesis
        by (simp add: run_one_tick_def wp_simps Let_def owned_partitions_def wp_call_eq)
    qed
  qed
qed

end

end
