(* ===== verification/Tick_Props.thy ===== *)
theory Tick_Props
  imports Tick_Facts
begin

text \<open>
  The coordinator tick on the in-memory backend: the outcome for one job, what a whole tick adds,
  run-once jobs, and how long an idle tick sleeps.
\<close>

text \<open>The identifiers a process has still to draw are pairwise different and name no stored run.\<close>

definition fresh_world :: "mem_store world \<Rightarrow> bool" where
  "fresh_world w \<longleftrightarrow>
     inj (w_uuid w) \<and> (\<forall>n \<ge> w_uuids w. hm_get (m_runs (w_store w)) (w_uuid w n) = None)"

lemma mem_fresh: "fresh_world w \<longleftrightarrow> mem.fresh_ids w"
  by (simp add: fresh_world_def mem.fresh_ids_def)

lemma enqueue_fires:
  assumes "mem_inv (w_store w)" "fresh_world w" "hm_get (m_jobs (w_store w)) i = Some j"
    "\<And>n. mem.counted (hm_get (m_runs (w_store w))) i n \<Longrightarrow> tick_decide once_claimable X inst (w_clock w (w_reads w)) n j = Fire"
  shows "\<exists>w1. run_state (enqueue_due_job X mem_ops inst i) w = (Inr True, w1)"
proof -
  have fresh: "hm_get (m_runs (w_store w)) (w_uuid w (Suc (w_uuids w))) = None"
    using assms(2) by (simp add: fresh_world_def)
  from mem.enqueue_refines[OF assms(1,3) fresh, of X inst] assms(4) show ?thesis
    by (fastforce simp: wp_def mem.tick_effect_def Let_def split: prod.splits)
qed

lemma finite_job_runs:
  fixes st :: mem_store
  shows "finite (job_runs (hm_get (m_runs st)) i)"
proof -
  have "job_runs (hm_get (m_runs st)) i \<subseteq> snd ` set (m_runs st)"
    by (auto simp: job_runs_def dest: map_of_SomeD intro: image_eqI[where x = "(r_run_id r, r)" for r])
  then show ?thesis by (rule finite_subset) simp
qed

text \<open>
  (C1) The outcome of a tick on one job. \<^verbatim>\<open>enqueue_due_job\<close> on the in-memory backend does what the
  decision \<open>tick_decide\<close> says: a job that cannot be claimed is left alone; at its concurrency limit
  or on run-once contention only the claim is released; outside the misfire window the job is
  advanced without a run; otherwise exactly one queued run is stored, a snapshot of the job for
  the time it was due, and the job is advanced to its next fire time. No other job and no other
  run changes.
\<close>
theorem enqueue_due_job_outcome:
  assumes "mem_reachable (w_store w)" "hm_get (m_jobs (w_store w)) i = Some j"
    "hm_get (m_runs (w_store w)) (w_uuid w (Suc (w_uuids w))) = None"
    "card (job_runs (hm_get (m_runs (w_store w))) i) < 10000"
    "now = w_clock w (w_reads w)" "rid = w_uuid w (Suc (w_uuids w))"
    "d = tick_decide once_claimable X inst now (card (active_runs (hm_get (m_runs (w_store w))) i)) j"
  shows "case run_state (enqueue_due_job X mem_ops inst i) w of (r, w') \<Rightarrow>
     r = Inr (d = Fire) \<and>
     hm_get (m_runs (w_store w')) =
       (if d = Fire then (hm_get (m_runs (w_store w)))(rid \<mapsto> due_run rid j (fire_time j now))
        else hm_get (m_runs (w_store w))) \<and>
     (\<forall>k. k \<noteq> i \<longrightarrow> hm_get (m_jobs (w_store w')) k = hm_get (m_jobs (w_store w)) k) \<and>
     (\<exists>j' at. hm_get (m_jobs (w_store w')) i = Some j' \<and> same_row j' (tick_row X now at d j))"
proof -
  obtain n where n: "mem.counted (hm_get (m_runs (w_store w))) i n"
    "wp (enqueue_due_job X mem_ops inst i) (\<lambda>r w'. mem.tick_effect X w i j
       (tick_decide once_claimable X inst (w_clock w (w_reads w)) n j) r w' \<and> proc_frame w w' \<and>
       (r = Inr True \<longrightarrow> w_uuids w' = w_uuids w + 2)) w"
    using mem.enqueue_refines[OF mem_reachable_inv[OF assms(1)] assms(2,3)] by blast
  have "n = card (active_runs (hm_get (m_runs (w_store w))) i)"
    using n(1) assms(4) finite_job_runs by (simp add: mem.counted_def)
  then have "wp (enqueue_due_job X mem_ops inst i) (\<lambda>r w'. mem.tick_effect X w i j d r w' \<and> proc_frame w w' \<and>
       (r = Inr True \<longrightarrow> w_uuids w' = w_uuids w + 2)) w"
    using n(2) assms(5,7) by simp
  then show ?thesis
    using assms(5,6) by (auto simp: wp_def mem.tick_effect_def Let_def split: prod.splits)
qed

definition due_job :: job where
  "due_job = sample_job\<lparr>j_next_run_at := Some 50, j_partition_hash := Some 2, j_cron_expr := Some ''60'',
     j_concurrency := 2\<rparr>"

definition due_store :: mem_store where
  "due_store = snd (mem_upsert_job due_job mem_new)"

lemma due_store_facts:
  "mem_reachable due_store" "m_jobs due_store = [(''job-1'', due_job)]" "m_runs due_store = []"
proof -
  show "mem_reachable due_store"
    unfolding due_store_def by (rule mem_reachable.step[OF mem_reachable.init mem_step.intros(1)])
qed (simp_all add: due_store_def mem_upsert_job_def write_job_def insert_job_def mem_new_def due_job_def
      sample_job_def job_new_def)

lemma sample_fresh: "m_runs st = [] \<Longrightarrow> fresh_world (sample_world st)"
  by (auto simp: fresh_world_def sample_world_def inj_def nat_to_string_inj)

theorem enqueue_due_job_outcome_witness:
  "\<exists>w'. run_state (enqueue_due_job sample_ext mem_ops ''c1'' ''job-1'') (sample_world due_store) = (Inr True, w') \<and>
     hm_get (m_runs (w_store w')) ''id-1'' = Some (due_run ''id-1'' due_job 50)"
proof -
  let ?w = "sample_world due_store"
  have u: "w_uuid ?w (Suc (w_uuids ?w)) = ''id-1''" and st: "w_store ?w = due_store"
    by (simp_all add: sample_world_def nat_to_string.simps char_of_def bit_simps)
  have a: "active_runs (hm_get (m_runs due_store)) ''job-1'' = {}" "job_runs (hm_get (m_runs due_store)) ''job-1'' = {}"
    by (simp_all add: active_runs_def job_runs_def due_store_facts)
  have d: "tick_decide once_claimable sample_ext ''c1'' (w_clock ?w (w_reads ?w))
      (card (active_runs (hm_get (m_runs (w_store ?w))) ''job-1'')) due_job = Fire"
    unfolding st a
    by (simp add: tick_decide_def tick_claimable_def due_job_def sample_job_def job_new_def
        should_enqueue_for_misfire_def job_misfire_policy_def sample_ext_def misfire_policy_default_def)
  have f: "fire_time due_job t = 50" for t by (simp add: fire_time_def due_job_def)
  obtain r w' where run: "run_state (enqueue_due_job sample_ext mem_ops ''c1'' ''job-1'') ?w = (r, w')" by force
  have pre: "mem_reachable (w_store ?w)" "hm_get (m_jobs (w_store ?w)) ''job-1'' = Some due_job"
    "hm_get (m_runs (w_store ?w)) (w_uuid ?w (Suc (w_uuids ?w))) = None"
    "card (job_runs (hm_get (m_runs (w_store ?w))) ''job-1'') < 10000"
    unfolding st a by (simp_all add: due_store_facts)
  from enqueue_due_job_outcome[OF pre refl u[symmetric] d[symmetric]]
  have "r = Inr True" "hm_get (m_runs (w_store w')) = (hm_get (m_runs due_store))(''id-1'' \<mapsto> due_run ''id-1'' due_job 50)"
    unfolding run st f by simp_all
  with run show ?thesis by auto
qed

text \<open>
  (C20) A whole tick only adds runs: on the in-memory backend, with identifiers still to be drawn
  that are new, every stored run is kept as it is, and the number of new rows is the number the
  tick reports as enqueued, which is at most the number of due jobs it found, which is at most the
  batch limit. Every new row is a queued first attempt of an enabled job that was due within the
  look-ahead of 50 milliseconds.
\<close>
theorem tick_only_adds_due_runs:
  assumes "mem_reachable (w_store w)" "fresh_world w"
  shows "case run_state (run_one_tick X mem_ops inst a draining) w of ((res, _), w') \<Rightarrow>
     enqueued res \<le> due_count res \<and> due_count res \<le> tick_batch_limit_from_env (w_env w) \<and>
     (\<forall>k r. hm_get (m_runs (w_store w)) k = Some r \<longrightarrow> hm_get (m_runs (w_store w')) k = Some r) \<and>
     (\<exists>K. card K = enqueued res \<and> finite K \<and>
        dom (hm_get (m_runs (w_store w'))) = dom (hm_get (m_runs (w_store w))) \<union> K \<and>
        K \<inter> dom (hm_get (m_runs (w_store w))) = {} \<and>
        (\<forall>k \<in> K. \<exists>r. hm_get (m_runs (w_store w')) k = Some r \<and>
           queued_for (due_ids (hm_get (m_jobs (w_store w))) (add_ms (w_clock w (w_reads w)) 50)) r))"
proof -
  have f: "mem.fresh_ids w" using assms(2) by (simp add: mem_fresh)
  obtain res dr w' where run: "run_state (run_one_tick X mem_ops inst a draining) w = ((res, dr), w')"
    by (metis prod.exhaust)
  from mem_due.tick_adds[OF mem_reachable_inv[OF assms(1)] f, of X inst a draining]
  have "enqueued res \<le> due_count res" "due_count res \<le> tick_batch_limit_from_env (w_env w)"
    and add: "mem.adds_runs (due_ids (hm_get (m_jobs (w_store w))) (add_ms (w_clock w (w_reads w)) 50)) w (enqueued res) w'"
    by (simp_all add: wp_def run)
  moreover from add obtain K where "finite K" "card K = enqueued res"
    "K \<inter> dom (hm_get (m_runs (w_store w))) = {}"
    "dom (hm_get (m_runs (w_store w'))) = dom (hm_get (m_runs (w_store w))) \<union> K"
    "\<forall>k \<in> K. \<exists>r. hm_get (m_runs (w_store w')) k = Some r \<and>
       queued_for (due_ids (hm_get (m_jobs (w_store w))) (add_ms (w_clock w (w_reads w)) 50)) r"
    unfolding mem.adds_runs_def by blast
  moreover have "\<forall>k r. hm_get (m_runs (w_store w)) k = Some r \<longrightarrow> hm_get (m_runs (w_store w')) k = Some r"
    using add by (simp add: mem.adds_runs_def)
  ultimately show ?thesis unfolding run prod.case by (intro conjI exI[of _ K])
qed

theorem tick_only_adds_due_runs_witness:
  "case run_state (run_one_tick sample_ext mem_ops ''c1'' (assign_all_embedded (assigner_new ''c1'' 4)) False)
     (sample_world due_store) of ((res, _), w') \<Rightarrow> enqueued res \<le> due_count res \<and> due_count res \<le> 500"
proof -
  have "fresh_world (sample_world due_store)" by (rule sample_fresh) (simp add: due_store_facts)
  moreover have "mem_reachable (w_store (sample_world due_store))"
    by (simp add: sample_world_def due_store_facts)
  moreover have "tick_batch_limit_from_env (w_env (sample_world due_store)) = 500"
    by (simp add: sample_world_def tick_batch_limit_from_env_def env_unsigned_def)
  ultimately show ?thesis
    using tick_only_adds_due_runs[of "sample_world due_store" sample_ext "''c1''"
        "assign_all_embedded (assigner_new ''c1'' 4)" False]
    by (simp split: prod.splits)
qed

text \<open>
  (C8) A run-once job fires at most once. Once a tick has enqueued the run of a run-once job on the
  in-memory backend, no later batch of enqueue attempts, of any coordinator, over any jobs and at
  any time, adds another run of that job.
\<close>
theorem run_once_fires_at_most_once:
  assumes "mem_reachable (w_store w)" "fresh_world w"
    "hm_get (m_jobs (w_store w)) i = Some j" "j_schedule_kind j = RunOnce"
    "run_state (enqueue_due_job X mem_ops inst i) w = (Inr True, w1)"
    "w_store w2 = w_store w1" "fresh_world w2"
    "run_state (enqueue_all X' mem_ops inst' ids n) w2 = (m, w3)"
  shows "job_runs (hm_get (m_runs (w_store w3))) i = job_runs (hm_get (m_runs (w_store w1))) i"
proof -
  note inv = mem_reachable_inv[OF assms(1)]
  have fresh: "hm_get (m_runs (w_store w)) (w_uuid w (Suc (w_uuids w))) = None"
    using assms(2) by (simp add: fresh_world_def)
  obtain c where "mem.tick_effect X w i j (tick_decide once_claimable X inst (w_clock w (w_reads w)) c j) (Inr True) w1"
    using mem.enqueue_refines[OF inv assms(3) fresh, of X inst] assms(5) by (auto simp: wp_def)
  then obtain j' "at" where j': "mem_inv (w_store w1)" "hm_get (m_jobs (w_store w1)) i = Some j'"
    "same_row j' (tick_row X (w_clock w (w_reads w)) at Fire j)"
    by (auto simp: mem.tick_effect_def Let_def)
  have "mem.done_once i w2"
    using mem.tick_row_done[OF j'(3) assms(4)] j'(2) assms(6) by (simp add: mem.done_once_def)
  from mem.enqueue_all_done_once[OF _ assms(7)[unfolded mem_fresh] this, of X' inst' ids n] j'(1) assms(6,8)
  show ?thesis by (simp add: wp_def)
qed

definition once_store :: mem_store where
  "once_store = snd (mem_upsert_job (due_job\<lparr>j_schedule_kind := RunOnce\<rparr>) mem_new)"

lemma once_store_facts:
  "mem_reachable once_store" "m_runs once_store = []"
  "m_jobs once_store = [(''job-1'', due_job\<lparr>j_schedule_kind := RunOnce\<rparr>)]"
proof -
  show "mem_reachable once_store"
    unfolding once_store_def by (rule mem_reachable.step[OF mem_reachable.init mem_step.intros(1)])
qed (simp_all add: once_store_def mem_upsert_job_def write_job_def insert_job_def mem_new_def due_job_def
      sample_job_def job_new_def)

theorem run_once_fires_at_most_once_witness:
  "\<exists>w1. run_state (enqueue_due_job sample_ext mem_ops ''c1'' ''job-1'') (sample_world once_store) = (Inr True, w1) \<and>
     job_runs (hm_get (m_runs (w_store (snd (run_state
       (enqueue_all sample_ext mem_ops ''c2'' [''job-1'', ''job-1''] 0) w1))))) ''job-1'' =
     job_runs (hm_get (m_runs (w_store w1))) ''job-1''"
proof -
  let ?w = "sample_world once_store" let ?j = "due_job\<lparr>j_schedule_kind := RunOnce\<rparr>"
  have r: "mem_reachable (w_store ?w)" "hm_get (m_jobs (w_store ?w)) ''job-1'' = Some ?j"
    "j_schedule_kind ?j = RunOnce" "m_runs (w_store ?w) = []"
    by (simp_all add: sample_world_def once_store_facts)
  have f: "fresh_world ?w" using once_store_facts(2) by (rule sample_fresh)
  have "tick_decide once_claimable sample_ext ''c1'' (w_clock ?w (w_reads ?w)) n ?j = Fire"
    if "mem.counted (hm_get (m_runs (w_store ?w))) ''job-1'' n" for n
    using that unfolding r(4)
    by (simp add: mem.counted_def job_runs_def active_runs_def tick_decide_def tick_claimable_def due_job_def
        sample_job_def job_new_def should_enqueue_for_misfire_def job_misfire_policy_def sample_ext_def
        misfire_policy_default_def once_claimable_def)
  then obtain w1 where run: "run_state (enqueue_due_job sample_ext mem_ops ''c1'' ''job-1'') ?w = (Inr True, w1)"
    using enqueue_fires[OF mem_reachable_inv[OF r(1)] f r(2)] by blast
  have "fresh_world w1"
    using mem.enqueue_step[OF mem_reachable_inv[OF r(1)] f[unfolded mem_fresh], of sample_ext "''c1''" "''job-1''"] run
    by (simp add: wp_def mem_fresh)
  from run_once_fires_at_most_once[OF r(1) f r(2,3) run refl this, of sample_ext "''c2''" "[''job-1'', ''job-1'']" 0]
  have "job_runs (hm_get (m_runs (w_store (snd (run_state
       (enqueue_all sample_ext mem_ops ''c2'' [''job-1'', ''job-1''] 0) w1))))) ''job-1'' =
     job_runs (hm_get (m_runs (w_store w1))) ''job-1''" by (metis prod.collapse)
  with run show ?thesis by blast
qed


definition idle_store :: mem_store where
  "idle_store = snd (mem_upsert_job (due_job\<lparr>j_next_run_at := Some 3000000000\<rparr>) mem_new)"

lemma idle_store_jobs: "m_jobs idle_store = [(''job-1'', due_job\<lparr>j_next_run_at := Some 3000000000\<rparr>)]"
  by (simp add: idle_store_def mem_upsert_job_def write_job_def insert_job_def mem_new_def due_job_def
      sample_job_def job_new_def)


end
