(* ===== verification/Worker.thy ===== *)
theory Worker
  imports Lifecycle Partitioning
begin

text \<open>
  The worker side of \<^verbatim>\<open>chronon-runtime\<close>: the slot loop that claims, executes and finalises runs, the
  lease renewal beside it, the heartbeat (\<^verbatim>\<open>worker.rs\<close>) and the reclaim loop (\<^verbatim>\<open>reclaim.rs\<close>).

  What the scheduler of the async runtime decides is an observation passed to the model: whether
  the timeout elapsed first, whether the handler task was cancelled, and what other tasks and
  processes did to the store while the script ran (the renewal task included). A loop runs over
  its observations before the shutdown notification.
\<close>

section \<open>Executing one claimed run\<close>

record 's observation =
  ob_timed_out :: bool
  ob_cancelled :: bool
  ob_during :: "'s \<Rightarrow> 's"

text \<open>
  The handler task of \<^verbatim>\<open>execute_script_catch_panic\<close>: a panic and a cancellation become errors.
\<close>

definition execute_script_catch_panic ::
  "'s executor \<Rightarrow> bool \<Rightarrow> execute_request \<Rightarrow> ('s, execute_outcome) proc" where
  "execute_script_catch_panic ex cancelled q =
     (if cancelled
      then ret \<lparr>o_result = Inl (Internal ''handler task cancelled''), o_logs = no_logs\<rparr>
      else do {
        out \<leftarrow> execute_script ex q;
        ret (case out of
               Some outcome \<Rightarrow> outcome
             | None \<Rightarrow> \<lparr>o_result = Inl (Internal ''handler panicked''), o_logs = no_logs\<rparr>) })"

definition worker_request :: "job \<Rightarrow> run \<Rightarrow> execute_request" where
  "worker_request job run =
     \<lparr>q_script_name = r_script_name run, q_actor_json = r_actor_json run,
      q_params_json = r_params_json run, q_job_name = j_job_name job, q_run_id = r_run_id run\<rparr>"

definition outcome_status :: "execute_outcome \<Rightarrow> ((run_status \<times> string) + unit) \<times> captured_logs" where
  "outcome_status out =
     (case o_result out of
        Inr _ \<Rightarrow> (Inr (), o_logs out)
      | Inl e \<Rightarrow> (Inl (Failed, error_to_string e), o_logs out))"

text \<open>
  The \<^verbatim>\<open>match job.timeout_ms\<close>. When the timeout elapses first the result of the handler is lost;
  what it still does to the store belongs to \<open>ob_during\<close>.
\<close>

definition execute_with_timeout ::
  "'s executor \<Rightarrow> 's observation \<Rightarrow> job \<Rightarrow> run \<Rightarrow>
   ('s, ((run_status \<times> string) + unit) \<times> captured_logs) proc" where
  "execute_with_timeout ex obs job run =
     (case j_timeout_ms job of
        Some ms \<Rightarrow>
          if ms > 0 \<and> ob_timed_out obs
          then ret (Inl (Timeout, ''run exceeded timeout_ms='' @ nat_to_string (nat ms)), no_logs)
          else do { out \<leftarrow> execute_script_catch_panic ex (ob_cancelled obs) (worker_request job run);
                    ret (outcome_status out) }
      | None \<Rightarrow> do {
          out \<leftarrow> execute_script_catch_panic ex (ob_cancelled obs) (worker_request job run);
          ret (outcome_status out) })"

text \<open>The \<^verbatim>\<open>match status_result\<close> at the end of the body of \<^verbatim>\<open>worker_slot\<close>.\<close>

fun conclude_run ::
  "('sc, 'tz) ext \<Rightarrow> 's scheduler_store \<Rightarrow> job \<Rightarrow> run \<Rightarrow> int \<Rightarrow>
   ((run_status \<times> string) + unit) \<times> captured_logs \<Rightarrow> ('s, unit option) proc" where
  "conclude_run X S job run duration_ms (Inr _, logs) =
     do {
       finished \<leftarrow> utc_now;
       let run2 = apply_logs logs ((run_complete finished run)\<lparr>r_duration_ms := Some duration_ms\<rparr>);
       emit (Counter ''chronon_runs_completed'' [(''job'', j_job_name job)] 1);
       call (so_update_run S run2);
       ret (Some ()) }"
| "conclude_run X S job run duration_ms (Inl (status, err), logs) =
     do {
       emit (Counter ''chronon_runs_failed'' [(''job'', j_job_name job)] 1);
       finalize_failed_run X S (run\<lparr>r_duration_ms := Some duration_ms\<rparr>) job status err (Some logs) }"

text \<open>The body of \<^verbatim>\<open>worker_slot\<close> after the claim and the job lookup.\<close>

definition work_run ::
  "('sc, 'tz) ext \<Rightarrow> 's scheduler_store \<Rightarrow> 's executor \<Rightarrow> 's observation \<Rightarrow> job \<Rightarrow> run \<Rightarrow>
   ('s, unit option) proc" where
  "work_run X S ex obs job run =
     do {
       t \<leftarrow> utc_now;
       let run1 = (run_start t run)\<lparr>r_status := Running\<rparr>;
       updated \<leftarrow> call (so_update_run S run1);
       case updated of
         Inl _ \<Rightarrow> ret (Some ())
       | Inr _ \<Rightarrow> do {
           call (\<lambda>s. ((), ob_during obs s));
           started \<leftarrow> utc_now;
           result \<leftarrow> execute_with_timeout ex obs job run1;
           ended \<leftarrow> utc_now;
           conclude_run X S job run1 (num_milliseconds (ended - started)) result } }"

definition fail_claimed :: "'s scheduler_store \<Rightarrow> string \<Rightarrow> run \<Rightarrow> ('s, unit option) proc" where
  "fail_claimed S msg run =
     do { t \<leftarrow> utc_now; call (so_update_run S (run_fail t msg run)); ret (Some ()) }"

text \<open>One iteration of \<^verbatim>\<open>worker_slot\<close>; \<open>None\<close> is a panic, which ends the slot.\<close>

definition worker_iteration ::
  "('sc, 'tz) ext \<Rightarrow> 's scheduler_store \<Rightarrow> 's executor \<Rightarrow> 's observation \<Rightarrow> string \<Rightarrow> string \<Rightarrow>
   ('s, unit option) proc" where
  "worker_iteration X S ex obs pool worker_id =
     do {
       env \<leftarrow> env_vars;
       if env_flag env ''CHRONON_DISABLE_WORKER'' \<or> env_flag env ''CHRONON_INTERACTIVE''
       then do { sleep_ms 30000; ret (Some ()) }
       else do {
         now \<leftarrow> utc_now;
         let ttl = run_worker_lease_ttl_secs env;
         claimed \<leftarrow> call (so_claim_next_queued S pool worker_id now ttl);
         case claimed of
           Inr (Some run) \<Rightarrow>
             (case r_job_id run of
                None \<Rightarrow> fail_claimed S ''missing job_id'' run
              | Some job_id \<Rightarrow> do {
                  found \<leftarrow> call (so_get_job S job_id);
                  case found of
                    Inr (Some job) \<Rightarrow> work_run X S ex obs job run
                  | _ \<Rightarrow> fail_claimed S ''job not found'' run })
         | _ \<Rightarrow> do { sleep_ms 50; ret (Some ()) } } }"

primrec worker_slot ::
  "('sc, 'tz) ext \<Rightarrow> 's scheduler_store \<Rightarrow> 's executor \<Rightarrow> string \<Rightarrow> string \<Rightarrow> 's observation list \<Rightarrow>
   ('s, unit option) proc" where
  "worker_slot X S ex pool worker_id [] = ret (Some ())"
| "worker_slot X S ex pool worker_id (obs # rest) =
     do { r \<leftarrow> worker_iteration X S ex obs pool worker_id;
          case r of None \<Rightarrow> ret None | Some _ \<Rightarrow> worker_slot X S ex pool worker_id rest }"

section \<open>Lease renewal, reclaim and heartbeat\<close>

text \<open>
  The renewal task: one renewal per interval until one fails, at most \<open>n\<close> before it is aborted with
  the run (\<^verbatim>\<open>AbortOnDrop\<close> in \<^verbatim>\<open>lease_guard.rs\<close>).
\<close>

primrec renew_loop :: "'s scheduler_store \<Rightarrow> string \<Rightarrow> string \<Rightarrow> nat \<Rightarrow> ('s, unit) proc" where
  "renew_loop S run_id worker_id 0 = ret ()"
| "renew_loop S run_id worker_id (Suc n) =
     do {
       env \<leftarrow> env_vars;
       sleep_ms (1000 * run_worker_lease_renew_secs env);
       now \<leftarrow> utc_now;
       r \<leftarrow> call (so_renew_run_lease S run_id worker_id now (run_worker_lease_ttl_secs env));
       if unwrap_or False r then renew_loop S run_id worker_id n else ret () }"

primrec run_reclaim_loop :: "'s scheduler_store \<Rightarrow> nat \<Rightarrow> ('s, unit) proc" where
  "run_reclaim_loop S 0 = ret ()"
| "run_reclaim_loop S (Suc n) =
     do {
       sleep_ms 15000;
       now \<leftarrow> utc_now;
       call (so_reclaim_expired_run_leases S now);
       run_reclaim_loop S n }"

text \<open>
  \<^verbatim>\<open>char::is_alphanumeric\<close> outside ASCII is a table of the Unicode standard, here the argument
  \<open>unicode_alnum\<close> on the bytes of one character.
\<close>

fun split_chars :: "string \<Rightarrow> string list" where
  "split_chars [] = []"
| "split_chars (c # s) =
     (case split_chars s of
        [] \<Rightarrow> [[c]]
      | x # xs \<Rightarrow> if x \<noteq> [] \<and> is_cont (hd x) then (c # x) # xs else [c] # x # xs)"

definition char_alphanumeric :: "(string \<Rightarrow> bool) \<Rightarrow> string \<Rightarrow> bool" where
  "char_alphanumeric unicode_alnum ch =
     (case ch of [b] \<Rightarrow> if is_ascii b then is_ascii_alphanumeric b else unicode_alnum ch
      | _ \<Rightarrow> unicode_alnum ch)"

definition worker_row_id :: "(string \<Rightarrow> bool) \<Rightarrow> string \<Rightarrow> string" where
  "worker_row_id unicode_alnum worker_id =
     (let s = concat (take 200
                (map (\<lambda>c. if char_alphanumeric unicode_alnum c then c else ''_'')
                  (split_chars worker_id)))
      in if s = [] then ''worker'' else s)"

definition heartbeat_worker ::
  "(string \<Rightarrow> bool) \<Rightarrow> 's scheduler_store \<Rightarrow> string \<Rightarrow> string \<Rightarrow> ('s, unit) proc" where
  "heartbeat_worker unicode_alnum S worker_id pool =
     do {
       now \<leftarrow> utc_now;
       let row_id = worker_row_id unicode_alnum worker_id;
       let worker = \<lparr>k_worker_id = row_id, k_pool_id = pool, k_cell_id = None, k_status = Online,
             k_last_heartbeat_at = now, k_capacity_json = None, k_created_at = now,
             k_updated_at = now\<rparr>;
       registered \<leftarrow> call (so_register_worker S worker);
       case registered of
         Inr _ \<Rightarrow> do { call (so_heartbeat_worker S row_id now); ret () }
       | Inl _ \<Rightarrow> ret () }"

text \<open>
  \<^verbatim>\<open>run_worker_loop\<close>: the identifiers of the slots it spawns, and its own heartbeat loop.
\<close>

definition worker_slot_ids :: "(string \<Rightarrow> string option) \<Rightarrow> string \<Rightarrow> string \<Rightarrow> string list" where
  "worker_slot_ids env instance_id pool_id =
     map (\<lambda>i. instance_id @ '':'' @ pool_id @ '':'' @ nat_to_string i)
       [0 ..< worker_concurrency_from_env env]"

primrec heartbeat_loop ::
  "(string \<Rightarrow> bool) \<Rightarrow> 's scheduler_store \<Rightarrow> string \<Rightarrow> string \<Rightarrow> nat \<Rightarrow> ('s, unit) proc" where
  "heartbeat_loop unicode_alnum S instance_id pool_id 0 = ret ()"
| "heartbeat_loop unicode_alnum S instance_id pool_id (Suc n) =
     do { heartbeat_worker unicode_alnum S (instance_id @ '':'' @ pool_id) pool_id;
          heartbeat_loop unicode_alnum S instance_id pool_id n }"

end
