(* ===== verification/Worker_Props.thy ===== *)
theory Worker_Props
  imports Worker Lifecycle_Props
begin

text \<open>
  Properties of the worker: a claimed run is ended by the iteration that claimed it, whatever other
  processes do meanwhile, and what that costs when the lease was lost.
\<close>

section \<open>Facts in the contract of the store\<close>

text \<open>
  What host code is relied on for: it keeps the given property of the process state, and its error
  texts can be redacted.
\<close>

definition handlers_keep ::
  "'s executor \<Rightarrow> 's observation \<Rightarrow> job \<Rightarrow> run \<Rightarrow> ('s world \<Rightarrow> bool) \<Rightarrow> bool" where
  "handlers_keep ex obs job run P \<longleftrightarrow>
     (\<forall>w. P w \<longrightarrow> wp (execute_with_timeout ex obs job run) (\<lambda>res w'. P w' \<and>
        (\<forall>status err. fst res = Inl (status, err) \<longrightarrow> safe_message err \<noteq> None)) w)"

lemma handlers_keep_cong:
  assumes e: "worker_request job run = worker_request job run'"
  shows "handlers_keep ex obs job run P = handlers_keep ex obs job run' P"
  unfolding handlers_keep_def execute_with_timeout_def e ..

definition stored_run :: "('s \<Rightarrow> bool) \<Rightarrow> ('s \<Rightarrow> string \<Rightarrow> run option) \<Rightarrow> string \<Rightarrow> 's world \<Rightarrow> bool" where
  "stored_run invar runs_of i w \<longleftrightarrow>
     invar (w_store w) \<and> runs_of (w_store w) i \<noteq> None \<and> uuids_fresh (runs_of (w_store w)) w"

lemma stored_run_upd [simp]:
  "stored_run invar runs_of i (w\<lparr>w_reads := n\<rparr>) = stored_run invar runs_of i w"
  "stored_run invar runs_of i (w\<lparr>w_tele := t\<rparr>) = stored_run invar runs_of i w"
  "stored_run invar runs_of i (w\<lparr>w_sleeps := sl\<rparr>) = stored_run invar runs_of i w"
  by (simp_all add: stored_run_def uuids_fresh_def)

definition others_keep :: "('s world \<Rightarrow> bool) \<Rightarrow> ('s \<Rightarrow> 's) \<Rightarrow> bool" where
  "others_keep P f \<longleftrightarrow> (\<forall>w. P w \<longrightarrow> P (w\<lparr>w_store := f (w_store w)\<rparr>))"

context run_table
begin

abbreviation stored :: "string \<Rightarrow> 's world \<Rightarrow> bool" where
  "stored \<equiv> stored_run invar runs_of"

definition ended_row :: "run \<Rightarrow> 's world \<Rightarrow> bool" where
  "ended_row run w \<longleftrightarrow> (\<exists>r. runs_of (w_store w) (r_run_id run) = Some r \<and>
     is_terminal (r_status r) \<and> r_attempt r = r_attempt run)"

lemma update_ends:
  assumes "stored (r_run_id run) w" "r_run_id r = r_run_id run" "is_terminal (r_status r)"
    "r_attempt r = r_attempt run"
  shows "wp (call (so_update_run S r)) (\<lambda>a. ended_row run) w"
proof -
  have "runs_of (w_store w) (r_run_id r) \<noteq> None" "invar (w_store w)"
    using assms(1,2) by (auto simp: stored_run_def)
  from update_run_ok[OF this(2,1)] show ?thesis using assms by (auto simp: wp_call ended_row_def)
qed

lemma update_stored:
  assumes "stored i w" "r_run_id r = i"
  shows "wp (call (so_update_run S r)) (\<lambda>a w'. a = Inr () \<and> stored i w') w"
proof -
  have n: "runs_of (w_store w) (r_run_id r) \<noteq> None" "invar (w_store w)" and
    u: "uuids_fresh (runs_of (w_store w)) w"
    using assms by (auto simp: stored_run_def)
  from update_run_ok[OF n(2,1)] obtain s' where s': "so_update_run S r (w_store w) = (Inr (), s')"
    "invar s'" "runs_of s' = (runs_of (w_store w))(i \<mapsto> r)" using assms(2) by auto
  with u n assms(2) show ?thesis by (auto simp: wp_call stored_run_def uuids_fresh_def)
qed

lemma finalize_ends:
  assumes "stored (r_run_id run) w" "safe_message err \<noteq> None"
  shows "wp (finalize_failed_run X S run job status err logs) (\<lambda>r w'. r = Some () \<and> ended_row run w') w"
proof -
  have w: "invar (w_store w)" "runs_of (w_store w) (r_run_id run) \<noteq> None"
    "uuids_fresh (runs_of (w_store w)) w" using assms(1) by (auto simp: stored_run_def)
  then have "runs_of (w_store w) (w_uuid w (w_uuids w)) = None"
    and "w_uuid w (w_uuids w) \<noteq> r_run_id run" by (auto simp: uuids_fresh_def)
  moreover obtain m where "safe_message err = Some m" using assms(2) by blast
  ultimately show ?thesis
    by (intro wp_mono[OF finalize_effect[OF w(1,2)]])
      (auto simp: ended_row_def Let_def is_terminal_def)
qed

lemma conclude_ends:
  assumes st: "stored (r_run_id run) w"
    and safe: "\<And>status err. fst result = Inl (status, err) \<Longrightarrow> safe_message err \<noteq> None"
  shows "wp (conclude_run X S job run d result) (\<lambda>r w'. r = Some () \<and> ended_row run w') w"
proof -
  obtain res logs where r: "result = (res, logs)" by fastforce
  show ?thesis
  proof (cases res)
    case (Inr u)
    show ?thesis
      unfolding r Inr conclude_run.simps wp_simps Let_def
      by (rule wp_mono[OF update_ends[where run = run]])
        (use st in \<open>simp_all add: run_change_defs is_terminal_def\<close>)
  next
    case (Inl a)
    then obtain status err where a: "res = Inl (status, err)" by (metis prod.exhaust)
    have "wp (finalize_failed_run X S (run\<lparr>r_duration_ms := Some d\<rparr>) job status err (Some logs))
        (\<lambda>r w'. r = Some () \<and> ended_row run w') (w\<lparr>w_tele := t\<rparr>)" for t
      using finalize_ends[of "run\<lparr>r_duration_ms := Some d\<rparr>" "w\<lparr>w_tele := t\<rparr>" err] st safe a r
      by (simp add: ended_row_def)
    then show ?thesis unfolding r a conclude_run.simps wp_simps .
  qed
qed

lemma work_run_ends:
  assumes st: "stored (r_run_id run) w"
    and others: "others_keep (stored (r_run_id run)) (ob_during obs)"
    and host: "handlers_keep ex obs job run (stored (r_run_id run))"
  shows "wp (work_run X S ex obs job run) (\<lambda>r w'. r = Some () \<and> ended_row run w') w"
proof -
  let ?i = "r_run_id run" and ?Q = "\<lambda>r w'. r = Some () \<and> ended_row run w'"
  define run1 where "run1 t = (run_start t run)\<lparr>r_status := Running\<rparr>" for t
  have id: "r_run_id (run1 t) = ?i" "ended_row (run1 t) = ended_row run" for t
    by (auto simp: run1_def run_start_def ended_row_def fun_eq_iff)
  have conc: "wp (conclude_run X S job (run1 t) d res) ?Q w'"
    if "stored ?i w'" "\<And>status err. fst res = Inl (status, err) \<Longrightarrow> safe_message err \<noteq> None" for w' d res t
    using conclude_ends[of "run1 t" w' res X job d] that by (simp add: id)
  have exec: "wp (execute_with_timeout ex obs job (run1 t)) (\<lambda>res w'. stored ?i w' \<and>
      (\<forall>status err. fst res = Inl (status, err) \<longrightarrow> safe_message err \<noteq> None)) w'"
    if "stored ?i w'" for w' t
  proof -
    have "worker_request job (run1 t) = worker_request job run"
      by (simp add: worker_request_def run1_def run_start_def)
    then have "handlers_keep ex obs job (run1 t) (stored ?i)" using host handlers_keep_cong by blast
    then show ?thesis using that by (simp add: handlers_keep_def)
  qed
  have upd: "wp (call (so_update_run S (run1 t))) (\<lambda>a w'. a = Inr () \<and> stored ?i w') (w\<lparr>w_reads := n\<rparr>)" for t n
    using update_stored[of ?i "w\<lparr>w_reads := n\<rparr>" "run1 t"] st by (simp add: id)
  have body: "wp (do { call (\<lambda>s. ((), ob_during obs s)); started \<leftarrow> utc_now;
        result \<leftarrow> execute_with_timeout ex obs job (run1 t); ended \<leftarrow> utc_now;
        conclude_run X S job (run1 t) (num_milliseconds (ended - started)) result }) ?Q w'"
    if "stored ?i w'" for w' t
  proof -
    have "stored ?i (w'\<lparr>w_store := ob_during obs (w_store w')\<rparr>)"
      using others that by (auto simp: others_keep_def)
    then show ?thesis
      unfolding wp_bind wp_call prod.case wp_actions
      by (intro wp_mono[OF exec]) (auto intro!: conc)
  qed
  show ?thesis
    unfolding work_run_def Let_def wp_bind wp_actions run1_def[symmetric]
    by (rule wp_mono[OF upd]) (auto simp: wp_bind[symmetric] intro!: body)
qed

end

context run_claims
begin

lemma fail_claimed_ends:
  assumes "stored (r_run_id run) w"
  shows "wp (fail_claimed S msg run) (\<lambda>r w'. r = Some () \<and> ended_row run w') w"
  unfolding fail_claimed_def wp_simps
  by (rule wp_mono[OF update_ends[where run = run]])
    (use assms in \<open>simp_all add: is_terminal_def\<close>)

lemma iteration_ends:
  assumes inv: "invar (w_store w)" and fresh: "uuids_fresh (runs_of (w_store w)) w"
    and on: "\<not> env_flag (w_env w) ''CHRONON_DISABLE_WORKER''" "\<not> env_flag (w_env w) ''CHRONON_INTERACTIVE''"
    and claim: "so_claim_next_queued S pool wid (w_clock w (w_reads w))
        (run_worker_lease_ttl_secs (w_env w)) (w_store w) = (Inr (Some run), s1)"
    and others: "others_keep (stored (r_run_id run)) (ob_during obs)"
    and host: "\<And>job. handlers_keep ex obs job run (stored (r_run_id run))"
  shows "wp (worker_iteration X S ex obs pool wid) (\<lambda>r w'. r = Some () \<and> ended_row run w') w"
proof -
  note s1 = claim_next_Some[OF inv claim]
  have st: "stored (r_run_id run) (w\<lparr>w_reads := n, w_store := s1\<rparr>)" for n
    using s1 fresh by (auto simp: stored_run_def uuids_fresh_def)
  have inv1: "invar s1" using s1 by blast
  show ?thesis
    using on fail_claimed_ends[OF st] work_run_ends[OF st others host, where X = X]
    by (simp add: worker_iteration_def wp_simps Let_def wp_call claim get_job[OF inv1]
        split: option.splits)
qed

end

section \<open>Properties\<close>

abbreviation mem_stored :: "string \<Rightarrow> mem_store world \<Rightarrow> bool" where
  "mem_stored \<equiv> stored_run mem_inv (\<lambda>s. hm_get (m_runs s))"

text \<open>
  (C6) A worker makes progress. When a run of its pool is due on the in-memory backend, one iteration
  of an enabled slot claims a due run that is not later, and that row has ended when the iteration
  is over: with success, failure or timeout, whether or not its job still exists, and whatever other
  processes did to the store meanwhile, as long as they and the host code kept the row and the
  error text could be redacted.
\<close>
theorem worker_ends_due_run:
  assumes "mem_reachable (w_store w)" "uuids_fresh (hm_get (m_runs (w_store w))) w"
    and "\<not> env_flag (w_env w) ''CHRONON_DISABLE_WORKER''" "\<not> env_flag (w_env w) ''CHRONON_INTERACTIVE''"
    and "hm_get (m_runs (w_store w)) i = Some r0" "claim_eligible pool (w_clock w (w_reads w)) r0"
    and "\<And>k. others_keep (mem_stored k) (ob_during obs)"
    and "\<And>k r job. hm_get (m_runs (w_store w)) k = Some r \<Longrightarrow> handlers_keep ex obs job r (mem_stored k)"
    and "run_state (worker_iteration X mem_ops ex obs pool wid) w = (res, w')"
  shows "res = Some () \<and> (\<exists>k r r'. hm_get (m_runs (w_store w)) k = Some r \<and>
     claim_eligible pool (w_clock w (w_reads w)) r \<and> r_scheduled_for r \<le> r_scheduled_for r0 \<and>
     hm_get (m_runs (w_store w')) k = Some r' \<and> is_terminal (r_status r') \<and>
     r_attempt r' = r_attempt r)"
proof -
  let ?now = "w_clock w (w_reads w)" and ?ttl = "run_worker_lease_ttl_secs (w_env w)"
  have inv: "mem_inv (w_store w)" using assms(1) by (rule mem_reachable_inv)
  have "pick_candidate pool ?now None (m_runs (w_store w)) \<noteq> None"
    using pick_none_iff[OF inv, of pool ?now] assms(5,6) by blast
  then obtain k r where c: "pick_candidate pool ?now None (m_runs (w_store w)) = Some (k, r)" by auto
  note g = pick_candidate_get[OF inv c]
  have le: "r_scheduled_for r \<le> r_scheduled_for r0"
    using pick_earliest[OF inv c assms(5,6)] .
  have claim: "so_claim_next_queued mem_ops pool wid ?now ?ttl (w_store w) =
      (Inr (Some (mark_claimed wid ?now ?ttl r)),
       (w_store w)\<lparr>m_runs := hm_insert k (mark_claimed wid ?now ?ttl r) (m_runs (w_store w))\<rparr>)"
    using c by (simp add: mem_ops_def mem_claim_next_queued_def Let_def)
  have "worker_request job (mark_claimed wid ?now ?ttl r) = worker_request job r" for job
    by (simp add: worker_request_def mark_claimed_def)
  then have host: "handlers_keep ex obs job (mark_claimed wid ?now ?ttl r)
      (mem_stored (r_run_id (mark_claimed wid ?now ?ttl r)))" for job
    using assms(8)[of k r job] g handlers_keep_cong by (metis mark_claimed_sel(1))
  have "wp (worker_iteration X mem_ops ex obs pool wid)
      (\<lambda>a w'. a = Some () \<and> mem_runs.ended_row (mark_claimed wid ?now ?ttl r) w') w"
    by (rule mem_run_claims.iteration_ends[OF inv assms(2-4) claim assms(7) host])
  then have "res = Some ()" "mem_runs.ended_row (mark_claimed wid ?now ?ttl r) w'"
    using assms(9) by (auto simp: wp_def)
  with g le show ?thesis by (auto simp: mem_runs.ended_row_def mark_claimed_def)
qed

text \<open>A host with one script that fails, and a store with a job of it and a due run.\<close>

definition failing_executor :: "'s executor" where
  "failing_executor =
     executor_new (from_inventory [descriptor_new ''cleanup'' (\<lambda>_ _. ret ([], Some (Inl (Internal ''boom''))))])
       noop_context_factory noop_events 4"

definition work_store :: mem_store where
  "work_store = snd (mem_create_run (sample_run ''r1'' 5) (snd (mem_upsert_job sample_job mem_new)))"

lemma work_store_facts:
  "mem_reachable work_store" "m_runs work_store = [(''r1'', sample_run ''r1'' 5)]"
  "m_jobs work_store = [(''job-1'', sample_job)]"
proof -
  show "mem_reachable work_store"
    unfolding work_store_def
    by (intro mem_reachable.step[OF _ mem_step.intros(5)] mem_reachable.step[OF _ mem_step.intros(1)]
        mem_reachable.init)
qed (simp_all add: work_store_def mem_create_run_def mem_upsert_job_def write_job_def insert_job_def
    mem_new_def sample_run_def sample_job_def job_new_def)

lemma failing_registry:
  "registry_get (ex_registry failing_executor) n =
     (if n = ''cleanup''
      then Some (descriptor_new ''cleanup'' (\<lambda>_ _. ret ([], Some (Inl (Internal ''boom''))))) else None)"
  by (simp add: failing_executor_def executor_new_def from_inventory_def registry_new_def
      registry_get_register descriptor_with_signature_def descriptor_new_def)
    (simp add: registry_get_def)

lemma boom_safe: "safe_message ''internal error: boom'' = Some ''internal error: boom''"
  by code_simp

lemma failing_outcome:
  assumes "r_script_name run = ''cleanup''" "\<not> ob_timed_out obs" "\<not> ob_cancelled obs"
  shows "\<exists>logs t. run_state (execute_with_timeout failing_executor obs job run) w =
    ((Inl (Failed, ''internal error: boom''), logs), w\<lparr>w_tele := w_tele w @ [t]\<rparr>)"
proof -
  have p: "\<not> is_likely_param_error ''boom''" by code_simp
  have c: "capture_scope default_max_capture_bytes [] = Some no_logs"
    by (simp add: capture_scope_def capture_enter_def capture_new_def capture_finish_def drain_def
        opt_text_def no_logs_def)
  have x: "ex_context_factory failing_executor a = Inr \<lparr>ctx_label = ''noop'', ctx_actor_json = JNull\<rparr>"
    "ex_sink_events failing_executor = noop_events" for a
    by (simp_all add: failing_executor_def executor_new_def noop_context_factory_def)
  show ?thesis
    using assms p c
    by (auto simp: execute_with_timeout_def execute_script_catch_panic_def execute_script_def
        invoke_inner_def get_or_err_def failing_registry worker_request_def x descriptor_new_def
        record_executor_error_def world_simps noop_events_def outcome_status_def split: option.splits)
qed

definition quiet_obs :: "'s observation" where
  "quiet_obs = \<lparr>ob_timed_out = False, ob_cancelled = False, ob_during = id\<rparr>"

lemma quiet_handlers:
  assumes "r_script_name run = ''cleanup''"
  shows "handlers_keep failing_executor quiet_obs job run (stored_run invar runs_of k)"
proof -
  have "wp (execute_with_timeout failing_executor quiet_obs job run) (\<lambda>res w'. stored_run invar runs_of k w' \<and>
      (\<forall>status err. fst res = Inl (status, err) \<longrightarrow> safe_message err \<noteq> None)) w" if "stored_run invar runs_of k w" for w
    using failing_outcome[OF assms, of quiet_obs job w] that boom_safe
    by (auto simp: wp_run quiet_obs_def)
  then show ?thesis by (simp add: handlers_keep_def)
qed

theorem worker_ends_due_run_witness:
  "\<exists>r'. hm_get (m_runs (w_store (snd (run_state (worker_iteration sample_ext mem_ops failing_executor
       quiet_obs ''general'' ''w1'') (sample_world work_store))))) ''r1'' = Some r' \<and>
     is_terminal (r_status r') \<and> r_attempt r' = 1"
proof -
  let ?w = "sample_world work_store"
  have st: "w_store ?w = work_store" and env: "w_env ?w = (\<lambda>_. None)" and t: "w_clock ?w (w_reads ?w) = 100"
    by (simp_all add: sample_world_def)
  obtain res w' where r: "run_state (worker_iteration sample_ext mem_ops failing_executor quiet_obs
      ''general'' ''w1'') ?w = (res, w')" by fastforce
  have "\<exists>k r r'. hm_get (m_runs (w_store ?w)) k = Some r \<and>
     claim_eligible ''general'' (w_clock ?w (w_reads ?w)) r \<and>
     r_scheduled_for r \<le> r_scheduled_for (sample_run ''r1'' 5) \<and>
     hm_get (m_runs (w_store w')) k = Some r' \<and> is_terminal (r_status r') \<and> r_attempt r' = r_attempt r"
  proof (rule conjunct2[OF worker_ends_due_run[OF _ _ _ _ _ _ _ _ r]])
    show "mem_reachable (w_store ?w)" by (simp add: st work_store_facts)
    show "uuids_fresh (hm_get (m_runs (w_store ?w))) ?w"
      unfolding st by (rule sample_uuids_fresh) (simp add: work_store_facts)
    show "hm_get (m_runs (w_store ?w)) ''r1'' = Some (sample_run ''r1'' 5)"
      by (simp add: st work_store_facts)
    show "claim_eligible ''general'' (w_clock ?w (w_reads ?w)) (sample_run ''r1'' 5)"
      unfolding t by (simp add: claim_eligible_def sample_run_def run_for_job_def run_new_def
          is_some_and_def pool_ok_def)
    show "others_keep (mem_stored k) (ob_during quiet_obs)" for k
      by (simp add: others_keep_def quiet_obs_def)
    show "handlers_keep failing_executor quiet_obs job r (mem_stored k)"
      if "hm_get (m_runs (w_store ?w)) k = Some r" for k r job
      using that by (intro quiet_handlers) (auto simp: st work_store_facts sample_run_def split: if_splits)
  qed (simp_all add: env env_flag_def)
  then show ?thesis unfolding r by (auto simp: st work_store_facts sample_run_def split: if_splits)
qed

text \<open>
  Another worker that finds the lease expired: it reclaims, claims the run and completes it, at an
  instant well past the lease of the first worker.
\<close>

definition other_worker :: "mem_store \<Rightarrow> mem_store" where
  "other_worker s =
     (let t = 1000000000000; s1 = snd (mem_reclaim_expired_run_leases t s)
      in case mem_claim_next_queued ''general'' ''w2'' t 300 s1 of
           (Inr (Some r), s2) \<Rightarrow> snd (mem_update_run (run_complete (t + 2) (run_start (t + 1) r)) s2)
         | (_, s2) \<Rightarrow> s2)"

definition started_store :: mem_store where
  "started_store = work_store\<lparr>m_runs :=
     [(''r1'', (run_start 101 (mark_claimed ''w1'' 100 300 (sample_run ''r1'' 5)))\<lparr>r_status := Running\<rparr>)]\<rparr>"

lemma failing_wp:
  assumes "r_script_name run = ''cleanup''" "\<not> ob_timed_out obs" "\<not> ob_cancelled obs"
    and "\<And>logs t. Q (Inl (Failed, ''internal error: boom''), logs) (w\<lparr>w_tele := w_tele w @ [t]\<rparr>)"
  shows "wp (execute_with_timeout failing_executor obs job run) Q w"
  using failing_outcome[OF assms(1-3), of job w] assms(4) by (auto simp: wp_run)

lemma sample_run_claim:
  "mem_claim_next_queued ''general'' wid t 300 (work_store\<lparr>m_runs := [(''r1'', r)]\<rparr>) =
     (if claim_eligible ''general'' t r
      then (Inr (Some (mark_claimed wid t 300 r)), work_store\<lparr>m_runs := [(''r1'', mark_claimed wid t 300 r)]\<rparr>)
      else (Inr None, work_store\<lparr>m_runs := [(''r1'', r)]\<rparr>))"
  by (simp add: mem_claim_next_queued_def is_none_or_def Let_def)

lemma sample_eligible: "5 \<le> t \<Longrightarrow> claim_eligible ''general'' t (sample_run ''r1'' 5)"
  by (simp add: claim_eligible_def sample_run_def run_for_job_def run_new_def is_some_and_def pool_ok_def)

lemma other_worker_wins:
  "\<exists>r. m_runs (other_worker started_store) = [(''r1'', r)] \<and> r_run_id r = ''r1'' \<and>
     r_status r = Success \<and> r_claimed_by r = Some ''w2''"
  "m_jobs (other_worker started_store) = m_jobs work_store"
proof -
  let ?r = "(run_start 101 (mark_claimed ''w1'' 100 300 (sample_run ''r1'' 5)))\<lparr>r_status := Running\<rparr>"
  have x: "lease_expired 1000000000000 ?r"
    by (simp add: lease_expired_def run_start_def mark_claimed_def is_none_or_def add_secs_def)
  have el: "claim_eligible ''general'' 1000000000000 (requeue ?r)"
    by (simp add: claim_eligible_def requeue_def run_start_def mark_claimed_def sample_run_def
        run_for_job_def run_new_def is_some_and_def pool_ok_def)
  have id: "r_run_id (sample_run ''r1'' 5) = ''r1''" by (simp add: sample_run_def)
  have st: "m_runs (work_store\<lparr>m_runs := R\<rparr>) = R" for R by simp
  have o: "other_worker started_store = snd (mem_update_run
      (run_complete 1000000000002 (run_start 1000000000001 (mark_claimed ''w2'' 1000000000000 300 (requeue ?r))))
      (work_store\<lparr>m_runs := [(''r1'', mark_claimed ''w2'' 1000000000000 300 (requeue ?r))]\<rparr>))"
    unfolding other_worker_def Let_def started_store_def mem_reclaim_expired_run_leases_def
    by (simp add: x el sample_run_claim)
  show "\<exists>r. m_runs (other_worker started_store) = [(''r1'', r)] \<and> r_run_id r = ''r1'' \<and>
     r_status r = Success \<and> r_claimed_by r = Some ''w2''"
    "m_jobs (other_worker started_store) = m_jobs work_store"
    unfolding o by (simp_all add: mem_update_run_def run_start_def id run_complete_def)
qed

text \<open>
  (C34) A worker whose lease expired while its script ran does not notice: it writes its own result
  over the row that another worker has meanwhile claimed and completed, so a run that succeeded is
  recorded as failed.
\<close>
theorem worker_overwrites_after_lease_loss:
  "(\<exists>r. hm_get (m_runs (other_worker started_store)) ''r1'' = Some r \<and> r_status r = Success \<and>
        r_claimed_by r = Some ''w2'') \<and>
   (\<exists>r. hm_get (m_runs (w_store (snd (run_state (worker_iteration sample_ext mem_ops failing_executor
          (quiet_obs\<lparr>ob_during := other_worker\<rparr>) ''general'' ''w1'') (sample_world work_store))))) ''r1'' = Some r \<and>
        r_status r = Failed \<and> r_claimed_by r = Some ''w1'')"
proof (intro conjI)
  obtain r2 where r2: "m_runs (other_worker started_store) = [(''r1'', r2)]" "r_run_id r2 = ''r1''"
     "r_status r2 = Success" "r_claimed_by r2 = Some ''w2''"
    using other_worker_wins(1) by blast
  then show "\<exists>r. hm_get (m_runs (other_worker started_store)) ''r1'' = Some r \<and> r_status r = Success \<and>
        r_claimed_by r = Some ''w2''" by simp
  let ?Q = "\<lambda>a w'. \<exists>r. hm_get (m_runs (w_store w')) ''r1'' = Some r \<and> r_status r = Failed \<and>
        r_claimed_by r = Some ''w1''"
  let ?w = "sample_world work_store" and ?obs = "quiet_obs\<lparr>ob_during := other_worker\<rparr>"
  define c where "c = mark_claimed ''w1'' 100 300 (sample_run ''r1'' 5)"
  define run1 where "run1 = (run_start 101 c)\<lparr>r_status := Running\<rparr>"
  have w: "w_store ?w = work_store" "w_env ?w = (\<lambda>_. None)" "w_clock ?w n = 100 + int n" "w_reads ?w = 0" for n
    by (simp_all add: sample_world_def)
  have claim: "so_claim_next_queued mem_ops ''general'' ''w1'' 100 300 work_store =
      (Inr (Some c), work_store\<lparr>m_runs := [(''r1'', c)]\<rparr>)"
    using sample_run_claim[of "''w1''" 100 "sample_run ''r1'' 5"] sample_eligible[of 100]
    by (simp add: mem_ops_def c_def flip: work_store_facts(2))
  have upd: "so_update_run mem_ops run1 (work_store\<lparr>m_runs := [(''r1'', c)]\<rparr>) = (Inr (), started_store)"
    by (simp add: mem_ops_def mem_update_run_def started_store_def run1_def c_def run_start_def sample_run_def)
  have sel: "r_script_name run1 = ''cleanup''" "r_run_id run1 = ''r1''" "r_claimed_by run1 = Some ''w1''"
    "r_job_id c = Some ''job-1''"
    by (simp_all add: run1_def run_start_def c_def mark_claimed_def sample_run_def)
  have no: "\<not> should_retry (job_retry_policy sample_ext sample_job) a" for a
    by (simp add: sample_job_def job_new_def job_retry_policy_def sample_ext_def retry_policy_default_def
        should_retry_def)
  have fin: "wp (finalize_failed_run sample_ext mem_ops (run1\<lparr>r_duration_ms := d\<rparr>) sample_job Failed
      ''internal error: boom'' l) ?Q w'"
    if "w_store w' = other_worker started_store" for d l w'
    using that r2 no sel
    by (simp add: wp_simps finalize_failed_run_def boom_safe Let_def wp_call mem_ops_def mem_update_run_def)
  have work: "wp (work_run sample_ext mem_ops failing_executor ?obs sample_job c) ?Q
      (?w\<lparr>w_reads := 1, w_store := work_store\<lparr>m_runs := [(''r1'', c)]\<rparr>\<rparr>)"
    unfolding work_run_def Let_def wp_simps wp_call
    by (simp add: w upd wp_simps wp_call flip: run1_def)
      (rule failing_wp, simp_all add: sel quiet_obs_def wp_simps fin)
  have "wp (worker_iteration sample_ext mem_ops failing_executor ?obs ''general'' ''w1'') ?Q ?w"
    using work
    by (simp add: worker_iteration_def wp_simps wp_call w claim sel env_flag_def Let_def
        run_worker_lease_ttl_secs_def env_i64_def)
      (simp add: mem_ops_def mem_get_job_def work_store_facts)
  then show "\<exists>r. hm_get (m_runs (w_store (snd (run_state (worker_iteration sample_ext mem_ops failing_executor
          (quiet_obs\<lparr>ob_during := other_worker\<rparr>) ''general'' ''w1'') (sample_world work_store))))) ''r1'' = Some r \<and>
        r_status r = Failed \<and> r_claimed_by r = Some ''w1''"
    by (simp add: wp_run)
qed

end
