(* ===== verification/Pipeline.thy ===== *)
theory Pipeline
  imports Tick_Props Worker_Props Sql_Claims
begin

text \<open>
  The composition of the coordinator and the worker over one store: a job that is due is enqueued by the
  tick and its run is ended by a worker slot. The argument needs the contracts of both clients and the
  choice of the next run, and holds on every backend that keeps them.
\<close>

section \<open>The queue contract\<close>

definition run_ready :: "string \<Rightarrow> time \<Rightarrow> run \<Rightarrow> bool" where
  "run_ready pool now r \<longleftrightarrow>
     r_status r = Queued \<and> r_scheduled_for r \<le> now \<and>
     (case r_claim_lease_until r of None \<Rightarrow> True | Some u \<Rightarrow> u \<le> now) \<and>
     (r_pool_id r = Some pool \<or> pool = ''general'' \<and> r_pool_id r = None)"

locale work_queue = run_claims S invar jobs_of runs_of
  for S :: "'s scheduler_store" and invar jobs_of runs_of +
  assumes claim_next_ready:
      "invar s \<Longrightarrow> so_claim_next_queued S pool wid now ttl s = (Inr (Some c), s') \<Longrightarrow>
       \<exists>r. runs_of s (r_run_id c) = Some r \<and> run_ready pool now r \<and>
           c = r\<lparr>r_status := Claimed, r_claimed_by := Some wid, r_claim_lease_until := Some (add_secs now ttl)\<rparr>"
    and claim_next_none:
      "invar s \<Longrightarrow> so_claim_next_queued S pool wid now ttl s = (Inr None, s') \<Longrightarrow>
       runs_of s i = Some r \<Longrightarrow> \<not> run_ready pool now r"

locale scheduler = due_queries S invar jobs_of runs_of once_free + work_queue S invar jobs_of runs_of
  for S :: "'s scheduler_store" and invar jobs_of runs_of once_free

lemma claim_eligible_ready: "claim_eligible = run_ready"
  by (auto simp: fun_eq_iff claim_eligible_def run_ready_def pool_ok_def is_some_and_def split: option.splits)

interpretation mem_work: scheduler mem_ops mem_inv "\<lambda>s. hm_get (m_jobs s)" "\<lambda>s. hm_get (m_runs s)" once_claimable
proof (unfold_locales, goal_cases)
  case (1 s pool wid now ttl c s')
  then show ?case
    using pick_candidate_get[OF 1(1), of pool now]
    by (auto simp: mem_ops_def claim_next_cases[OF 1(1)] claim_eligible_ready mark_claimed_def split: option.splits)
next
  case (2 s pool wid now ttl s' i r)
  then show ?case
    using pick_none_iff[OF 2(1), of pool now]
    by (auto simp: mem_ops_def claim_next_cases[OF 2(1)] claim_eligible_ready split: option.splits)
qed

lemma sql_claimable_ready: "sql_claimable pool now (run_enc C r) \<longleftrightarrow> run_ready pool now r"
  by (simp add: sql_claimable_enc run_ready_def)

lemma sql_work_queue:
  assumes "sql_ok E"
  shows "work_queue (sql_ops E) (sql_inv E) (sql_jobs E) (sql_runs E)"
proof (rule work_queue.intro[OF sql_run_claims[OF assms]], unfold_locales, goal_cases)
  case (1 s pool wid now ttl c s') show ?case
    by (rule sql_claim_next_cases[OF assms 1(1), of pool wid now ttl])
      (use 1(2) in \<open>auto simp: sql_ops_def row_claimed_def sql_claimable_ready\<close>)
next
  case (2 s pool wid now ttl s' i r) show ?case
    by (rule sql_claim_next_cases[OF assms 2(1), of pool wid now ttl])
      (use 2(2,3) in \<open>auto simp: sql_ops_def sql_claimable_ready\<close>)
qed

lemma sql_scheduler:
  assumes "sql_ok E"
  shows "scheduler (sql_ops E) (sql_inv E) (sql_jobs E) (sql_runs E) sql_once_free"
  by (rule scheduler.intro[OF sql_due_queries[OF assms] sql_work_queue[OF assms]])

sublocale sql_backend \<subseteq> scheduler "sql_ops E" "sql_inv E" "sql_jobs E" "sql_runs E" sql_once_free
  by (rule sql_scheduler[OF engine_ok])

section \<open>From due to done\<close>

context scheduler
begin

text \<open>The due run is the only one that can be claimed, so the slot claims it and ends it.\<close>

lemma enqueue_then_work:
  assumes inv: "invar (w_store w)" and job: "jobs_of (w_store w) i = Some j"
    and fresh: "runs_of (w_store w) rid = None" "rid = w_uuid w (Suc (w_uuids w))"
    and fire: "\<And>n. counted (runs_of (w_store w)) i n \<Longrightarrow> tick_decide once_free X inst now n j = Fire"
    and now: "now = w_clock w (w_reads w)"
    and enq: "run_state (enqueue_due_job X S inst i) w = (a, w1)"
    and w2: "w_store w2 = w_store w1" "uuids_fresh (runs_of (w_store w2)) w2"
      "\<not> env_flag (w_env w2) ''CHRONON_DISABLE_WORKER''" "\<not> env_flag (w_env w2) ''CHRONON_INTERACTIVE''"
      "fire_time j now \<le> w_clock w2 (w_reads w2)"
    and idle: "\<And>k r. runs_of (w_store w) k = Some r \<Longrightarrow> \<not> run_ready (job_execution_pool_id j) (w_clock w2 (w_reads w2)) r"
    and others: "others_keep (stored rid) (ob_during obs)"
    and host: "\<And>job. handlers_keep ex obs job (due_run rid j (fire_time j now)) (stored rid)"
    and work: "run_state (worker_iteration X' S ex obs (job_execution_pool_id j) wid) w2 = (res, w3)"
  shows "a = Inr True \<and> res = Some () \<and>
    (\<exists>r. runs_of (w_store w3) rid = Some r \<and> is_terminal (r_status r) \<and> r_attempt r = 1)"
proof -
  let ?run = "due_run rid j (fire_time j now)" let ?pool = "job_execution_pool_id j"
  let ?t = "w_clock w2 (w_reads w2)" let ?ttl = "run_worker_lease_ttl_secs (w_env w2)"
  have "runs_of (w_store w) (w_uuid w (Suc (w_uuids w))) = None" using fresh by simp
  from enqueue_refines[OF inv job this, of X inst] enq fire now
  have w1: "invar (w_store w1)" "a = Inr True" "runs_of (w_store w1) = (runs_of (w_store w))(rid \<mapsto> ?run)"
    by (auto simp: wp_def tick_effect_def Let_def fresh(2))
  have run: "r_run_id ?run = rid" "run_ready ?pool ?t ?run" "r_attempt ?run = 1"
    using w2(5) by (simp_all add: due_run_def run_for_job_def run_new_def run_ready_def)
  obtain c s1 where claim: "so_claim_next_queued S ?pool wid ?t ?ttl (w_store w2) = (Inr (Some c), s1)"
  proof -
    obtain x s1 where x: "so_claim_next_queued S ?pool wid ?t ?ttl (w_store w2) = (x, s1)" by force
    have "x \<noteq> Inr None" using claim_next_none[of "w_store w2" ?pool wid ?t ?ttl s1 rid ?run] w1 w2(1) run(2) x by auto
    with claim_next_other[of "w_store w2" ?pool wid ?t ?ttl x s1] w1(1) w2(1) x that show thesis by fastforce
  qed
  have inv2: "invar (w_store w2)" using w1(1) w2(1) by simp
  obtain r where r: "runs_of (w_store w2) (r_run_id c) = Some r" "run_ready ?pool ?t r"
    "c = r\<lparr>r_status := Claimed, r_claimed_by := Some wid, r_claim_lease_until := Some (add_secs ?t ?ttl)\<rparr>"
    using claim_next_ready[OF inv2 claim] by blast
  have "r_run_id c = rid" using r(1,2) idle w1(3) w2(1) by (auto split: if_splits)
  with r(1) w1(3) w2(1) have rc: "r = ?run" "r_run_id c = rid" by simp_all
  have "worker_request job c = worker_request job ?run" for job by (simp add: r(3) rc worker_request_def)
  then have "handlers_keep ex obs job c (stored (r_run_id c))" for job
    using host[of job] handlers_keep_cong rc(2) by metis
  from iteration_ends[OF inv2 w2(2-4) claim _ this, of X'] others work rc run(3) w1(2) show ?thesis
    by (auto simp: wp_def ended_row_def r(3))
qed

end

end
