(* ===== verification/Sql_Sample.thy ===== *)
theory Sql_Sample
  imports Pipeline Sql_Steps "HOL-Library.Countable"
begin

text \<open>
  A concrete engine that keeps what it is given: instants unchanged, a codec that numbers the JSON documents,
  no failures. It shows that the assumptions on an engine can hold.
\<close>

instance f64 :: countable by countable_datatype
instance jnum :: countable by countable_datatype
instance json :: countable by countable_datatype

definition exact_engine :: "sql_dialect \<Rightarrow> sql_engine" where
  "exact_engine d = \<lparr>e_codec = \<lparr>q_dialect = d, q_time = (\<lambda>t. t),
       q_to_string = (\<lambda>v. Inr (replicate (to_nat v) (CHR ''1''))), q_from_str = (\<lambda>s. Inr (from_nat (length s)))\<rparr>,
     e_unique = (\<lambda>n. StorageError (''UNIQUE constraint failed: '' @ n) None), e_fault = (\<lambda>_ _. None)\<rparr>"

lemma unique_text: "is_unique_violation (''UNIQUE constraint failed: '' @ ''chronon_job.job_name'')"
  by code_simp

lemma exact_ok: "sql_ok (exact_engine d)"
  using unique_text by (simp add: sql_ok_def exact_engine_def json_codec_ok_def)

interpretation exact: sql_backend "exact_engine d" for d
  by unfold_locales (rule exact_ok)

text \<open>The due job of the tick examples, stored through SQL.\<close>

definition due_db :: sql_db where
  "due_db = snd (sql_upsert_job (exact_engine Sqlite) due_job sql_empty)"

lemma due_db_facts:
  "sql_reachable (exact_engine Sqlite) due_db" "sql_inv (exact_engine Sqlite) due_db"
  "sql_jobs (exact_engine Sqlite) due_db = [''job-1'' \<mapsto> due_job]" "sql_runs (exact_engine Sqlite) due_db = Map.empty"
proof -
  show r: "sql_reachable (exact_engine Sqlite) due_db"
    unfolding due_db_def by (rule sql_reachable.step[OF sql_reachable.init sql_step.intros(1)])
  show "sql_inv (exact_engine Sqlite) due_db" by (rule sql_reachable_inv[OF exact_ok r])
  have e: "sql_jobs (exact_engine Sqlite) sql_empty = Map.empty" "sql_runs (exact_engine Sqlite) sql_empty = Map.empty"
    by (simp_all add: fun_eq_iff sql_jobs_def sql_runs_def sql_empty_def)
  have id: "j_job_id due_job = ''job-1''" by (simp add: due_job_def sample_job_def job_new_def)
  obtain s' where "sql_upsert_job (exact_engine Sqlite) due_job sql_empty = (Inr (), s')"
    "sql_jobs (exact_engine Sqlite) s' = [''job-1'' \<mapsto> due_job]" "sql_runs (exact_engine Sqlite) s' = Map.empty"
    using exact.upsert_job_ok[OF sql_inv_empty, where j = due_job and d = Sqlite] by (auto simp: e id sql_ops_def)
  then show "sql_jobs (exact_engine Sqlite) due_db = [''job-1'' \<mapsto> due_job]"
    "sql_runs (exact_engine Sqlite) due_db = Map.empty" by (simp_all add: due_db_def)
qed

end
