(* ===== verification/Sql_Claim_Props.thy ===== *)
theory Sql_Claim_Props
  imports Sql_Props Sql_Sample
begin

text \<open>
  Claims of runs on the SQL backend: exclusivity under interleaving, and the batch claim of PostgreSQL
  against the loop that the port prescribes. Schema names in the texts sent to PostgreSQL.
\<close>

section \<open>Exclusive claims\<close>

text \<open>
  What other parties may do while a worker holds a run: claim, create, renew as someone else, reclaim
  before the lease ends, update other runs, and every operation that leaves the run table alone.
\<close>

inductive sql_other_step :: "sql_engine \<Rightarrow> string \<Rightarrow> string \<Rightarrow> time \<Rightarrow> sql_db \<Rightarrow> sql_db \<Rightarrow> bool"
  for E :: sql_engine and i :: string and w :: string and u :: time where
  claim_next: "sql_other_step E i w u db (snd (sql_claim_next_queued E p w' now ttl db))"
| claim_id: "sql_other_step E i w u db (snd (sql_claim_run_by_id E i' p w' now ttl db))"
| claim_ids: "sql_other_step E i w u db (snd (sql_claim_runs_by_ids E ids p w' now ttl db))"
| renew: "w' \<noteq> w \<Longrightarrow> sql_other_step E i w u db (snd (sql_renew_run_lease E i' w' now ttl db))"
| reclaim: "e_time E now < u \<Longrightarrow> sql_other_step E i w u db (snd (sql_reclaim_expired_run_leases E now db))"
| create: "sql_other_step E i w u db (snd (sql_create_run E r db))"
| update: "r_run_id r \<noteq> i \<Longrightarrow> sql_other_step E i w u db (snd (sql_update_run E r db))"
| elsewhere: "sql_step E db db' \<Longrightarrow> t_run db' = t_run db \<Longrightarrow> sql_other_step E i w u db db'"

lemma other_step_step: "sql_other_step E i w u db db' \<Longrightarrow> sql_step E db db'"
  by (induction rule: sql_other_step.induct) (auto intro: sql_step.intros)

definition sql_held :: "string \<Rightarrow> time \<Rightarrow> run_row \<Rightarrow> bool" where
  "sql_held w u row \<longleftrightarrow> rr_status row = ''claimed'' \<and> rr_claimed_by row = Some w \<and> rr_claim_lease_until row = Some u"

lemma held_not_claimable: "sql_held w u row \<Longrightarrow> \<not> sql_claimable p now row"
  by (simp add: sql_held_def sql_claimable_def)

text \<open>An update that the held row does not match leaves it.\<close>

lemma update_where_other: "hm_get tab i = Some row \<Longrightarrow> \<not> p row \<Longrightarrow> hm_get (update_where p f tab) i = Some row"
  by (simp add: update_where_get)

lemma claim_one_keeps:
  assumes "hm_get (t_run db) i = Some row" "sql_held w u row"
  shows "hm_get (t_run (snd (sql_claim_run_by_id E i' p w' now ttl db))) i = Some row"
  using assms held_not_claimable[OF assms(2)]
  by (auto simp: sql_claim_run_by_id_def sql_execute_def Let_def intro!: update_where_other split: option.splits)

lemma claim_next_keeps:
  assumes "keyed rr_run_id (t_run db)" "hm_get (t_run db) i = Some row" "sql_held w u row"
  shows "hm_get (t_run (snd (sql_claim_next_queued E p w' now ttl db))) i = Some row"
proof -
  have "rr_run_id row \<noteq> rr_run_id r"
    if "r # rs = sort_key rr_scheduled_for (select_where (sql_claimable p (e_time E now)) (t_run db))" for r rs
  proof
    assume id: "rr_run_id row = rr_run_id r"
    have "set (r # rs) = set (select_where (sql_claimable p (e_time E now)) (t_run db))" unfolding that by simp
    then have "r \<in> set (select_where (sql_claimable p (e_time E now)) (t_run db))" by (rule subst) simp
    then have r: "hm_get (t_run db) (rr_run_id r) = Some r" "sql_claimable p (e_time E now) r"
      by (simp_all add: select_where_def keyed_get[OF assms(1)])
    have "rr_run_id r = i" using id keyedD[OF assms(1,2)] by (rule trans[OF sym])
    then have "row = r" using r(1) assms(2) by simp
    with r(2) held_not_claimable[OF assms(3)] show False by blast
  qed
  then show ?thesis
    using assms(2) by (auto simp: sql_claim_next_queued_def sql_execute_def Let_def update_where_get
        split: option.splits list.splits)
qed

lemma claim_many_keeps:
  assumes "hm_get (t_run db) i = Some row" "sql_held w u row"
  shows "hm_get (t_run (snd (sql_claim_runs_by_ids E ids p w' now ttl db))) i = Some row"
proof -
  have "hm_get (t_run (snd (claim_runs_by_ids_default (\<lambda>k. sql_claim_run_by_id E k p w' now ttl) ids db))) i = Some row"
    using assms(1)
  proof (induction ids arbitrary: db)
    case (Cons k ids)
    obtain a db1 where s: "sql_claim_run_by_id E k p w' now ttl db = (a, db1)" by force
    have "hm_get (t_run db1) i = Some row" using claim_one_keeps[OF Cons.prems assms(2), of E k p w' now ttl] s by simp
    from Cons.IH[OF this] this show ?case by (auto simp: s split: sum.splits prod.splits)
  qed simp
  then show ?thesis
    using assms held_not_claimable[OF assms(2)]
    by (auto simp: sql_claim_runs_by_ids_def sql_execute_def Let_def intro!: update_where_other split: option.splits)
qed

lemma other_step_keeps:
  assumes "sql_other_step E i w u db db'" "sql_typed E db" "json_writes (e_codec E)"
    "hm_get (t_run db) i = Some row" "sql_held w u row"
  shows "hm_get (t_run db') i = Some row"
proof -
  have key: "keyed rr_run_id (t_run db)" using typed_tableD(1)[OF assms(2)] by (simp add: table_ok_def)
  note id = keyedD[OF key assms(4)]
  show ?thesis using assms(1)
  proof cases
    case claim_next then show ?thesis using claim_next_keeps[OF key assms(4,5)] by simp
  next
    case claim_id then show ?thesis using claim_one_keeps[OF assms(4,5)] by simp
  next
    case claim_ids then show ?thesis using claim_many_keeps[OF assms(4,5)] by simp
  next
    case renew then show ?thesis
      using assms(4,5) by (auto simp: sql_renew_run_lease_def sql_execute_def Let_def sql_held_def
          intro!: update_where_other split: option.splits)
  next
    case reclaim then show ?thesis
      using assms(4,5) by (auto simp: sql_reclaim_expired_run_leases_def sql_execute_def Let_def sql_held_def
          sql_lease_expired_def intro!: update_where_other split: option.splits)
  next
    case (create r) then show ?thesis
      using assms(3,4) by (auto simp: sql_create_run_def sql_execute_def hm_simps split: option.splits)
  next
    case (update r)
    let ?f = "\<lambda>db. (Inr (), db\<lparr>t_run := update_where (\<lambda>x. rr_run_id x = r_run_id r)
        (\<lambda>_. bind_run_row (e_codec E) (run_enc (e_codec E) r)) (t_run db)\<rparr>)"
    obtain a db1 where e: "sql_execute E ''update_run'' ?f db = (a, db1)" by force
    have "hm_get (t_run db1) i = Some row"
      using e update(2) assms(4) id
      by (auto simp: sql_execute_def intro!: update_where_other split: option.splits)
    moreover have "db' = db1"
      using update(1) assms(3) e
      by (auto simp: sql_update_run_def split: prod.splits sum.splits option.splits dest: sql_get_snd)
    ultimately show ?thesis by simp
  next
    case elsewhere then show ?thesis using assms(4) by simp
  qed
qed

lemma other_steps_keep:
  assumes "(sql_other_step E i w u)\<^sup>*\<^sup>* db db'" "sql_typed E db" "json_writes (e_codec E)"
    "hm_get (t_run db) i = Some row" "sql_held w u row"
  shows "sql_typed E db' \<and> hm_get (t_run db') i = Some row"
  using assms(1)
proof (induction rule: rtranclp_induct)
  case (step y z)
  then show ?case
    using other_step_keeps[OF step(2) _ assms(3) _ assms(5)] sql_step_typed[OF other_step_step[OF step(2)] assms(3)] by blast
qed (use assms in simp)

text \<open>No claim returns a held run.\<close>

lemma set_claimed_id [simp]: "rr_run_id (sql_set_claimed w u row) = rr_run_id row"
  by (simp add: sql_set_claimed_def)

lemma claimable_other:
  assumes "keyed rr_run_id tab" "hm_get tab i = Some row" "sql_held w u row" "r \<in> set (hm_values tab)" "sql_claimable p now r"
  shows "rr_run_id r \<noteq> i"
proof
  assume "rr_run_id r = i"
  then have "r = row" using keyed_get[OF assms(1), of r] assms(2,4) by simp
  with assms(3,5) held_not_claimable show False by blast
qed

lemma claim_one_other:
  assumes "keyed rr_run_id (t_run db)" "hm_get (t_run db) i = Some row" "sql_held w u row"
    "fst (sql_claim_run_by_id E k p w' now ttl db) = Inr (Some r)"
  shows "r_run_id r \<noteq> i"
proof -
  let ?p = "\<lambda>r. rr_run_id r = k \<and> sql_claimable p (e_time E now) r"
  obtain x where x: "find ?p (hm_values (t_run db)) = Some x"
    "row_to_run (e_codec E) (sql_set_claimed w' (e_time E (add_secs now ttl)) x) = Inr r"
    using assms(4) by (auto simp: sql_claim_run_by_id_def sql_execute_def sql_map_opt_def Let_def and_then_Inr
        split: option.splits prod.splits)
  then have "x \<in> set (hm_values (t_run db))" "sql_claimable p (e_time E now) x" by (auto simp: find_Some_iff)
  from claimable_other[OF assms(1-3) this] show ?thesis using row_to_run_id[OF x(2)] by simp
qed

lemma sql_next_other:
  assumes "keyed rr_run_id (t_run db)" "hm_get (t_run db) i = Some row" "sql_held w u row"
    "fst (sql_claim_next_queued E p w' now ttl db) = Inr (Some r)"
  shows "r_run_id r \<noteq> i"
proof -
  let ?sel = "select_where (sql_claimable p (e_time E now)) (t_run db)"
  obtain x xs where x: "sort_key rr_scheduled_for ?sel = x # xs"
    "row_to_run (e_codec E) (sql_set_claimed w' (e_time E (add_secs now ttl)) x) = Inr r"
    using assms(4) by (auto simp: sql_claim_next_queued_def sql_execute_def sql_map_opt_def Let_def and_then_Inr
        split: option.splits prod.splits list.splits)
  have "set (x # xs) = set ?sel" unfolding x(1)[symmetric] by simp
  then have "x \<in> set ?sel" by (rule subst) simp
  then have "x \<in> set (hm_values (t_run db))" "sql_claimable p (e_time E now) x" by (simp_all add: select_where_def)
  from claimable_other[OF assms(1-3) this] show ?thesis using row_to_run_id[OF x(2)] by simp
qed

lemma claim_loop_other:
  assumes "sql_typed E db" "hm_get (t_run db) i = Some row" "sql_held w u row"
    "fst (claim_runs_by_ids_default (\<lambda>k. sql_claim_run_by_id E k p w' now ttl) ids db) = Inr rs"
  shows "i \<notin> r_run_id ` set rs"
  using assms(1,2,4)
proof (induction ids arbitrary: db rs)
  case (Cons k ids)
  let ?one = "\<lambda>k. sql_claim_run_by_id E k p w' now ttl"
  obtain a db1 where s: "?one k db = (Inr a, db1)" using Cons.prems(3) by (auto split: prod.splits sum.splits)
  obtain rs' where r: "fst (claim_runs_by_ids_default ?one ids db1) = Inr rs'"
    "rs = (case a of None \<Rightarrow> rs' | Some x \<Rightarrow> x # rs')"
    using Cons.prems(3) s by (auto split: prod.splits sum.splits)
  have db1: "sql_typed E db1" "hm_get (t_run db1) i = Some row"
    using run_updates_typed(2)[OF Cons.prems(1), of k p w' now ttl] claim_one_keeps[OF Cons.prems(2) assms(3), of E k p w' now ttl] s
    by simp_all
  have "keyed rr_run_id (t_run db)" using typed_tableD(1)[OF Cons.prems(1)] by (simp add: table_ok_def)
  then have "r_run_id x \<noteq> i" if "a = Some x" for x
    using claim_one_other[OF _ Cons.prems(2) assms(3), of E k p w' now ttl x] s that by simp
  with Cons.IH[OF db1 r(1)] r(2) show ?case by (auto split: option.splits)
qed auto

lemma claim_many_other:
  assumes "sql_typed E db" "hm_get (t_run db) i = Some row" "sql_held w u row"
    "fst (sql_claim_runs_by_ids E ids p w' now ttl db) = Inr rs"
  shows "i \<notin> r_run_id ` set rs"
proof (cases "ids \<noteq> [] \<and> q_dialect (e_codec E) = Postgres \<and> length ids \<noteq> 1")
  case True
  let ?p = "\<lambda>r. rr_run_id r \<in> set ids \<and> sql_claimable p (e_time E now) r"
  have key: "keyed rr_run_id (t_run db)" using typed_tableD(1)[OF assms(1)] by (simp add: table_ok_def)
  have "sql_collect (row_to_run (e_codec E)) (map (sql_set_claimed w' (e_time E (add_secs now ttl)))
      (select_where ?p (t_run db))) = Inr rs"
    using assms(4) True by (auto simp: sql_claim_runs_by_ids_def sql_execute_def sql_map_all_def Let_def split: option.splits)
  from collect_ids[OF this] have "r_run_id ` set rs = rr_run_id ` set (select_where ?p (t_run db))"
    by (metis (no_types, lifting) list.map_comp list.set_map map_eq_conv o_apply set_claimed_id)
  then show ?thesis using claimable_other[OF key assms(2,3)] by (auto simp: select_where_def)
qed (use assms claim_loop_other[OF assms(1-3)] in \<open>auto simp: sql_claim_runs_by_ids_def split: if_splits\<close>)


lemma run_docs_dec': "\<forall>v \<in> run_docs r. doc_ok C v \<Longrightarrow> row_to_run C (run_enc C r) = Inr r"
  by (simp add: run_docs_def run_enc_def run_row_from_model_def row_to_run_def doc_ok_decode doc_ok_decode_opt)

definition tiny_due :: sql_db where
  "tiny_due = snd (sql_create_run tiny_engine tiny_run tiny_db)"

lemma tiny_due_facts:
  "sql_reachable tiny_engine tiny_due"
  "t_run tiny_due = [(''r1'', run_enc tiny_codec (tiny_run\<lparr>r_scheduled_for := 2000\<rparr>))]"
proof -
  show "sql_reachable tiny_engine tiny_due"
    unfolding tiny_due_def by (rule sql_reachable.step[OF tiny_reachable sql_step.intros(5)])
  have r: "round_run (e_time tiny_engine) tiny_run = tiny_run\<lparr>r_scheduled_for := 2000\<rparr>"
    by (simp add: round_run_def tiny_engine_def tiny_codec_def tiny_run_def run_for_job_def run_new_def)
  have "t_run tiny_db = []" "r_run_id tiny_run = ''r1''"
    by (simp_all add: tiny_db_def sql_upsert_job_def tiny_ok(1) sql_execute_def tiny_ok(3) insert_job_row_def
        sql_empty_def tiny_run_def run_for_job_def run_new_def)
  then show "t_run tiny_due = [(''r1'', run_enc tiny_codec (tiny_run\<lparr>r_scheduled_for := 2000\<rparr>))]"
    using tiny_ok(1) by (simp add: tiny_due_def sql_create_run_def sql_execute_def tiny_ok(3) bind_enc r) (simp add: tiny_engine_def)
qed


section \<open>The batch claim of PostgreSQL\<close>

lemma update_where_twice:
  assumes "\<And>r. \<not> q (f r)"
  shows "update_where q f (update_where p f tab) = update_where (\<lambda>r. p r \<or> q r) f tab"
  using assms by (auto simp: update_where_def)

lemma set_claimed_not_claimable [simp]: "\<not> sql_claimable p now (sql_set_claimed w u row)"
  by (simp add: sql_claimable_def sql_set_claimed_def)

definition claimed_of :: "sql_engine \<Rightarrow> string list \<Rightarrow> string \<Rightarrow> string \<Rightarrow> time \<Rightarrow> int \<Rightarrow> sql_db \<Rightarrow> run set" where
  "claimed_of E ids p w now ttl db = {row_claimed w (add_secs now ttl) r | r. sql_runs E db (r_run_id r) = Some r \<and>
     r_run_id r \<in> set ids \<and> sql_claimable p now (run_enc (e_codec E) r)}"

lemma claim_one_eq:
  assumes "sql_ok E" "sql_inv E db"
  shows "\<exists>a. sql_claim_run_by_id E i p w now ttl db = (Inr a, db\<lparr>t_run := update_where (\<lambda>r. rr_run_id r = i \<and> sql_claimable p now r)
      (sql_set_claimed w (add_secs now ttl)) (t_run db)\<rparr>) \<and> set_option a = claimed_of E [i] p w now ttl db"
proof -
  note key = sql_inv_keyed(2)[OF assms(2)]
  have "\<exists>a. sql_claim_run_by_id E i p w now ttl db = (Inr a, db\<lparr>t_run := update_where (\<lambda>r. rr_run_id r = i \<and> sql_claimable p now r)
      (sql_set_claimed w (add_secs now ttl)) (t_run db)\<rparr>) \<and>
      a = (case sql_runs E db i of None \<Rightarrow> None | Some r \<Rightarrow>
        if sql_claimable p now (run_enc (e_codec E) r) then Some (row_claimed w (add_secs now ttl) r) else None)"
    using sql_runs_enc[OF assms, of i]
    by (auto simp: sql_claim_run_by_id_def sql_map_opt_def sql_okD[OF assms(1)] Let_def find_key[OF key] run_enc_upd
        row_claimed_def split: option.splits)
  then show ?thesis
    using sql_run_key[OF assms, of i] by (auto simp: claimed_of_def split: option.splits if_splits)
qed

lemma run_enc_inj: "json_codec_ok C \<Longrightarrow> run_enc C x = run_enc C y \<longleftrightarrow> x = y"
  by (metis run_enc_dec sum.inject(2))

lemma runs_row:
  assumes "sql_ok E" "sql_inv E db"
  shows "sql_runs E db (r_run_id r) = Some r \<longleftrightarrow> hm_get (t_run db) (r_run_id r) = Some (run_enc (e_codec E) r)"
  by (cases "sql_runs E db (r_run_id r)")
    (simp_all add: sql_runs_enc[OF assms] run_enc_inj[OF sql_okD(2)[OF assms(1)]])

lemma claimed_of_Cons:
  assumes "sql_ok E" "sql_inv E db" "sql_inv E db1"
    "t_run db1 = update_where (\<lambda>r. rr_run_id r = i \<and> sql_claimable p now r) (sql_set_claimed w (add_secs now ttl)) (t_run db)"
  shows "claimed_of E (i # ids) p w now ttl db = claimed_of E [i] p w now ttl db \<union> claimed_of E ids p w now ttl db1"
proof -
  have "hm_get (t_run db1) (r_run_id r) = Some (run_enc (e_codec E) r) \<longleftrightarrow>
      hm_get (t_run db) (r_run_id r) = Some (run_enc (e_codec E) r) \<and> r_run_id r \<noteq> i"
    if "sql_claimable p now (run_enc (e_codec E) r)" for r
  proof (cases "hm_get (t_run db) (r_run_id r)")
    case (Some row)
    have "sql_set_claimed w (add_secs now ttl) row \<noteq> run_enc (e_codec E) r"
      using that set_claimed_not_claimable by metis
    then show ?thesis using that Some by (auto simp: assms(4) update_where_get)
  qed (simp add: assms(4) update_where_get)
  then show ?thesis
    unfolding claimed_of_def runs_row[OF assms(1,2)] runs_row[OF assms(1,3)] by auto
qed

lemma claim_loop_eq:
  assumes "sql_ok E" "sql_typed E db"
  shows "\<exists>rs. claim_runs_by_ids_default (\<lambda>i. sql_claim_run_by_id E i p w now ttl) ids db =
      (Inr rs, db\<lparr>t_run := update_where (\<lambda>r. rr_run_id r \<in> set ids \<and> sql_claimable p now r)
         (sql_set_claimed w (add_secs now ttl)) (t_run db)\<rparr>) \<and> set rs = claimed_of E ids p w now ttl db"
  using assms(2)
proof (induction ids arbitrary: db)
  case Nil then show ?case by (simp add: update_where_id claimed_of_def)
next
  case (Cons i ids)
  let ?upd = "sql_set_claimed w (add_secs now ttl)"
  let ?db1 = "db\<lparr>t_run := update_where (\<lambda>r. rr_run_id r = i \<and> sql_claimable p now r) ?upd (t_run db)\<rparr>"
  note inv = sql_typed_inv[OF Cons.prems]
  obtain a where a: "sql_claim_run_by_id E i p w now ttl db = (Inr a, ?db1)" "set_option a = claimed_of E [i] p w now ttl db"
    using claim_one_eq[OF assms(1) inv] by blast
  have t1: "sql_typed E ?db1" using run_updates_typed(2)[OF Cons.prems, of i p w now ttl] a(1) by simp
  from Cons.IH[OF t1] obtain rs where rs: "claim_runs_by_ids_default (\<lambda>i. sql_claim_run_by_id E i p w now ttl) ids ?db1 =
      (Inr rs, ?db1\<lparr>t_run := update_where (\<lambda>r. rr_run_id r \<in> set ids \<and> sql_claimable p now r) ?upd (t_run ?db1)\<rparr>)"
    "set rs = claimed_of E ids p w now ttl ?db1" by blast
  have "update_where (\<lambda>r. rr_run_id r \<in> set ids \<and> sql_claimable p now r) ?upd (t_run ?db1) =
      update_where (\<lambda>r. (rr_run_id r = i \<and> sql_claimable p now r) \<or> (rr_run_id r \<in> set ids \<and> sql_claimable p now r)) ?upd (t_run db)"
    by (simp add: update_where_twice)
  also have "\<dots> = update_where (\<lambda>r. rr_run_id r \<in> set (i # ids) \<and> sql_claimable p now r) ?upd (t_run db)"
    by (rule arg_cong[where f = "\<lambda>q. update_where q ?upd (t_run db)"]) auto
  finally have "claim_runs_by_ids_default (\<lambda>i. sql_claim_run_by_id E i p w now ttl) (i # ids) db =
     (Inr (case a of None \<Rightarrow> rs | Some x \<Rightarrow> x # rs),
      db\<lparr>t_run := update_where (\<lambda>r. rr_run_id r \<in> set (i # ids) \<and> sql_claimable p now r) ?upd (t_run db)\<rparr>)"
    using a(1) rs(1) by simp
  moreover have "set (case a of None \<Rightarrow> rs | Some x \<Rightarrow> x # rs) = claimed_of E (i # ids) p w now ttl db"
    using claimed_of_Cons[OF assms(1) inv sql_typed_inv[OF t1], of i p now w ttl ids] a(2) rs(2) by (auto split: option.splits)
  ultimately show ?case by blast
qed

lemma claim_batch_eq:
  assumes "sql_ok E" "sql_inv E db" "q_dialect (e_codec E) = Postgres" "1 < length ids"
  shows "\<exists>rs. sql_claim_runs_by_ids E ids p w now ttl db =
      (Inr rs, db\<lparr>t_run := update_where (\<lambda>r. rr_run_id r \<in> set ids \<and> sql_claimable p now r)
         (sql_set_claimed w (add_secs now ttl)) (t_run db)\<rparr>) \<and> set rs = claimed_of E ids p w now ttl db \<and>
      distinct (map r_run_id rs)"
proof -
  let ?upd = "sql_set_claimed w (add_secs now ttl)"
  let ?sel = "select_where (\<lambda>r. rr_run_id r \<in> set ids \<and> sql_claimable p now r) (t_run db)"
  note inv = assms(2)
  note key = sql_inv_keyed(2)[OF inv]
  have sub: "set ?sel \<subseteq> set (hm_values (t_run db))" by (auto simp: select_where_def)
  obtain rs where rs: "?sel = map (run_enc (e_codec E)) rs" "\<And>r. r \<in> set rs \<Longrightarrow> sql_runs E db (r_run_id r) = Some r"
    by (rule collect_runs[OF assms(1) inv sub]) blast
  have "sql_collect (row_to_run (e_codec E)) (map ?upd (map (run_enc (e_codec E)) xs)) = Inr (map (row_claimed w (add_secs now ttl)) xs)" for xs
    using sql_okD(2)[OF assms(1)] by (induction xs) (simp_all add: run_enc_upd row_claimed_def)
  then have "sql_claim_runs_by_ids E ids p w now ttl db = (Inr (map (row_claimed w (add_secs now ttl)) rs),
      db\<lparr>t_run := update_where (\<lambda>r. rr_run_id r \<in> set ids \<and> sql_claimable p now r) ?upd (t_run db)\<rparr>)"
    using assms(3,4) by (auto simp: sql_claim_runs_by_ids_def sql_map_all_def sql_okD[OF assms(1)] Let_def rs(1))
  moreover have "r \<in> set rs \<longleftrightarrow> sql_runs E db (r_run_id r) = Some r \<and> r_run_id r \<in> set ids \<and> sql_claimable p now (run_enc (e_codec E) r)" for r
  proof -
    have "r \<in> set rs \<longleftrightarrow> run_enc (e_codec E) r \<in> set ?sel"
      unfolding rs(1) by (auto simp: run_enc_inj[OF sql_okD(2)[OF assms(1)]])
    also have "\<dots> \<longleftrightarrow> hm_get (t_run db) (r_run_id r) = Some (run_enc (e_codec E) r) \<and> r_run_id r \<in> set ids \<and>
        sql_claimable p now (run_enc (e_codec E) r)"
      using keyed_get[OF key, of "run_enc (e_codec E) r"] by (auto simp: select_where_def)
    finally show ?thesis by (simp add: runs_row[OF assms(1) inv])
  qed
  then have "set (map (row_claimed w (add_secs now ttl)) rs) = claimed_of E ids p w now ttl db"
    by (auto simp: claimed_of_def)
  moreover have "distinct (map rr_run_id ?sel)"
    using keyed_distinct[OF key] by (auto simp: select_where_def distinct_map inj_on_def)
  then have "distinct (map r_run_id (map (row_claimed w (add_secs now ttl)) rs))"
    unfolding rs(1) by (simp add: comp_def row_claimed_def)
  ultimately show ?thesis by blast
qed


definition batch_db :: sql_db where
  "batch_db = snd (sql_create_run (exact_engine Postgres) (sample_run ''r1'' 5) sql_empty)"


section \<open>Schema names\<close>

text \<open>
  How PostgreSQL reads a quoted identifier: up to the closing quote, where a doubled quote stands for one.
\<close>

fun read_quoted :: "string \<Rightarrow> (string \<times> string) option" where
  "read_quoted [] = None"
| "read_quoted (c # cs) =
     (if c \<noteq> CHR 0x22 then map_option (\<lambda>(n, rest). (c # n, rest)) (read_quoted cs)
      else (case cs of
              [] \<Rightarrow> Some ([], [])
            | c' # cs' \<Rightarrow> if c' = CHR 0x22 then map_option (\<lambda>(n, rest). (CHR 0x22 # n, rest)) (read_quoted cs')
                          else Some ([], c' # cs')))"

fun read_ident :: "string \<Rightarrow> (string \<times> string) option" where
  "read_ident (c # cs) = (if c = CHR 0x22 then read_quoted cs else None)"
| "read_ident [] = None"

lemma read_quoted_plain:
  assumes "CHR 0x22 \<notin> set n" "\<forall>c cs. rest = c # cs \<longrightarrow> c \<noteq> CHR 0x22"
  shows "read_quoted (n @ CHR 0x22 # rest) = Some (n, rest)"
  using assms(1)
proof (induction n)
  case Nil then show ?case using assms(2) by (cases rest) auto
qed auto

lemma quote_no_ident: "\<not> is_ascii_alphabetic (CHR 0x22)" "\<not> is_ascii_alphanumeric (CHR 0x22)"
  by code_simp+

lemma valid_schema_chars:
  assumes "validate_postgres_schema_name s = Inr ()"
  shows "CHR 0x22 \<notin> set s" "0 < length s" "length s \<le> 63"
proof -
  obtain first rest where s: "s = first # rest" "length s \<le> 63" "is_ascii_alphabetic first \<or> first = CHR ''_''"
    "list_all (\<lambda>c. is_ascii_alphanumeric c \<or> c = CHR ''_'') rest"
    using assms by (cases s) (auto simp: validate_postgres_schema_name_def split: if_splits)
  have "first \<noteq> CHR 0x22" using s(3) quote_no_ident(1) by auto
  moreover have "CHR 0x22 \<notin> set rest" using s(4) quote_no_ident(2) by (auto simp: list_all_iff)
  ultimately show "CHR 0x22 \<notin> set s" "0 < length s" "length s \<le> 63" using s(1,2) by auto
qed

text \<open>
  (C37) A schema name that passes the check cannot leave its quotes. In each of the three texts that
  interpolate it, PostgreSQL reads, after the fixed words, one quoted identifier that is the name itself,
  followed by the rest of the text as written in the source; and the name is short enough not to be truncated.
\<close>
theorem schema_name_stays_quoted:
  assumes "validate_postgres_schema_name s = Inr ()"
  shows "read_ident (drop (length ''CREATE SCHEMA IF NOT EXISTS '') (create_schema_ddl s)) = Some (s, []) \<and>
    read_ident (drop (length ''SET search_path TO '') (search_path_sql s)) = Some (s, []) \<and>
    read_ident (drop (length ''DROP SCHEMA IF EXISTS '') (drop_schema_ddl s)) = Some (s, '' CASCADE'') \<and>
    0 < length s \<and> length s \<le> 63"
  using valid_schema_chars[OF assms] read_quoted_plain[OF valid_schema_chars(1)[OF assms], of "[]"]
    read_quoted_plain[OF valid_schema_chars(1)[OF assms], of "'' CASCADE''"]
  by (simp add: create_schema_ddl_def search_path_sql_def drop_schema_ddl_def)

theorem schema_name_stays_quoted_witness:
  "read_ident (drop (length ''DROP SCHEMA IF EXISTS '') (drop_schema_ddl ''chronon_it'')) = Some (''chronon_it'', '' CASCADE'')"
proof -
  have "validate_postgres_schema_name ''chronon_it'' = Inr ()" by code_simp
  from schema_name_stays_quoted[OF this] show ?thesis by blast
qed

end
