(* ===== verification/Redis_Facts.thy ===== *)
theory Redis_Facts
  imports Redis_Queue Sql_Claim_Props
begin

text \<open>
  Facts about the composite store: it keeps the contracts that the wrapped store keeps, and it keeps the
  ready queue in step with the run table. They rest on a contract of claims by identifier, which the
  in-memory and the SQL backend provide.
\<close>

section \<open>Claims by identifier\<close>

definition claim_rows ::
  "string set \<Rightarrow> string \<Rightarrow> string \<Rightarrow> time \<Rightarrow> int \<Rightarrow> (string \<Rightarrow> run option) \<Rightarrow> string \<Rightarrow> run option" where
  "claim_rows I pool wid now ttl R i =
     map_option (\<lambda>r. if i \<in> I \<and> run_ready pool now r then mark_claimed wid now ttl r else r) (R i)"

definition claimed_runs ::
  "string set \<Rightarrow> string \<Rightarrow> string \<Rightarrow> time \<Rightarrow> int \<Rightarrow> (string \<Rightarrow> run option) \<Rightarrow> run set" where
  "claimed_runs I pool wid now ttl R =
     {mark_claimed wid now ttl r | r i. i \<in> I \<and> R i = Some r \<and> run_ready pool now r}"

definition reclaim_rows :: "time \<Rightarrow> (string \<Rightarrow> run option) \<Rightarrow> string \<Rightarrow> run option" where
  "reclaim_rows now R i = map_option (\<lambda>r. if lease_expired now r then requeue r else r) (R i)"

locale id_claims = run_table S invar jobs_of runs_of
  for S :: "'s scheduler_store" and invar jobs_of runs_of +
  assumes claim_id:
      "invar s \<Longrightarrow> \<exists>a s'. so_claim_run_by_id S i pool wid now ttl s = (Inr a, s') \<and> invar s' \<and> jobs_of s' = jobs_of s \<and>
         runs_of s' = claim_rows {i} pool wid now ttl (runs_of s) \<and>
         set_option a = claimed_runs {i} pool wid now ttl (runs_of s)"
    and claim_ids:
      "invar s \<Longrightarrow> \<exists>rs s'. so_claim_runs_by_ids S ids pool wid now ttl s = (Inr rs, s') \<and> invar s' \<and>
         jobs_of s' = jobs_of s \<and> runs_of s' = claim_rows (set ids) pool wid now ttl (runs_of s) \<and>
         set rs = claimed_runs (set ids) pool wid now ttl (runs_of s)"
    and reclaim_expired:
      "invar s \<Longrightarrow> \<exists>ids s'. so_reclaim_expired_run_leases S now s = (Inr ids, s') \<and> invar s' \<and>
         jobs_of s' = jobs_of s \<and> runs_of s' = reclaim_rows now (runs_of s) \<and>
         set ids = {i. \<exists>r. runs_of s i = Some r \<and> lease_expired now r}"

text \<open>Claimed rows are not ready any more, so a loop of single claims adds up.\<close>

lemma mark_not_ready [simp]: "\<not> run_ready pool now (mark_claimed wid t ttl r)"
  by (simp add: run_ready_def mark_claimed_def)

lemma claim_rows_empty [simp]: "claim_rows {} pool wid now ttl R = R"
  by (simp add: claim_rows_def fun_eq_iff option.map_ident)

lemma claim_rows_twice:
  "claim_rows J pool wid now ttl (claim_rows I pool wid now ttl R) = claim_rows (I \<union> J) pool wid now ttl R"
  by (auto simp: claim_rows_def fun_eq_iff option.map_comp comp_def intro!: option.map_cong)

lemma claim_rows_one:
  "claim_rows {i} pool wid now ttl R =
     (case R i of None \<Rightarrow> R | Some r \<Rightarrow> if run_ready pool now r then R(i \<mapsto> mark_claimed wid now ttl r) else R)"
proof
  fix k show "claim_rows {i} pool wid now ttl R k = (case R i of None \<Rightarrow> R | Some r \<Rightarrow>
      if run_ready pool now r then R(i \<mapsto> mark_claimed wid now ttl r) else R) k"
    by (cases "R k"; cases "k = i") (auto simp: claim_rows_def split: option.splits)
qed

lemma claimed_runs_one:
  "claimed_runs {i} pool wid now ttl R =
     (case R i of None \<Rightarrow> {} | Some r \<Rightarrow> if run_ready pool now r then {mark_claimed wid now ttl r} else {})"
  by (auto simp: claimed_runs_def split: option.splits)

lemma claimed_runs_Un:
  "claimed_runs (I \<union> J) pool wid now ttl R =
     claimed_runs I pool wid now ttl R \<union> claimed_runs J pool wid now ttl (claim_rows I pool wid now ttl R)"
proof -
  have ne: "mark_claimed wid now ttl x = r \<Longrightarrow> \<not> run_ready pool now r" for x r
    using mark_not_ready by blast
  have "claim_rows I pool wid now ttl R i = Some r \<and> run_ready pool now r \<longleftrightarrow> R i = Some r \<and> run_ready pool now r \<and> i \<notin> I" for i r
    using ne by (cases "R i") (auto simp: claim_rows_def split: if_splits)
  then show ?thesis unfolding claimed_runs_def by auto blast+
qed

lemma claim_loop_adds:
  assumes "\<And>s i. invar s \<Longrightarrow> \<exists>a s'. f i s = (Inr a, s') \<and> invar s' \<and> jobs_of s' = jobs_of s \<and>
       runs_of s' = claim_rows {i} pool wid now ttl (runs_of s) \<and> set_option a = claimed_runs {i} pool wid now ttl (runs_of s)"
    and "invar s"
  shows "\<exists>rs s'. claim_runs_by_ids_default f ids s = (Inr rs, s') \<and> invar s' \<and> jobs_of s' = jobs_of s \<and>
       runs_of s' = claim_rows (set ids) pool wid now ttl (runs_of s) \<and> set rs = claimed_runs (set ids) pool wid now ttl (runs_of s)"
  using assms(2)
proof (induction ids arbitrary: s)
  case Nil then show ?case by (simp add: claimed_runs_def)
next
  case (Cons i ids)
  obtain a s1 where a: "f i s = (Inr a, s1)" "invar s1" "jobs_of s1 = jobs_of s"
    "runs_of s1 = claim_rows {i} pool wid now ttl (runs_of s)" "set_option a = claimed_runs {i} pool wid now ttl (runs_of s)"
    using assms(1)[OF Cons.prems] by blast
  obtain rs s2 where r: "claim_runs_by_ids_default f ids s1 = (Inr rs, s2)" "invar s2" "jobs_of s2 = jobs_of s1"
    "runs_of s2 = claim_rows (set ids) pool wid now ttl (runs_of s1)" "set rs = claimed_runs (set ids) pool wid now ttl (runs_of s1)"
    using Cons.IH[OF a(2)] by blast
  have "runs_of s2 = claim_rows (set (i # ids)) pool wid now ttl (runs_of s)"
    using r(4) a(4) claim_rows_twice[of "set ids" pool wid now ttl "{i}"] by simp
  moreover have "set (case a of None \<Rightarrow> rs | Some x \<Rightarrow> x # rs) = claimed_runs (set (i # ids)) pool wid now ttl (runs_of s)"
    using r(5) a(4,5) claimed_runs_Un[of "{i}" "set ids" pool wid now ttl "runs_of s"] by (auto split: option.splits)
  ultimately show ?case using a(1,3) r(1-3) by auto
qed

lemma mem_claim_id:
  assumes "mem_inv s"
  shows "\<exists>a s'. mem_claim_run_by_id i pool wid now ttl s = (Inr a, s') \<and> mem_inv s' \<and> m_jobs s' = m_jobs s \<and>
     hm_get (m_runs s') = claim_rows {i} pool wid now ttl (hm_get (m_runs s)) \<and>
     set_option a = claimed_runs {i} pool wid now ttl (hm_get (m_runs s))"
  using inv_run_ops(4)[OF assms, of i pool wid now ttl]
  by (auto simp: mem_claim_run_by_id_def claim_eligible_ready claim_rows_one claimed_runs_one hm_simps Let_def
      split: option.splits)

interpretation mem_ids: id_claims mem_ops mem_inv "\<lambda>s. hm_get (m_jobs s)" "\<lambda>s. hm_get (m_runs s)"
proof (unfold_locales, goal_cases)
  case (1 s i pool wid now ttl) then show ?case using mem_claim_id[OF 1, of i pool wid now ttl] by (auto simp: mem_ops_def)
next
  case (2 s ids pool wid now ttl)
  have "\<exists>a s'. mem_claim_run_by_id i pool wid now ttl s = (Inr a, s') \<and> mem_inv s' \<and> hm_get (m_jobs s') = hm_get (m_jobs s) \<and>
     hm_get (m_runs s') = claim_rows {i} pool wid now ttl (hm_get (m_runs s)) \<and>
     set_option a = claimed_runs {i} pool wid now ttl (hm_get (m_runs s))" if "mem_inv s" for s i
    using mem_claim_id[OF that, of i pool wid now ttl] by auto
  from claim_loop_adds[where jobs_of = "\<lambda>s. hm_get (m_jobs s)" and runs_of = "\<lambda>s. hm_get (m_runs s)", OF this 2]
  show ?case by (simp add: mem_ops_def)
next
  case (3 s now)
  have "hm_ok (m_runs s)" using 3 by (rule inv_hm_runs)
  then have "fst ` {x \<in> set (m_runs s). case x of (i, r) \<Rightarrow> lease_expired now r} = {i. \<exists>r. hm_get (m_runs s) i = Some r \<and> lease_expired now r}"
    by (force simp: hm_entry_iff[symmetric] image_iff)
  then show ?case
    using inv_reclaim[OF 3, of now]
    by (simp add: mem_ops_def mem_reclaim_expired_run_leases_def reclaim_rows_def hm_simps fun_eq_iff)
qed

text \<open>An update of the run table that mirrors a change of the models.\<close>

lemma sql_runs_update:
  fixes f :: "run_row \<Rightarrow> run_row"
  assumes "sql_ok E" "sql_inv E db" "\<And>r. f (run_enc (e_codec E) r) = run_enc (e_codec E) (g r)"
    "\<And>r. p (run_enc (e_codec E) r) \<longleftrightarrow> q r" "\<And>r. r_run_id (g r) = r_run_id r"
  defines "db' \<equiv> db\<lparr>t_run := update_where p f (t_run db)\<rparr>"
  shows "sql_inv E db'" "sql_jobs E db' = sql_jobs E db"
    "sql_runs E db' i = map_option (\<lambda>r. if q r then g r else r) (sql_runs E db i)"
proof -
  have get: "hm_get (t_run db') k = map_option (\<lambda>r. run_enc (e_codec E) (if q r then g r else r)) (sql_runs E db k)" for k
    by (auto simp: db'_def update_where_get sql_runs_enc[OF assms(1,2)] option.map_comp comp_def assms(3,4) intro!: option.map_cong)
  show "sql_jobs E db' = sql_jobs E db" by (simp add: sql_jobs_def fun_eq_iff db'_def)
  show "sql_runs E db' i = map_option (\<lambda>r. if q r then g r else r) (sql_runs E db i)"
    unfolding sql_runs_def[of E db'] get option.map_comp comp_def
    using sql_okD(2)[OF assms(1)] by simp
  have "keyed rr_run_id (t_run db')"
    unfolding keyed_def
  proof (intro conjI allI impI)
    show "hm_ok (t_run db')" using sql_inv_keyed(2)[OF assms(2)] by (simp add: db'_def keyed_def)
    fix k row assume "hm_get (t_run db') k = Some row"
    then obtain r where "sql_runs E db k = Some r" "row = run_enc (e_codec E) (if q r then g r else r)"
      unfolding get by auto
    then show "rr_run_id row = k" using sql_run_key[OF assms(1,2)] assms(5) by auto
  qed
  moreover have "\<forall>k row. hm_get (t_run db') k = Some row \<longrightarrow> row \<in> range (run_enc (e_codec E))"
    unfolding get by auto
  ultimately show "sql_inv E db'"
    using assms(2) unfolding sql_inv_def by (auto simp: db'_def)
qed

lemma sql_claim_update:
  fixes pool wid :: string and now :: time and ttl :: int
  assumes "sql_ok E" "sql_inv E db"
  defines "db' \<equiv> \<lambda>I. db\<lparr>t_run := update_where (\<lambda>r. rr_run_id r \<in> I \<and> sql_claimable pool now r)
     (sql_set_claimed wid (add_secs now ttl)) (t_run db)\<rparr>"
  shows "sql_inv E (db' I)" "sql_jobs E (db' I) = sql_jobs E db"
    "sql_runs E (db' I) = claim_rows I pool wid now ttl (sql_runs E db)"
proof -
  have g: "sql_set_claimed wid (add_secs now ttl) (run_enc (e_codec E) r) = run_enc (e_codec E) (mark_claimed wid now ttl r)" for r
    by (simp add: run_enc_upd mark_claimed_def)
  note upd = sql_runs_update[where f = "sql_set_claimed wid (add_secs now ttl)" and g = "mark_claimed wid now ttl" and
      p = "\<lambda>r. rr_run_id r \<in> I \<and> sql_claimable pool now r" and q = "\<lambda>r. r_run_id r \<in> I \<and> run_ready pool now r", OF assms(1,2) g]
  show "sql_inv E (db' I)" "sql_jobs E (db' I) = sql_jobs E db"
    unfolding db'_def by (rule upd; simp add: sql_claimable_ready)+
  show "sql_runs E (db' I) = claim_rows I pool wid now ttl (sql_runs E db)"
  proof
    fix i
    have "sql_runs E (db' I) i = map_option (\<lambda>r. if r_run_id r \<in> I \<and> run_ready pool now r then mark_claimed wid now ttl r else r) (sql_runs E db i)"
      unfolding db'_def by (rule upd) (simp_all add: sql_claimable_ready)
    then show "sql_runs E (db' I) i = claim_rows I pool wid now ttl (sql_runs E db) i"
      using sql_run_key[OF assms(1,2), of i] by (cases "sql_runs E db i") (simp_all add: claim_rows_def)
  qed
qed

lemma claimed_of_runs:
  assumes "sql_ok E" "sql_inv E db"
  shows "claimed_of E ids pool wid now ttl db = claimed_runs (set ids) pool wid now ttl (sql_runs E db)"
proof -
  have m: "row_claimed wid (add_secs now ttl) r = mark_claimed wid now ttl r" for r
    by (simp add: row_claimed_def mark_claimed_def)
  have "sql_runs E db (r_run_id r) = Some r \<and> r_run_id r \<in> set ids \<longleftrightarrow> (\<exists>i. i \<in> set ids \<and> sql_runs E db i = Some r)" for r
    using sql_run_key[OF assms, of _ r] by blast
  then show ?thesis unfolding claimed_of_def claimed_runs_def m sql_claimable_ready by blast
qed

lemma sql_claim_id:
  assumes "sql_ok E" "sql_inv E s"
  shows "\<exists>a s'. sql_claim_run_by_id E i pool wid now ttl s = (Inr a, s') \<and> sql_inv E s' \<and> sql_jobs E s' = sql_jobs E s \<and>
     sql_runs E s' = claim_rows {i} pool wid now ttl (sql_runs E s) \<and>
     set_option a = claimed_runs {i} pool wid now ttl (sql_runs E s)"
  using claim_one_eq[OF assms, of i pool wid now ttl] sql_claim_update[OF assms, of "{i}" pool now wid ttl]
    claimed_of_runs[OF assms, of "[i]" pool wid now ttl] by auto

lemma sql_id_claims:
  assumes "sql_ok E"
  shows "id_claims (sql_ops E) (sql_inv E) (sql_jobs E) (sql_runs E)"
proof (rule id_claims.intro[OF sql_run_table[OF assms]], unfold_locales, goal_cases)
  case (1 s i pool wid now ttl) then show ?case using sql_claim_id[OF assms 1] by (simp add: sql_ops_def)
next
  case (2 s ids pool wid now ttl)
  note loop = claim_loop_adds[where invar = "sql_inv E" and jobs_of = "sql_jobs E" and runs_of = "sql_runs E" and
      f = "\<lambda>i. sql_claim_run_by_id E i pool wid now ttl", OF sql_claim_id[OF assms] 2, of ids]
  show ?case
  proof (cases "ids \<noteq> [] \<and> q_dialect (e_codec E) = Postgres \<and> length ids \<noteq> 1")
    case True
    then have "1 < length ids" by (cases ids) auto
    with claim_batch_eq[OF assms 2 _ this, of pool wid now ttl] True
      sql_claim_update[OF assms 2, of "set ids" pool now wid ttl] claimed_of_runs[OF assms 2, of ids pool wid now ttl]
    show ?thesis by (auto simp: sql_ops_def)
  next
    case False
    with loop show ?thesis by (auto simp: sql_ops_def sql_claim_runs_by_ids_def)
  qed
next
  case (3 s now)
  note key = sql_inv_keyed(2)[OF 3]
  let ?f = "\<lambda>r. r\<lparr>rr_status := ''queued'', rr_claimed_by := None, rr_claim_lease_until := None, rr_started_at := None\<rparr>"
  let ?s = "s\<lparr>t_run := update_where (sql_lease_expired now) ?f (t_run s)\<rparr>"
  have e: "sql_lease_expired now (run_enc (e_codec E) r) \<longleftrightarrow> lease_expired now r" for r
    by (auto simp: sql_lease_expired_def lease_expired_def is_none_or_def split: option.splits)
  note upd = sql_runs_update[where f = ?f and g = requeue and p = "sql_lease_expired now" and q = "lease_expired now",
      OF assms 3 run_enc_upd(3) e]
  have "set (map rr_run_id (select_where (sql_lease_expired now) (t_run s))) = {i. \<exists>r. sql_runs E s i = Some r \<and> lease_expired now r}"
    (is "?L = ?R")
  proof (intro set_eqI iffI)
    fix i assume "i \<in> ?L"
    then obtain row where row: "hm_get (t_run s) i = Some row" "sql_lease_expired now row"
      by (auto simp: select_where_def keyed_get[OF key])
    then show "i \<in> ?R" using e by (auto simp: sql_runs_enc[OF assms 3])
  next
    fix i assume "i \<in> ?R"
    then obtain r where r: "sql_runs E s i = Some r" "lease_expired now r" by blast
    then have "hm_get (t_run s) i = Some (run_enc (e_codec E) r)" by (simp add: sql_runs_enc[OF assms 3])
    moreover from this have "rr_run_id (run_enc (e_codec E) r) = i" by (rule keyedD[OF key])
    ultimately show "i \<in> ?L" using e r(2) by (force simp: select_where_def keyed_get[OF key])
  qed
  moreover have "sql_runs E ?s = reclaim_rows now (sql_runs E s)"
    using upd(3) by (simp add: fun_eq_iff reclaim_rows_def)
  ultimately show ?case
    using upd(1,2) by (simp add: sql_ops_def sql_reclaim_expired_run_leases_def sql_okD[OF assms] Let_def)
qed

end
