(* ===== verification/Redis_Index.thy ===== *)
theory Redis_Index
  imports Redis_Facts
begin

text \<open>
  The ready queue in step with the run table: every queued run stands in the sorted set of its pool with
  its due time, through every operation of the composite, as long as Redis answers.
\<close>

section \<open>Commands that succeed\<close>

definition redis_ok :: "redis_ctx \<Rightarrow> bool" where
  "redis_ok X \<longleftrightarrow> (rq_single (rx_layer X) \<or> rq_cluster (rx_layer X)) \<and> (\<forall>n db. rx_fault X n db = None)"

lemma redis_cmd_ok: "redis_ok X \<Longrightarrow> redis_cmd X n a f db = (case f db of (a, db') \<Rightarrow> (Inr a, db'))"
  by (auto simp: redis_ok_def redis_cmd_def)

lemma enqueue_ok:
  "redis_ok X \<Longrightarrow> enqueue_run X pool i t db = (Inr (), zadd (ready_key (rx_layer X) pool) i (timestamp_millis t) db)"
  by (simp add: enqueue_run_def redis_cmd_ok)

lemma claim_ids_ok:
  "redis_ok X \<Longrightarrow> 0 < n \<Longrightarrow> claim_next_run_ids X pool n now db =
     (let ids = zrange_due (ready_key (rx_layer X) pool) (timestamp_millis now) n db
      in (Inr ids, fold (zrem (ready_key (rx_layer X) pool)) ids db))"
  by (simp add: claim_next_run_ids_def redis_cmd_ok Let_def)

lemma composite_lenses [simp]:
  "on_sql f c = (fst (f (c_sql c)), c\<lparr>c_sql := snd (f (c_sql c))\<rparr>)"
  "on_redis g c = (fst (g (c_redis c)), c\<lparr>c_redis := snd (g (c_redis c))\<rparr>)"
  by (simp_all add: on_sql_def on_redis_def split: prod.splits)

lemma try_then_simps [simp]:
  "try_then (Inl e, c) k = (Inl e, c)" "try_then (Inr a, c) k = k a c"
  by (simp_all add: try_then_def)

lemma pop_one:
  assumes "redis_ok X"
  shows "claim_next_run_id X pool now D = (let ids = zrange_due (ready_key (rx_layer X) pool) (timestamp_millis now) 1 D in
     (Inr (case ids of [] \<Rightarrow> None | i # _ \<Rightarrow> Some i), fold (zrem (ready_key (rx_layer X) pool)) ids D))"
  by (simp add: claim_next_run_id_def claim_ids_ok[OF assms] Let_def)

lemma zrange_one: "zrange_due key m 1 D = [] \<or> (\<exists>i. zrange_due key m 1 D = [i])"
  by (cases "sort_key (\<lambda>(m, s). (s, m)) (filter (\<lambda>(x, s). s \<le> m) (D key))") (auto simp: zrange_due_def)

section \<open>The index\<close>

definition run_indexed :: "redis_ctx \<Rightarrow> (string \<Rightarrow> run option) \<Rightarrow> redis_db \<Rightarrow> string \<Rightarrow> bool" where
  "run_indexed X R D i \<longleftrightarrow> (\<forall>r. R i = Some r \<longrightarrow> r_status r = Queued \<longrightarrow>
     hm_get (D (ready_key (rx_layer X) (run_pool_key (r_pool_id r)))) i = Some (timestamp_millis (r_scheduled_for r)))"

lemma zadd_get: "hm_get (zadd key i sc D k) m = (if k = key \<and> m = i then Some sc else hm_get (D k) m)"
  by (simp add: zadd_def hm_simps)

lemma run_indexed_zadd_other: "k \<noteq> i \<Longrightarrow> run_indexed X R (zadd key i sc D) k = run_indexed X R D k"
  by (simp add: run_indexed_def zadd_get)

lemma run_indexed_zadd:
  "(\<And>r. R i = Some r \<Longrightarrow> r_status r = Queued \<Longrightarrow> key = ready_key (rx_layer X) (run_pool_key (r_pool_id r)) \<and>
     sc = timestamp_millis (r_scheduled_for r)) \<Longrightarrow> run_indexed X R (zadd key i sc D) i"
  by (simp add: run_indexed_def zadd_get)

lemma fold_zrem_get:
  "hm_get (fold (zrem key) ids D k) i = (if k = key \<and> i \<in> set ids then None else hm_get (D k) i)"
  by (induction ids arbitrary: D) (auto simp: zrem_def hm_simps)

lemma run_indexed_pop: "i \<notin> set ids \<Longrightarrow> run_indexed X R (fold (zrem key) ids D) i = run_indexed X R D i"
  by (simp add: run_indexed_def fold_zrem_get)

lemma run_indexed_claim:
  assumes "run_indexed X R D i"
  shows "run_indexed X (claim_rows I pool wid now ttl R) D i"
  using assms by (auto simp: run_indexed_def claim_rows_def mark_claimed_def split: if_splits)

lemma run_indexed_claimed:
  "i \<in> I \<Longrightarrow> R i = Some r \<Longrightarrow> run_ready pool now r \<Longrightarrow> run_indexed X (claim_rows I pool wid now ttl R) D i"
  by (simp add: run_indexed_def claim_rows_def)

lemma claim_rows_not_ready:
  assumes "i \<in> I" "claim_rows I pool wid now ttl R i = Some r"
  shows "\<not> run_ready pool now r"
proof (cases "R i")
  case (Some x)
  show ?thesis
  proof (cases "run_ready pool now x")
    case True
    then have "r = mark_claimed wid now ttl x" using Some assms by (simp add: claim_rows_def)
    then show ?thesis by simp
  qed (use Some assms in \<open>simp add: claim_rows_def\<close>)
qed (use assms in \<open>simp add: claim_rows_def\<close>)

context id_claims
begin

text \<open>\<^verbatim>\<open>requeue_mismatch\<close> puts a run back that should not have been popped.\<close>

lemma requeue_indexes:
  assumes "redis_ok X" "invar (c_sql c)" "\<forall>r. runs_of (c_sql c) i = Some r \<longrightarrow> \<not> run_ready pool now r"
  shows "\<exists>D. requeue_mismatch X S i pool now c = (Inr (), c\<lparr>c_redis := D\<rparr>) \<and>
     run_indexed X (runs_of (c_sql c)) D i \<and>
     (\<forall>k. k \<noteq> i \<longrightarrow> run_indexed X (runs_of (c_sql c)) (c_redis c) k \<longrightarrow> run_indexed X (runs_of (c_sql c)) D k) \<and>
     (\<forall>key m. m \<noteq> i \<longrightarrow> hm_get (D key) m = hm_get (c_redis c key) m) \<and>
     ((\<forall>r. runs_of (c_sql c) i = Some r \<longrightarrow> r_status r \<noteq> Queued) \<longrightarrow> D = c_redis c)"
proof (cases "runs_of (c_sql c) i")
  case None
  then show ?thesis
    by (intro exI[of _ "c_redis c"]) (simp add: requeue_mismatch_def get_run[OF assms(2)] run_indexed_def)
next
  case (Some r)
  have id: "r_run_id r = i" using run_key[OF assms(2) Some] .
  let ?add = "\<lambda>pool. zadd (ready_key (rx_layer X) pool) i (timestamp_millis (r_scheduled_for r)) (c_redis c)"
  have add: "run_indexed X (runs_of (c_sql c)) (?add (run_pool_key (r_pool_id r))) i"
    "\<forall>k. k \<noteq> i \<longrightarrow> run_indexed X (runs_of (c_sql c)) (c_redis c) k \<longrightarrow> run_indexed X (runs_of (c_sql c)) (?add p) k"
    "\<forall>key m. m \<noteq> i \<longrightarrow> hm_get (?add p key) m = hm_get (c_redis c key) m" for p
    using Some by (auto simp: run_indexed_zadd_other zadd_get intro: run_indexed_zadd)
  show ?thesis
  proof (cases "r_status r = Queued")
    case False
    then show ?thesis using Some
      by (intro exI[of _ "c_redis c"]) (simp add: requeue_mismatch_def get_run[OF assms(2)] run_indexed_def)
  next
    case True
    have "pool = run_pool_key (r_pool_id r) \<Longrightarrow> r_pool_id r = Some pool \<or> pool = ''general'' \<and> r_pool_id r = None"
      by (auto simp: run_pool_key_def split: option.splits if_splits)
    then have "r_scheduled_for r > now \<or> run_pool_key (r_pool_id r) \<noteq> pool \<or>
        (case r_claim_lease_until r of None \<Rightarrow> False | Some u \<Rightarrow> u > now)"
      using assms(3) Some True by (auto simp: run_ready_def split: option.splits)
    then have "requeue_mismatch X S i pool now c = (Inr (), c\<lparr>c_redis := ?add (run_pool_key (r_pool_id r))\<rparr>)"
      using Some True id by (auto simp: requeue_mismatch_def get_run[OF assms(2)] enqueue_ok[OF assms(1)] Let_def)
    with add Some True show ?thesis by blast
  qed
qed

definition indexed_but :: "redis_ctx \<Rightarrow> string set \<Rightarrow> 's composite \<Rightarrow> bool" where
  "indexed_but X K c \<longleftrightarrow> invar (c_sql c) \<and> (\<forall>i. i \<notin> K \<longrightarrow> run_indexed X (runs_of (c_sql c)) (c_redis c) i)"

lemma indexed_but_settle:
  "indexed_but X (insert i K) c \<Longrightarrow> run_indexed X (runs_of (c_sql c)) (c_redis c) i \<Longrightarrow> indexed_but X K c"
  unfolding indexed_but_def by (metis insert_iff)

text \<open>Popped identifiers that were not claimed are put back where they belong.\<close>

lemma reconcile_indexes:
  assumes "redis_ok X" "indexed_but X (set ids) c"
    "\<And>i r. i \<in> set ids \<Longrightarrow> runs_of (c_sql c) i = Some r \<Longrightarrow> \<not> run_ready pool now r"
    "\<And>i r. i \<in> r_run_id ` set claimed \<Longrightarrow> runs_of (c_sql c) i = Some r \<Longrightarrow> r_status r \<noteq> Queued"
  shows "\<exists>D. reconcile_unclaimed X S ids claimed pool now c = (Inr (), c\<lparr>c_redis := D\<rparr>) \<and> indexed_but X {} (c\<lparr>c_redis := D\<rparr>) \<and>
     (\<forall>key m. m \<in> r_run_id ` set claimed \<longrightarrow> hm_get (D key) m = hm_get (c_redis c key) m)"
  using assms(2-4)
proof (induction ids arbitrary: c)
  case Nil then show ?case by (intro exI[of _ "c_redis c"]) simp
next
  case (Cons i ids)
  show ?case
  proof (cases "i \<in> r_run_id ` set claimed")
    case True
    then have "run_indexed X (runs_of (c_sql c)) (c_redis c) i" using Cons.prems(3) by (simp add: run_indexed_def)
    then have "indexed_but X (set ids) c" using Cons.prems(1) by (auto intro: indexed_but_settle)
    then have "\<exists>D. reconcile_unclaimed X S ids claimed pool now c = (Inr (), c\<lparr>c_redis := D\<rparr>) \<and> indexed_but X {} (c\<lparr>c_redis := D\<rparr>) \<and>
     (\<forall>key m. m \<in> r_run_id ` set claimed \<longrightarrow> hm_get (D key) m = hm_get (c_redis c key) m)"
      using Cons.prems(2,3) by (intro Cons.IH) auto
    with True show ?thesis by simp
  next
    case False
    obtain D where D: "requeue_mismatch X S i pool now c = (Inr (), c\<lparr>c_redis := D\<rparr>)"
      "run_indexed X (runs_of (c_sql c)) D i"
      "\<forall>k. k \<noteq> i \<longrightarrow> run_indexed X (runs_of (c_sql c)) (c_redis c) k \<longrightarrow> run_indexed X (runs_of (c_sql c)) D k"
      "\<forall>key m. m \<noteq> i \<longrightarrow> hm_get (D key) m = hm_get (c_redis c key) m"
      using requeue_indexes[OF assms(1), of c i pool now] Cons.prems by (auto simp: indexed_but_def)
    have "indexed_but X (set ids) (c\<lparr>c_redis := D\<rparr>)"
      using Cons.prems(1) D(2,3) by (auto simp: indexed_but_def)
    then have "\<exists>D'. reconcile_unclaimed X S ids claimed pool now (c\<lparr>c_redis := D\<rparr>) = (Inr (), c\<lparr>c_redis := D\<rparr>\<lparr>c_redis := D'\<rparr>) \<and>
        indexed_but X {} (c\<lparr>c_redis := D\<rparr>\<lparr>c_redis := D'\<rparr>) \<and>
        (\<forall>key m. m \<in> r_run_id ` set claimed \<longrightarrow> hm_get (D' key) m = hm_get (c_redis (c\<lparr>c_redis := D\<rparr>) key) m)"
      using Cons.prems(2,3) by (intro Cons.IH) auto
    then obtain D' where "reconcile_unclaimed X S ids claimed pool now (c\<lparr>c_redis := D\<rparr>) = (Inr (), c\<lparr>c_redis := D'\<rparr>)"
      "indexed_but X {} (c\<lparr>c_redis := D'\<rparr>)" "\<forall>key m. m \<in> r_run_id ` set claimed \<longrightarrow> hm_get (D' key) m = hm_get (D key) m" by auto
    moreover have "m \<noteq> i" if "m \<in> r_run_id ` set claimed" for m using that False by blast
    ultimately show ?thesis using False D(1,4) by (intro exI[of _ D']) simp
  qed
qed

lemma claim_one_indexes:
  assumes "redis_ok X" "indexed_but X (insert i K) c"
  shows "\<exists>a c'. claim_one X S i pool wid now ttl c = (Inr a, c') \<and> indexed_but X K c' \<and>
     jobs_of (c_sql c') = jobs_of (c_sql c) \<and> runs_of (c_sql c') = claim_rows {i} pool wid now ttl (runs_of (c_sql c)) \<and>
     set_option a = claimed_runs {i} pool wid now ttl (runs_of (c_sql c)) \<and>
     (\<forall>key m. m \<noteq> i \<longrightarrow> hm_get (c_redis c' key) m = hm_get (c_redis c key) m) \<and>
     ((\<forall>r. runs_of (c_sql c) i = Some r \<longrightarrow> r_status r \<noteq> Queued) \<longrightarrow> c_redis c' = c_redis c)"
proof -
  have inv: "invar (c_sql c)" using assms(2) by (simp add: indexed_but_def)
  obtain a s where s: "so_claim_run_by_id S i pool wid now ttl (c_sql c) = (Inr a, s)" "invar s" "jobs_of s = jobs_of (c_sql c)"
    "runs_of s = claim_rows {i} pool wid now ttl (runs_of (c_sql c))" "set_option a = claimed_runs {i} pool wid now ttl (runs_of (c_sql c))"
    using claim_id[OF inv] by blast
  have but: "indexed_but X (insert i K) (c\<lparr>c_sql := s\<rparr>)"
    using assms(2) s(2,4) by (simp add: indexed_but_def run_indexed_claim)
  show ?thesis
  proof (cases a)
    case (Some run)
    then obtain r where "runs_of (c_sql c) i = Some r" "run_ready pool now r"
      using s(5) by (auto simp: claimed_runs_def)
    then have "run_indexed X (runs_of s) (c_redis c) i" using s(4) by (simp add: run_indexed_claimed)
    then have "indexed_but X K (c\<lparr>c_sql := s\<rparr>)" using but by (auto intro: indexed_but_settle)
    with Some s show ?thesis by (simp add: claim_one_def)
  next
    case None
    then have no: "\<forall>r. runs_of (c_sql c) i = Some r \<longrightarrow> \<not> run_ready pool now r"
      using s(5) by (auto simp: claimed_runs_def)
    then have same: "runs_of s = runs_of (c_sql c)" unfolding s(4) claim_rows_one by (auto split: option.splits)
    obtain D where "requeue_mismatch X S i pool now (c\<lparr>c_sql := s\<rparr>) = (Inr (), c\<lparr>c_sql := s, c_redis := D\<rparr>)"
      "run_indexed X (runs_of s) D i" "\<forall>k. k \<noteq> i \<longrightarrow> run_indexed X (runs_of s) (c_redis c) k \<longrightarrow> run_indexed X (runs_of s) D k"
      "\<forall>key m. m \<noteq> i \<longrightarrow> hm_get (D key) m = hm_get (c_redis c key) m"
      "(\<forall>r. runs_of s i = Some r \<longrightarrow> r_status r \<noteq> Queued) \<longrightarrow> D = c_redis c"
      using requeue_indexes[OF assms(1), of "c\<lparr>c_sql := s\<rparr>" i pool now] no s(2) same by auto
    with None s but same show ?thesis by (auto simp: claim_one_def indexed_but_def)
  qed
qed

lemma pop_indexed: "indexed_but X K c \<Longrightarrow> indexed_but X (set ids \<union> K) (c\<lparr>c_redis := fold (zrem key) ids (c_redis c)\<rparr>)"
  by (simp add: indexed_but_def run_indexed_pop)

text \<open>The loop over single pops.\<close>

lemma single_loop_indexes:
  assumes "redis_ok X" "indexed_but X K c"
  shows "\<exists>a c'. claim_single_loop n X S pool wid now ttl c = (Inr a, c') \<and> indexed_but X K c' \<and>
     jobs_of (c_sql c') = jobs_of (c_sql c) \<and>
     (case a of None \<Rightarrow> runs_of (c_sql c') = runs_of (c_sql c)
      | Some x \<Rightarrow> (\<exists>r. runs_of (c_sql c) (r_run_id x) = Some r \<and> run_ready pool now r \<and> x = mark_claimed wid now ttl r) \<and>
          runs_of (c_sql c') = (runs_of (c_sql c))(r_run_id x \<mapsto> x))"
  using assms(2)
proof (induction n arbitrary: c)
  case (Suc n)
  let ?key = "ready_key (rx_layer X) pool"
  consider (none) "zrange_due ?key (timestamp_millis now) 1 (c_redis c) = []"
    | (one) i where "zrange_due ?key (timestamp_millis now) 1 (c_redis c) = [i]" using zrange_one by blast
  then show ?case
  proof cases
    case none with Suc.prems show ?thesis by (simp add: pop_one[OF assms(1)] Let_def)
  next
    case (one i)
    let ?c = "c\<lparr>c_redis := zrem ?key i (c_redis c)\<rparr>"
    have but: "indexed_but X (insert i K) ?c" using pop_indexed[OF Suc.prems, of "[i]" ?key] by simp
    obtain a c1 where c1: "claim_one X S i pool wid now ttl ?c = (Inr a, c1)" "indexed_but X K c1"
      "jobs_of (c_sql c1) = jobs_of (c_sql c)" "runs_of (c_sql c1) = claim_rows {i} pool wid now ttl (runs_of (c_sql c))"
      "set_option a = claimed_runs {i} pool wid now ttl (runs_of (c_sql c))"
      using claim_one_indexes[OF assms(1) but, of pool wid now ttl] by auto
    have inv: "invar (c_sql c)" using Suc.prems by (simp add: indexed_but_def)
    show ?thesis
    proof (cases a)
      case (Some x)
      then obtain r where r: "runs_of (c_sql c) i = Some r" "run_ready pool now r" "x = mark_claimed wid now ttl r"
        using c1(5) by (auto simp: claimed_runs_def)
      have "r_run_id x = i" using run_key[OF inv r(1)] r(3) by simp
      moreover have "runs_of (c_sql c1) = (runs_of (c_sql c))(i \<mapsto> x)" using r c1(4) by (simp add: claim_rows_one)
      ultimately show ?thesis using one c1(1-3) Some r by (auto simp: pop_one[OF assms(1)] Let_def)
    next
      case None
      then have "runs_of (c_sql c1) = runs_of (c_sql c)"
        using c1(4,5) by (auto simp: claim_rows_one claimed_runs_one split: option.splits if_splits)
      from Suc.IH[OF c1(2), unfolded this c1(3)] one c1(1) None show ?thesis by (simp add: pop_one[OF assms(1)] Let_def)
    qed
  qed
qed simp

text \<open>One round over a batch: every ready run of the batch is claimed and leaves the queue.\<close>

lemma batch_round:
  fixes X pool now b c
  defines "ids \<equiv> zrange_due (ready_key (rx_layer X) pool) (timestamp_millis now) b (c_redis c)"
  assumes "redis_ok X" "indexed_but X {} c" "0 < b" "ids \<noteq> []"
  shows "\<exists>rs c1. claim_batch_loop (Suc n) b X S pool wid now ttl c =
       (case rs of x # _ \<Rightarrow> (Inr (Some x), c1) | [] \<Rightarrow> claim_batch_loop n b X S pool wid now ttl c1) \<and>
     indexed_but X {} c1 \<and> jobs_of (c_sql c1) = jobs_of (c_sql c) \<and>
     runs_of (c_sql c1) = claim_rows (set ids) pool wid now ttl (runs_of (c_sql c)) \<and>
     set rs = claimed_runs (set ids) pool wid now ttl (runs_of (c_sql c)) \<and>
     (\<forall>m \<in> r_run_id ` set rs. hm_get (c_redis c1 (ready_key (rx_layer X) pool)) m = None)"
proof -
  let ?key = "ready_key (rx_layer X) pool"
  let ?c = "c\<lparr>c_redis := fold (zrem ?key) ids (c_redis c)\<rparr>"
  have pop: "claim_next_run_ids X pool b now (c_redis c) = (Inr ids, fold (zrem ?key) ids (c_redis c))"
    using claim_ids_ok[OF assms(2,4)] by (simp add: Let_def ids_def)
  have inv: "invar (c_sql c)" using assms(3) by (simp add: indexed_but_def)
  let ?R = "runs_of (c_sql c)" let ?R' = "claim_rows (set ids) pool wid now ttl ?R"
  obtain rs s where s: "so_claim_runs_by_ids S ids pool wid now ttl (c_sql c) = (Inr rs, s)" "invar s"
    "jobs_of s = jobs_of (c_sql c)" "runs_of s = ?R'" "set rs = claimed_runs (set ids) pool wid now ttl ?R"
    using claim_ids[OF inv] by blast
  have but: "indexed_but X (set ids) (?c\<lparr>c_sql := s\<rparr>)"
    using pop_indexed[OF assms(3), of ids ?key] s(2,4) by (simp add: indexed_but_def run_indexed_claim)
  have rest: "\<not> run_ready pool now r" if "i \<in> set ids" "?R' i = Some r" for i r
    using that by (rule claim_rows_not_ready)
  have sub: "i \<in> set ids \<and> (\<exists>r0. ?R i = Some r0 \<and> run_ready pool now r0)" if m: "i \<in> r_run_id ` set rs" for i
    using m s(5) run_key[OF inv] by (fastforce simp: claimed_runs_def)
  have taken: "r_status r \<noteq> Queued" if m: "i \<in> r_run_id ` set rs" "?R' i = Some r" for i r
    using sub[OF m(1)] m(2) by (auto simp: claim_rows_def mark_claimed_def)
  obtain D where D: "reconcile_unclaimed X S ids rs pool now (?c\<lparr>c_sql := s\<rparr>) = (Inr (), ?c\<lparr>c_sql := s\<rparr>\<lparr>c_redis := D\<rparr>)"
    "indexed_but X {} (?c\<lparr>c_sql := s\<rparr>\<lparr>c_redis := D\<rparr>)"
    "\<forall>key m. m \<in> r_run_id ` set rs \<longrightarrow> hm_get (D key) m = hm_get (c_redis (?c\<lparr>c_sql := s\<rparr>) key) m"
    using reconcile_indexes[OF assms(2) but, of pool now rs] rest taken s(4) by auto
  have "hm_get (D ?key) m = None" if m: "m \<in> r_run_id ` set rs" for m
    using D(3) m sub[OF m] by (simp add: fold_zrem_get)
  then show ?thesis
    using D(1,2) s pop assms(5) by (intro exI[of _ rs] exI[of _ "?c\<lparr>c_sql := s, c_redis := D\<rparr>"]) (simp split: list.split)
qed

text \<open>The loop over batches: every ready run of the batch is claimed, the first of them is returned.\<close>

lemma batch_loop_indexes:
  assumes "redis_ok X" "indexed_but X {} c" "0 < b"
  shows "\<exists>a c' I. claim_batch_loop n b X S pool wid now ttl c = (Inr a, c') \<and> indexed_but X {} c' \<and>
     jobs_of (c_sql c') = jobs_of (c_sql c) \<and> runs_of (c_sql c') = claim_rows I pool wid now ttl (runs_of (c_sql c)) \<and>
     set_option a \<subseteq> claimed_runs I pool wid now ttl (runs_of (c_sql c))"
  using assms(2)
proof (induction n arbitrary: c)
  case 0 then show ?case by (intro exI[of _ None] exI[of _ c] exI[of _ "{}"]) simp
next
  case (Suc n)
  let ?key = "ready_key (rx_layer X) pool"
  let ?ids = "zrange_due ?key (timestamp_millis now) b (c_redis c)"
  show ?case
  proof (cases "?ids = []")
    case True
    with Suc.prems show ?thesis
      by (intro exI[of _ None] exI[of _ c] exI[of _ "{}"]) (simp add: claim_ids_ok[OF assms(1,3)] Let_def)
  next
    case False
    let ?R = "runs_of (c_sql c)" let ?R' = "claim_rows (set ?ids) pool wid now ttl ?R"
    obtain rs c1 where c1: "claim_batch_loop (Suc n) b X S pool wid now ttl c =
         (case rs of x # _ \<Rightarrow> (Inr (Some x), c1) | [] \<Rightarrow> claim_batch_loop n b X S pool wid now ttl c1)"
      "indexed_but X {} c1" "jobs_of (c_sql c1) = jobs_of (c_sql c)" "runs_of (c_sql c1) = ?R'"
      "set rs = claimed_runs (set ?ids) pool wid now ttl ?R"
      using batch_round[OF assms(1) Suc.prems assms(3) False] by blast
    show ?thesis
    proof (cases rs)
      case (Cons x xs)
      have "x \<in> claimed_runs (set ?ids) pool wid now ttl ?R" using c1(5) Cons by auto
      with c1 Cons show ?thesis by (intro exI[of _ "Some x"] exI[of _ c1] exI[of _ "set ?ids"]) simp
    next
      case Nil
      obtain a c' I where I: "claim_batch_loop n b X S pool wid now ttl c1 = (Inr a, c')" "indexed_but X {} c'"
        "jobs_of (c_sql c') = jobs_of (c_sql c1)" "runs_of (c_sql c') = claim_rows I pool wid now ttl ?R'"
        "set_option a \<subseteq> claimed_runs I pool wid now ttl ?R'"
        using Suc.IH[OF c1(2)] c1(4) by auto
      have "runs_of (c_sql c') = claim_rows (set ?ids \<union> I) pool wid now ttl ?R"
        "set_option a \<subseteq> claimed_runs (set ?ids \<union> I) pool wid now ttl ?R"
        using I(4,5) by (auto simp: claim_rows_twice claimed_runs_Un)
      then show ?thesis using c1(1,3) Nil I(1-3) by (intro exI[of _ a] exI[of _ c'] exI[of _ "set ?ids \<union> I"]) simp
    qed
  qed
qed

end

end
