(* ===== verification/Redis_Steps.thy ===== *)
theory Redis_Steps
  imports Redis_Index
begin

text \<open>
  The composite store under any sequence of its operations on the SQL backend: its SQL part stays
  reachable, and the ready queue stays in step with the run table.
\<close>

section \<open>What the composite operations are made of\<close>

text \<open>A property of the composite that the single SQL and Redis calls keep is kept by every operation.\<close>

locale composite_closed =
  fixes S :: "'s scheduler_store" and X :: redis_ctx and P :: "'s composite \<Rightarrow> bool"
  assumes get_closed: "P c \<Longrightarrow> P (c\<lparr>c_sql := snd (so_get_run S i (c_sql c))\<rparr>)"
    and claim_closed: "P c \<Longrightarrow> P (c\<lparr>c_sql := snd (so_claim_run_by_id S i pool wid now ttl (c_sql c))\<rparr>)"
    and claims_closed: "P c \<Longrightarrow> P (c\<lparr>c_sql := snd (so_claim_runs_by_ids S ids pool wid now ttl (c_sql c))\<rparr>)"
    and create_closed: "P c \<Longrightarrow> P (c\<lparr>c_sql := snd (so_create_run S r (c_sql c))\<rparr>)"
    and reclaim_closed: "P c \<Longrightarrow> P (c\<lparr>c_sql := snd (so_reclaim_expired_run_leases S now (c_sql c))\<rparr>)"
    and enqueue_closed: "P c \<Longrightarrow> P (c\<lparr>c_redis := snd (enqueue_run X pool i t (c_redis c))\<rparr>)"
    and pop_closed: "P c \<Longrightarrow> P (c\<lparr>c_redis := snd (claim_next_run_ids X pool n now (c_redis c))\<rparr>)"
begin

lemma try_closed:
  assumes "P (snd res)" "\<And>a c. P c \<Longrightarrow> P (snd (k a c))"
  shows "P (snd (try_then res k))"
  using assms by (cases res; cases "fst res") auto

lemma pop_one_closed: "P c \<Longrightarrow> P (c\<lparr>c_redis := snd (claim_next_run_id X pool now (c_redis c))\<rparr>)"
  using pop_closed[of c pool 1 now] by (auto simp: claim_next_run_id_def split: prod.split sum.split)

lemma requeue_closed: "P c \<Longrightarrow> P (snd (requeue_mismatch X S i pool now c))"
  unfolding requeue_mismatch_def by (rule try_closed) (auto simp: get_closed enqueue_closed Let_def split: option.split)

lemma claim_one_closed: "P c \<Longrightarrow> P (snd (claim_one X S i pool wid now ttl c))"
  unfolding claim_one_def
  by (rule try_closed) (auto simp: claim_closed intro: try_closed requeue_closed split: option.split)

lemma reconcile_closed: "P c \<Longrightarrow> P (snd (reconcile_unclaimed X S ids rs pool now c))"
  by (induction ids arbitrary: c) (auto intro: try_closed requeue_closed)

lemma single_loop_closed: "P c \<Longrightarrow> P (snd (claim_single_loop n X S pool wid now ttl c))"
proof (induction n arbitrary: c)
  case (Suc n)
  have next_closed: "P c \<Longrightarrow> P (snd (try_then (claim_one X S i pool wid now ttl c) (\<lambda>claimed c.
      case claimed of Some run \<Rightarrow> (Inr (Some run), c) | None \<Rightarrow> claim_single_loop n X S pool wid now ttl c)))" for i c
    by (erule try_closed[OF claim_one_closed]) (simp add: Suc.IH split: option.split)
  show ?case
    unfolding claim_single_loop.simps
    by (rule try_closed) (simp_all add: Suc.prems pop_one_closed next_closed split: option.split)
qed simp

lemma batch_loop_closed: "P c \<Longrightarrow> P (snd (claim_batch_loop n b X S pool wid now ttl c))"
proof (induction n arbitrary: c)
  case (Suc n)
  show ?case
    unfolding claim_batch_loop.simps
    by (rule try_closed)
      (auto simp: Suc.prems Suc.IH pop_closed claims_closed intro!: try_closed reconcile_closed split: list.split)
qed simp

lemma claim_next_closed: "P c \<Longrightarrow> P (snd (redis_claim_next_queued X S pool wid now ttl c))"
  by (simp add: redis_claim_next_queued_def Let_def single_loop_closed batch_loop_closed)

lemma create_run_closed: "P c \<Longrightarrow> P (snd (redis_create_run X S r c))"
  unfolding redis_create_run_def by (rule try_closed) (auto simp: create_closed enqueue_closed)

lemma reenqueue_closed: "P c \<Longrightarrow> P (snd (reenqueue_all X S ids c))"
proof (induction ids arbitrary: c)
  case (Cons i ids)
  show ?case
    unfolding reenqueue_all.simps
    by (rule try_closed) (auto simp: Cons get_closed enqueue_closed intro!: try_closed split: option.split)
qed simp

lemma reclaim_leases_closed: "P c \<Longrightarrow> P (snd (redis_reclaim_expired_run_leases X S now c))"
  unfolding redis_reclaim_expired_run_leases_def
  by (rule try_closed) (auto simp: reclaim_closed intro!: try_closed reenqueue_closed)

end

lemma get_run_same: "snd (sql_get_run E i db) = db"
  by (auto simp: sql_get_run_def sql_map_opt_def sql_execute_def split: option.splits)

interpretation reach: composite_closed "sql_ops E" X "\<lambda>c. sql_reachable E (c_sql c)" for E X
  by unfold_locales
    (auto simp: sql_ops_def get_run_same intro: sql_reachable.step sql_step.intros)

text \<open>A sorted set holds a member once.\<close>

definition zsets_ok :: "redis_db \<Rightarrow> bool" where
  "zsets_ok D \<longleftrightarrow> (\<forall>k. hm_ok (D k))"

lemma zsets_cmds: "zsets_ok D \<Longrightarrow> zsets_ok (zadd key i sc D)" "zsets_ok D \<Longrightarrow> zsets_ok (fold (zrem key) ids D)"
proof -
  show "zsets_ok D \<Longrightarrow> zsets_ok (zadd key i sc D)" by (simp add: zsets_ok_def zadd_def)
  show "zsets_ok D \<Longrightarrow> zsets_ok (fold (zrem key) ids D)"
    by (induction ids arbitrary: D) (simp_all add: zsets_ok_def zrem_def)
qed

interpretation zsets: composite_closed S X "\<lambda>c. zsets_ok (c_redis c)" for S :: "'s scheduler_store" and X
  by unfold_locales
    (auto simp: enqueue_run_def claim_next_run_ids_def redis_cmd_def zsets_cmds Let_def split: option.split)

section \<open>The queue in step with the run table\<close>

text \<open>Operations on jobs and on coordination rows leave the run table alone.\<close>

lemma execute_runs: "(\<And>db. t_run (snd (f db)) = t_run db) \<Longrightarrow> t_run (snd (sql_execute E n f db)) = t_run db"
  by (simp add: sql_execute_def split: option.split)

lemma map_opt_snd [simp]: "snd (sql_map_opt dec res) = snd res"
  by (simp add: sql_map_opt_def split: prod.split)

lemma affected_snd [simp]: "snd (affected res) = snd res" "snd (ignore_count res) = snd res"
  by (simp_all add: affected_def ignore_count_def split: prod.split)

lemma get_job_same: "snd (sql_get_job E i db) = db" "snd (sql_get_job_by_name E n db) = db"
  by (simp_all add: sql_get_job_def sql_get_job_by_name_def sql_execute_def split: option.split)

lemma get_job_db: "sql_get_job E i db = (a, db') \<Longrightarrow> db' = db" "sql_get_job_by_name E i db = (a, db') \<Longrightarrow> db' = db"
  using get_job_same[of E i db] by auto

lemma update_job_runs: "t_run (snd (update_job_row E n i p f db)) = t_run db"
  unfolding update_job_row_def by (rule execute_runs) simp

lemma require_job_snd: "snd (then_require_job E i res) = snd res"
  by (auto simp: then_require_job_def dest: get_job_db split: prod.splits sum.splits option.splits)

lemma other_ops_runs:
  "t_run (snd (sql_upsert_job E j db)) = t_run db"
  "t_run (snd (sql_delete_job E i db)) = t_run db"
  "t_run (snd (sql_append_revision E v db)) = t_run db"
  "t_run (snd (sql_upsert_script E sc db)) = t_run db"
  "t_run (snd (sql_try_acquire_leader E now inst ttl db)) = t_run db"
  "t_run (snd (sql_renew_leader_lease E now inst ttl db)) = t_run db"
  "t_run (snd (sql_upsert_partition_assignment E a db)) = t_run db"
  "t_run (snd (sql_register_worker E wk db)) = t_run db"
  "t_run (snd (sql_heartbeat_worker E wid now db)) = t_run db"
proof -
  have x: "sql_execute E n f db = (a, db') \<Longrightarrow> (\<And>db. t_run (snd (f db)) = t_run db) \<Longrightarrow> t_run db' = t_run db"
    for n db db' a and f :: "sql_db \<Rightarrow> 'a res \<times> sql_db"
    using execute_runs[of f E n db] by simp
  have ins: "t_run (snd (insert_job_row E row db)) = t_run db" for row db by (simp add: insert_job_row_def)
  show "t_run (snd (sql_upsert_job E j db)) = t_run db"
    by (auto simp: sql_upsert_job_def ins dest: x get_job_db split: sum.splits prod.splits chronon_error.splits option.splits)
  show "t_run (snd (sql_delete_job E i db)) = t_run db"
    by (auto simp: sql_delete_job_def dest!: x get_job_db split: sum.splits prod.splits option.splits)
  show "t_run (snd (sql_append_revision E v db)) = t_run db" "t_run (snd (sql_upsert_script E sc db)) = t_run db"
    "t_run (snd (sql_register_worker E wk db)) = t_run db"
    by (auto simp: sql_append_revision_def sql_upsert_script_def sql_register_worker_def Let_def intro!: execute_runs split: sum.split)
  show "t_run (snd (sql_try_acquire_leader E now inst ttl db)) = t_run db" "t_run (snd (sql_renew_leader_lease E now inst ttl db)) = t_run db"
    "t_run (snd (sql_upsert_partition_assignment E a db)) = t_run db"
    by (auto simp: sql_try_acquire_leader_def sql_renew_leader_lease_def sql_upsert_partition_assignment_def Let_def intro!: execute_runs)
  show "t_run (snd (sql_heartbeat_worker E wid now db)) = t_run db"
    by (auto simp: sql_heartbeat_worker_def dest!: x split: sum.splits prod.splits)
qed

lemma job_ops_runs:
  "t_run (snd (sql_pause_job E now i db)) = t_run db" "t_run (snd (sql_resume_job E now i db)) = t_run db"
  "t_run (snd (sql_try_claim_run_once E i who now ttl db)) = t_run db"
  "t_run (snd (sql_mark_run_once_completed E i now db)) = t_run db"
  "t_run (snd (sql_release_run_once_claim E i who now db)) = t_run db"
  "t_run (snd (sql_claim_job_for_tick E i cid now ttl db)) = t_run db"
  "t_run (snd (sql_release_job_tick_claim E now i db)) = t_run db"
  "t_run (snd (sql_persist_post_tick_job_state E now i nra db)) = t_run db"
  by (simp_all add: sql_pause_job_def sql_resume_job_def sql_try_claim_run_once_def sql_mark_run_once_completed_def
      sql_release_run_once_claim_def sql_claim_job_for_tick_def sql_release_job_tick_claim_def
      sql_persist_post_tick_job_state_def require_job_snd update_job_runs)

text \<open>Every operation of the composite that may write; a run is not updated back to the queued status.\<close>

inductive composite_step :: "sql_engine \<Rightarrow> redis_ctx \<Rightarrow> sql_db composite \<Rightarrow> sql_db composite \<Rightarrow> bool" for E X where
  "composite_step E X c (snd (so_upsert_job (composite_ops X (sql_ops E)) j c))"
| "composite_step E X c (snd (so_delete_job (composite_ops X (sql_ops E)) i c))"
| "composite_step E X c (snd (so_pause_job (composite_ops X (sql_ops E)) now i c))"
| "composite_step E X c (snd (so_resume_job (composite_ops X (sql_ops E)) now i c))"
| create: "composite_step E X c (snd (so_create_run (composite_ops X (sql_ops E)) r c))"
| update: "r_status r \<noteq> Queued \<Longrightarrow> composite_step E X c (snd (so_update_run (composite_ops X (sql_ops E)) r c))"
| claim_next: "composite_step E X c (snd (so_claim_next_queued (composite_ops X (sql_ops E)) p w now ttl c))"
| claim_id: "composite_step E X c (snd (so_claim_run_by_id (composite_ops X (sql_ops E)) i p w now ttl c))"
| claim_ids: "composite_step E X c (snd (so_claim_runs_by_ids (composite_ops X (sql_ops E)) ids p w now ttl c))"
| renew: "composite_step E X c (snd (so_renew_run_lease (composite_ops X (sql_ops E)) i w now ttl c))"
| reclaim: "composite_step E X c (snd (so_reclaim_expired_run_leases (composite_ops X (sql_ops E)) now c))"
| "composite_step E X c (snd (so_try_claim_run_once (composite_ops X (sql_ops E)) i who now ttl c))"
| "composite_step E X c (snd (so_mark_run_once_completed (composite_ops X (sql_ops E)) clk i now c))"
| "composite_step E X c (snd (so_release_run_once_claim (composite_ops X (sql_ops E)) i who now c))"
| "composite_step E X c (snd (so_claim_job_for_tick (composite_ops X (sql_ops E)) i cid now ttl c))"
| "composite_step E X c (snd (so_release_job_tick_claim (composite_ops X (sql_ops E)) now i c))"
| "composite_step E X c (snd (so_persist_post_tick_job_state (composite_ops X (sql_ops E)) now i nra c))"
| "composite_step E X c (snd (so_append_revision (composite_ops X (sql_ops E)) v c))"
| "composite_step E X c (snd (so_upsert_script (composite_ops X (sql_ops E)) sc c))"
| "composite_step E X c (snd (so_try_acquire_leader (composite_ops X (sql_ops E)) now inst ttl c))"
| "composite_step E X c (snd (so_renew_leader_lease (composite_ops X (sql_ops E)) now inst ttl c))"
| "composite_step E X c (snd (so_upsert_partition_assignment (composite_ops X (sql_ops E)) a c))"
| "composite_step E X c (snd (so_register_worker (composite_ops X (sql_ops E)) wk c))"
| "composite_step E X c (snd (so_heartbeat_worker (composite_ops X (sql_ops E)) wid now c))"

definition composite_empty :: "sql_db composite" where
  "composite_empty = \<lparr>c_sql = sql_empty, c_redis = (\<lambda>_. [])\<rparr>"

inductive composite_reachable :: "sql_engine \<Rightarrow> redis_ctx \<Rightarrow> sql_db composite \<Rightarrow> bool" for E X where
  init: "composite_reachable E X composite_empty"
| step: "composite_reachable E X c \<Longrightarrow> composite_step E X c c' \<Longrightarrow> composite_reachable E X c'"

definition queue_in_step :: "sql_engine \<Rightarrow> redis_ctx \<Rightarrow> sql_db composite \<Rightarrow> bool" where
  "queue_in_step E X c \<longleftrightarrow> sql_inv E (c_sql c) \<and> (\<forall>i. run_indexed X (sql_runs E (c_sql c)) (c_redis c) i)"

lemma queue_in_step_but:
  "sql_ok E \<Longrightarrow> queue_in_step E X c \<longleftrightarrow> id_claims.indexed_but (sql_inv E) (sql_runs E) X {} c"
  by (simp add: queue_in_step_def id_claims.indexed_but_def[OF sql_id_claims])

lemma sql_step_inv: "sql_ok E \<Longrightarrow> sql_reachable E db \<Longrightarrow> sql_step E db db' \<Longrightarrow> sql_reachable E db' \<and> sql_inv E db'"
  using sql_reachable.step sql_reachable_inv by blast

text \<open>An SQL statement that brings no run into the queue needs no change of the index.\<close>

lemma queue_kept:
  assumes "queue_in_step E X c" "sql_inv E db"
    "\<And>i r'. sql_runs E db i = Some r' \<Longrightarrow> r_status r' = Queued \<Longrightarrow> \<exists>r. sql_runs E (c_sql c) i = Some r \<and> r_status r = Queued \<and>
       r_pool_id r = r_pool_id r' \<and> r_scheduled_for r = r_scheduled_for r'"
  shows "queue_in_step E X (c\<lparr>c_sql := db\<rparr>)"
proof -
  have "run_indexed X (sql_runs E db) (c_redis c) i" for i
    unfolding run_indexed_def
  proof (intro allI impI)
    fix r' assume "sql_runs E db i = Some r'" "r_status r' = Queued"
    with assms(3) obtain r where "sql_runs E (c_sql c) i = Some r" "r_status r = Queued"
      "r_pool_id r = r_pool_id r'" "r_scheduled_for r = r_scheduled_for r'" by blast
    with assms(1) show "hm_get (c_redis c (ready_key (rx_layer X) (run_pool_key (r_pool_id r')))) i = Some (timestamp_millis (r_scheduled_for r'))"
      unfolding queue_in_step_def run_indexed_def by metis
  qed
  then show ?thesis using assms(2) by (simp add: queue_in_step_def)
qed

lemma queue_kept_same:
  assumes "queue_in_step E X c" "sql_inv E db" "t_run db = t_run (c_sql c)"
  shows "queue_in_step E X (c\<lparr>c_sql := db\<rparr>)"
  using assms(1,2) by (rule queue_kept) (auto simp: sql_runs_def assms(3))

lemma queue_kept_claim:
  assumes "queue_in_step E X c" "sql_inv E db" "sql_runs E db = claim_rows I p w now ttl (sql_runs E (c_sql c))"
  shows "queue_in_step E X (c\<lparr>c_sql := db\<rparr>)"
  using assms(1,2) by (rule queue_kept) (auto simp: assms(3) claim_rows_def mark_claimed_def split: if_splits)

lemma renew_kept:
  assumes "sql_ok E" "queue_in_step E X c"
  shows "queue_in_step E X (c\<lparr>c_sql := snd (sql_renew_run_lease E i w now ttl (c_sql c))\<rparr>)"
proof -
  have inv: "sql_inv E (c_sql c)" using assms(2) by (simp add: queue_in_step_def)
  let ?f = "\<lambda>r. r\<lparr>rr_claim_lease_until := Some (add_secs now ttl)\<rparr>"
  let ?p = "\<lambda>r. rr_run_id r = i \<and> rr_claimed_by r = Some w \<and> rr_status r \<in> {''claimed'', ''running''}"
  let ?q = "\<lambda>r. r_run_id r = i \<and> r_claimed_by r = Some w \<and> r_status r \<in> {Claimed, Running}"
  note upd = sql_runs_update[where f = ?f and g = "r_claim_lease_until_update (\<lambda>_. Some (add_secs now ttl))" and p = ?p and q = ?q,
      OF assms(1) inv run_enc_upd(2)]
  have q: "?p (run_enc (e_codec E) r) = ?q r" for r by (cases "r_status r") simp_all
  have "queue_in_step E X (c\<lparr>c_sql := (c_sql c)\<lparr>t_run := update_where ?p ?f (t_run (c_sql c))\<rparr>\<rparr>)"
  proof (rule queue_kept[OF assms(2)])
    fix k r' assume a: "sql_runs E ((c_sql c)\<lparr>t_run := update_where ?p ?f (t_run (c_sql c))\<rparr>) k = Some r'" "r_status r' = Queued"
    have "sql_runs E ((c_sql c)\<lparr>t_run := update_where ?p ?f (t_run (c_sql c))\<rparr>) k =
        map_option (\<lambda>r. if ?q r then r\<lparr>r_claim_lease_until := Some (add_secs now ttl)\<rparr> else r) (sql_runs E (c_sql c) k)"
      by (rule upd(3)[OF q]) simp
    with a show "\<exists>r. sql_runs E (c_sql c) k = Some r \<and> r_status r = Queued \<and> r_pool_id r = r_pool_id r' \<and>
        r_scheduled_for r = r_scheduled_for r'"
      by (cases "sql_runs E (c_sql c) k") (auto split: if_splits)
  qed (rule upd(1)[OF q], simp)
  then show ?thesis by (simp add: sql_renew_run_lease_def sql_okD[OF assms(1)] Let_def)
qed

lemma update_kept:
  assumes "sql_ok E" "queue_in_step E X c" "r_status r \<noteq> Queued"
  shows "queue_in_step E X (c\<lparr>c_sql := snd (sql_update_run E r (c_sql c))\<rparr>)"
proof -
  note T = sql_run_table[OF assms(1)]
  have inv: "sql_inv E (c_sql c)" using assms(2) by (simp add: queue_in_step_def)
  have "\<exists>db. snd (so_update_run (sql_ops E) r (c_sql c)) = db \<and> sql_inv E db \<and>
      (sql_runs E db = sql_runs E (c_sql c) \<or> sql_runs E db = (sql_runs E (c_sql c))(r_run_id r \<mapsto> r))"
    using run_table.update_run_ok[OF T inv, of r] run_table.update_run_missing[OF T inv, of r]
    by (cases "sql_runs E (c_sql c) (r_run_id r) = None") auto
  then obtain db where db: "snd (sql_update_run E r (c_sql c)) = db" "sql_inv E db"
    "sql_runs E db = sql_runs E (c_sql c) \<or> sql_runs E db = (sql_runs E (c_sql c))(r_run_id r \<mapsto> r)"
    by (auto simp: sql_ops_def)
  from assms(2) db(2) have "queue_in_step E X (c\<lparr>c_sql := db\<rparr>)"
    by (rule queue_kept) (use db(3) assms(3) in \<open>auto split: if_splits\<close>)
  with db(1) show ?thesis by simp
qed

context id_claims
begin

lemma create_indexes:
  assumes "redis_ok X" "indexed_but X {} c" "runs_of (c_sql c) (r_run_id r) = None"
  shows "indexed_but X {} (snd (redis_create_run X S r c))"
proof -
  have inv: "invar (c_sql c)" using assms(2) by (simp add: indexed_but_def)
  obtain s where s: "so_create_run S r (c_sql c) = (Inr (), s)" "invar s" "runs_of s = (runs_of (c_sql c))(r_run_id r \<mapsto> r)"
    using create_run[OF inv assms(3)] by blast
  have old: "run_indexed X (runs_of s) (c_redis c) k" if "k \<noteq> r_run_id r" for k
    using assms(2) that by (simp add: indexed_but_def s(3) run_indexed_def)
  show ?thesis
  proof (cases "r_status r = Queued")
    case True
    let ?D = "zadd (ready_key (rx_layer X) (run_pool_key (r_pool_id r))) (r_run_id r) (timestamp_millis (r_scheduled_for r)) (c_redis c)"
    have "run_indexed X (runs_of s) ?D k" for k
      using old by (cases "k = r_run_id r") (auto simp: run_indexed_zadd_other s(3) intro: run_indexed_zadd)
    then show ?thesis using s True by (simp add: redis_create_run_def enqueue_ok[OF assms(1)] indexed_but_def)
  next
    case False
    have "run_indexed X (runs_of s) (c_redis c) k" for k
      using old False by (cases "k = r_run_id r") (auto simp: s(3) run_indexed_def)
    then show ?thesis using s False by (simp add: redis_create_run_def indexed_but_def)
  qed
qed

lemma reenqueue_indexes:
  assumes "redis_ok X" "indexed_but X (set ids) c"
  shows "\<exists>D. reenqueue_all X S ids c = (Inr (), c\<lparr>c_redis := D\<rparr>) \<and> indexed_but X {} (c\<lparr>c_redis := D\<rparr>)"
  using assms(2)
proof (induction ids arbitrary: c)
  case Nil then show ?case by (intro exI[of _ "c_redis c"]) simp
next
  case (Cons i ids)
  have inv: "invar (c_sql c)" using Cons.prems by (simp add: indexed_but_def)
  show ?case
  proof (cases "runs_of (c_sql c) i")
    case None
    then have "run_indexed X (runs_of (c_sql c)) (c_redis c) i" by (simp add: run_indexed_def)
    with Cons.prems have "indexed_but X (set ids) c" by (auto intro: indexed_but_settle)
    from Cons.IH[OF this] None show ?thesis by (simp add: get_run[OF inv])
  next
    case (Some r)
    have id: "r_run_id r = i" using run_key[OF inv Some] .
    let ?c = "c\<lparr>c_redis := zadd (ready_key (rx_layer X) (run_pool_key (r_pool_id r))) i (timestamp_millis (r_scheduled_for r)) (c_redis c)\<rparr>"
    have "run_indexed X (runs_of (c_sql c)) (c_redis ?c) k" if "k \<notin> set ids" for k
      using Cons.prems Some that by (cases "k = i") (auto simp: indexed_but_def run_indexed_zadd_other intro: run_indexed_zadd)
    then have "indexed_but X (set ids) ?c" using inv by (simp add: indexed_but_def)
    from Cons.IH[OF this] Some id show ?thesis by (simp add: get_run[OF inv] enqueue_ok[OF assms(1)])
  qed
qed

lemma reclaim_indexes:
  assumes "redis_ok X" "indexed_but X {} c"
  shows "indexed_but X {} (snd (redis_reclaim_expired_run_leases X S now c))"
proof -
  have inv: "invar (c_sql c)" using assms(2) by (simp add: indexed_but_def)
  obtain ids s where s: "so_reclaim_expired_run_leases S now (c_sql c) = (Inr ids, s)" "invar s"
    "runs_of s = reclaim_rows now (runs_of (c_sql c))" "set ids = {i. \<exists>r. runs_of (c_sql c) i = Some r \<and> lease_expired now r}"
    using reclaim_expired[OF inv] by blast
  have "run_indexed X (runs_of s) (c_redis c) i" if "i \<notin> set ids" for i
    using assms(2) that by (auto simp: indexed_but_def s(3,4) reclaim_rows_def run_indexed_def)
  then have "indexed_but X (set ids) (c\<lparr>c_sql := s\<rparr>)" using s(2) by (simp add: indexed_but_def)
  from reenqueue_indexes[OF assms(1) this] s(1) show ?thesis
    by (auto simp: redis_reclaim_expired_run_leases_def)
qed

lemma claim_next_indexes:
  assumes "redis_ok X" "indexed_but X {} c"
  shows "indexed_but X {} (snd (redis_claim_next_queued X S pool wid now ttl c))"
  using single_loop_indexes[OF assms, of max_claim_attempts pool wid now ttl]
    batch_loop_indexes[OF assms, of "claim_batch_size (rx_env X)" max_claim_attempts pool wid now ttl]
  by (auto simp: redis_claim_next_queued_def Let_def)

end

section \<open>Every reachable state\<close>

lemma composite_step_reach:
  assumes "composite_step E X c c'" "sql_reachable E (c_sql c)"
  shows "sql_reachable E (c_sql c')"
  using assms
  by (induction rule: composite_step.induct)
    (simp_all add: composite_ops_def reach.claim_next_closed reach.create_run_closed reach.reclaim_leases_closed,
     simp_all add: sql_ops_def sql_reachable.step sql_step.intros)

lemma create_taken:
  "sql_ok E \<Longrightarrow> sql_inv E (c_sql c) \<Longrightarrow> sql_runs E (c_sql c) (r_run_id r) \<noteq> None \<Longrightarrow> snd (redis_create_run X (sql_ops E) r c) = c"
  using sql_runs_enc[of E "c_sql c" "r_run_id r"]
  by (auto simp: redis_create_run_def sql_ops_def sql_create_run_def sql_okD)

lemma composite_step_queue:
  assumes "composite_step E X c c'" "sql_ok E" "redis_ok X" "sql_reachable E (c_sql c)" "queue_in_step E X c"
  shows "queue_in_step E X c'"
proof -
  have inv: "sql_inv E (c_sql c)" using assms(5) by (simp add: queue_in_step_def)
  have inv': "sql_inv E (c_sql c')" using sql_reachable_inv[OF assms(2) composite_step_reach[OF assms(1,4)]] .
  note L = sql_id_claims[OF assms(2)] and but = queue_in_step_but[OF assms(2), of X]
  note keep = queue_kept_same[OF assms(5)] other_ops_runs job_ops_runs
  from assms(1) show ?thesis
  proof cases
    case (create r)
    then show ?thesis
      using id_claims.create_indexes[OF L assms(3), of c r] create_taken[OF assms(2) inv, of r X] assms(5) but
      by (cases "sql_runs E (c_sql c) (r_run_id r) = None") (auto simp: composite_ops_def)
  next
    case (update r)
    then show ?thesis using update_kept[OF assms(2,5)] by (simp add: composite_ops_def sql_ops_def)
  next
    case claim_next
    then show ?thesis using id_claims.claim_next_indexes[OF L assms(3)] assms(5) but by (simp add: composite_ops_def)
  next
    case (claim_id i p w now ttl)
    then show ?thesis using sql_claim_id[OF assms(2) inv, of i p w now ttl] queue_kept_claim[OF assms(5)]
      by (fastforce simp: composite_ops_def sql_ops_def)
  next
    case (claim_ids ids p w now ttl)
    then show ?thesis using id_claims.claim_ids[OF L inv, of ids p w now ttl] queue_kept_claim[OF assms(5)]
      by (fastforce simp: composite_ops_def)
  next
    case renew
    then show ?thesis using renew_kept[OF assms(2,5)] by (simp add: composite_ops_def sql_ops_def)
  next
    case reclaim
    then show ?thesis using id_claims.reclaim_indexes[OF L assms(3)] assms(5) but by (simp add: composite_ops_def)
  qed (use inv' in \<open>simp add: composite_ops_def sql_ops_def keep\<close>)+
qed

lemma composite_reachable_sql: "composite_reachable E X c \<Longrightarrow> sql_reachable E (c_sql c)"
  by (induction rule: composite_reachable.induct)
    (simp_all add: composite_empty_def sql_reachable.init composite_step_reach)

lemma composite_reachable_queue:
  "composite_reachable E X c \<Longrightarrow> sql_ok E \<Longrightarrow> redis_ok X \<Longrightarrow> queue_in_step E X c"
proof (induction rule: composite_reachable.induct)
  case init
  then show ?case using sql_inv_empty
    by (simp add: queue_in_step_def composite_empty_def run_indexed_def sql_runs_def sql_empty_def)
qed (use composite_step_queue composite_reachable_sql in blast)

lemma composite_reachable_zsets: "composite_reachable E X c \<Longrightarrow> zsets_ok (c_redis c)"
proof (induction rule: composite_reachable.induct)
  case init show ?case by (simp add: composite_empty_def zsets_ok_def)
next
  case (step c c')
  from step.hyps(2) step.IH show ?case
    by cases (simp_all add: composite_ops_def zsets.claim_next_closed zsets.create_run_closed zsets.reclaim_leases_closed)
qed

end
