(* ===== verification/Redis_Props.thy ===== *)
theory Redis_Props
  imports Redis_Steps
begin

text \<open>
  What the composite store promises: no queued run is missing from the ready queue, a claim finds the
  earliest ready run, and where the code falls short of it: claims in batches and failures of the database
  after the pop.
\<close>

section \<open>No queued run is missing\<close>


section \<open>A claim takes the earliest ready run\<close>

definition due_entries :: "string \<Rightarrow> int \<Rightarrow> redis_db \<Rightarrow> (string \<times> int) list" where
  "due_entries key max_score D = sort_key (\<lambda>(m, s). (s, m)) (filter (\<lambda>(m, s). s \<le> max_score) (D key))"

lemma zrange_entries: "zrange_due key max_score n D = map fst (take n (due_entries key max_score D))"
  by (simp add: zrange_due_def due_entries_def)

lemma due_entries_iff:
  "zsets_ok D \<Longrightarrow> (m, s) \<in> set (due_entries key max_score D) \<longleftrightarrow> hm_get (D key) m = Some s \<and> s \<le> max_score"
  by (auto simp: due_entries_def zsets_ok_def hm_entry_iff)

lemma due_entries_distinct: "zsets_ok D \<Longrightarrow> distinct (map fst (due_entries key max_score D))"
proof -
  assume "zsets_ok D"
  then have "distinct (map fst (D key))" by (simp add: zsets_ok_def hm_ok_def)
  then have "inj_on fst (set (filter (\<lambda>(m, s). s \<le> max_score) (D key)))" "distinct (filter (\<lambda>(m, s). s \<le> max_score) (D key))"
    by (auto simp: distinct_map inj_on_def)
  then show ?thesis unfolding due_entries_def distinct_map by simp
qed

lemma due_entries_sorted: "sorted (map snd (due_entries key max_score D))"
proof -
  have "sorted (map (\<lambda>(m, s). (s, m)) (due_entries key max_score D))" by (simp add: due_entries_def)
  then have "sorted_wrt (\<lambda>a b. (case a of (m, s) \<Rightarrow> (s, m)) \<le> (case b of (m, s) \<Rightarrow> (s, m))) (due_entries key max_score D)"
    by (simp add: sorted_map)
  then have "sorted_wrt (\<lambda>a b. snd a \<le> snd b) (due_entries key max_score D)"
    by (rule sorted_wrt_mono_rel[rotated]) (auto simp: less_eq_prod_def)
  then show ?thesis by (simp add: sorted_map)
qed

lemma due_entries_pop:
  assumes "zsets_ok D" "due_entries key max_score D = (i, sc) # L"
  shows "due_entries key max_score (zrem key i D) = L"
proof -
  have "due_entries key max_score (zrem key i D) = filter (\<lambda>e. i \<noteq> fst e) (due_entries key max_score D)"
    by (simp add: due_entries_def zrem_def filter_sort AList.delete_eq case_prod_beta' conj_commute)
  also have "\<dots> = L"
    using due_entries_distinct[OF assms(1), of key max_score] unfolding assms(2) by (auto simp: filter_id_conv)
  finally show ?thesis .
qed

context id_claims
begin

lemma single_loop_finds:
  assumes "redis_ok X" "indexed_but X {} c" "zsets_ok (c_redis c)"
    "due_entries (ready_key (rx_layer X) pool) (timestamp_millis now) (c_redis c) = stale @ (i, sc) # rest" "length stale < n"
    "\<And>k s r. (k, s) \<in> set stale \<Longrightarrow> runs_of (c_sql c) k = Some r \<Longrightarrow> r_status r \<noteq> Queued"
    "runs_of (c_sql c) i = Some r" "run_ready pool now r"
  shows "\<exists>c'. claim_single_loop n X S pool wid now ttl c = (Inr (Some (mark_claimed wid now ttl r)), c')"
  using assms(2-8)
proof (induction stale arbitrary: c n)
  case Nil
  let ?key = "ready_key (rx_layer X) pool"
  let ?c = "c\<lparr>c_redis := zrem ?key i (c_redis c)\<rparr>"
  have pop: "zrange_due ?key (timestamp_millis now) 1 (c_redis c) = [i]" using Nil.prems(3) by (simp add: zrange_entries)
  have "indexed_but X {i} ?c" using pop_indexed[OF Nil.prems(1), of "[i]" ?key] by simp
  from claim_one_indexes[OF assms(1) this, of pool wid now ttl] Nil.prems(6,7)
  obtain a c1 where a: "claim_one X S i pool wid now ttl ?c = (Inr a, c1)" "set_option a = {mark_claimed wid now ttl r}"
    by (auto simp: claimed_runs_one)
  from a(2) have "a = Some (mark_claimed wid now ttl r)" by (cases a) auto
  with a(1) have "claim_one X S i pool wid now ttl ?c = (Inr (Some (mark_claimed wid now ttl r)), c1)" by simp
  then show ?case using Nil.prems(4) pop by (cases n) (simp_all add: pop_one[OF assms(1)] Let_def)
next
  case (Cons e stale)
  obtain k s where e: "e = (k, s)" by (cases e)
  let ?key = "ready_key (rx_layer X) pool"
  let ?c = "c\<lparr>c_redis := zrem ?key k (c_redis c)\<rparr>"
  have pop: "zrange_due ?key (timestamp_millis now) 1 (c_redis c) = [k]" using Cons.prems(3) e by (simp add: zrange_entries)
  have but: "indexed_but X {k} ?c" using pop_indexed[OF Cons.prems(1), of "[k]" ?key] by simp
  have not: "\<forall>r. runs_of (c_sql c) k = Some r \<longrightarrow> r_status r \<noteq> Queued" using Cons.prems(5) e by auto
  obtain a c1 where c1: "claim_one X S k pool wid now ttl ?c = (Inr a, c1)" "indexed_but X {} c1"
    "runs_of (c_sql c1) = claim_rows {k} pool wid now ttl (runs_of (c_sql c))"
    "set_option a = claimed_runs {k} pool wid now ttl (runs_of (c_sql c))" "c_redis c1 = zrem ?key k (c_redis c)"
    using claim_one_indexes[OF assms(1) but, of pool wid now ttl] not by auto
  have none: "a = None" "runs_of (c_sql c1) = runs_of (c_sql c)"
    using c1(3,4) not by (auto simp: claim_rows_one claimed_runs_one run_ready_def split: option.splits if_splits)
  obtain m where m: "n = Suc m" "length stale < m" using Cons.prems(4) by (cases n) auto
  have "zsets_ok (c_redis c1)" using zsets_cmds(2)[OF Cons.prems(2), of ?key "[k]"] c1(5) by simp
  moreover have "due_entries ?key (timestamp_millis now) (c_redis c1) = stale @ (i, sc) # rest"
    using due_entries_pop[OF Cons.prems(2)] Cons.prems(3) e c1(5) by simp
  ultimately have "\<exists>c'. claim_single_loop m X S pool wid now ttl c1 = (Inr (Some (mark_claimed wid now ttl r)), c')"
    using Cons.prems(5-7) none(2) m(2) by (intro Cons.IH[OF c1(2)]) auto
  then show ?case using pop c1(1) none(1) m(1) by (simp add: pop_one[OF assms(1)] Let_def)
qed

end

text \<open>The entries of a sorted set that stand for no queued run.\<close>

definition stale_members :: "(string \<Rightarrow> run option) \<Rightarrow> (string, int) hashmap \<Rightarrow> int \<Rightarrow> string set" where
  "stale_members R zset max_score = {k. \<exists>s. hm_get zset k = Some s \<and> s \<le> max_score \<and> (\<forall>r. R k = Some r \<longrightarrow> r_status r \<noteq> Queued)}"

lemma ready_pool: "run_ready pool now r \<Longrightarrow> run_pool_key (r_pool_id r) = pool"
  by (auto simp: run_ready_def run_pool_key_def)

lemma first_live_entry:
  fixes R :: "string \<Rightarrow> run option" and D :: redis_db and key :: string and max_score :: int
  defines "L \<equiv> due_entries key max_score D" and "dead \<equiv> \<lambda>e. \<forall>r. R (fst e) = Some r \<longrightarrow> r_status r \<noteq> Queued"
  assumes "zsets_ok D" "e \<in> set L" "\<not> dead e" "card (stale_members R (D key) max_score) < n"
  obtains stale k s rest where "L = stale @ (k, s) # rest" "length stale < n" "\<forall>e \<in> set stale. dead e" "\<not> dead (k, s)" "s \<le> snd e"
proof -
  have "\<exists>e \<in> set L. \<not> dead e" using assms(4,5) by blast
  then obtain stale x rest where x: "L = stale @ x # rest" "\<not> dead x" "\<forall>e \<in> set stale. dead e"
    using split_list_first_propE[of L "\<lambda>e. \<not> dead e"] by metis
  obtain k s where ks: "x = (k, s)" by (cases x)
  have "distinct (map fst stale)" using due_entries_distinct[OF assms(3), of key max_score] x(1) by (simp add: L_def)
  then have "length stale = card (set (map fst stale))" by (metis distinct_card length_map)
  also have "set (map fst stale) \<subseteq> stale_members R (D key) max_score"
    using x(1,3) due_entries_iff[OF assms(3), of _ _ key max_score] unfolding L_def
    by (fastforce simp: stale_members_def dead_def)
  then have "card (set (map fst stale)) \<le> card (stale_members R (D key) max_score)"
    by (rule card_mono[rotated]) (auto intro: finite_subset[of _ "dom (hm_get (D key))"] simp: stale_members_def finite_dom_map_of)
  finally have len: "length stale < n" using assms(6) by simp
  have "e \<in> set (x # rest)" using assms(4,5) x(1,3) by auto
  moreover have "sorted (map snd (x # rest))"
    using due_entries_sorted[of key max_score D] x(1) by (simp add: L_def sorted_append)
  ultimately have "s \<le> snd e" using ks by auto
  with that x len ks show ?thesis by blast
qed

lemma claim_earliest:
  assumes "sql_ok E" "redis_ok X" "composite_reachable E X c" "claim_batch_size (rx_env X) = 1"
    "sql_runs E (c_sql c) i = Some r" "run_ready pool now r"
    "card (stale_members (sql_runs E (c_sql c)) (c_redis c (ready_key (rx_layer X) pool)) (timestamp_millis now)) < 64"
    "\<And>k s q. hm_get (c_redis c (ready_key (rx_layer X) pool)) k = Some s \<Longrightarrow> s \<le> timestamp_millis now \<Longrightarrow>
       sql_runs E (c_sql c) k = Some q \<Longrightarrow> r_status q = Queued \<Longrightarrow> run_ready pool now q"
  shows "\<exists>k q c'. redis_claim_next_queued X (sql_ops E) pool wid now ttl c = (Inr (Some (mark_claimed wid now ttl q)), c') \<and>
    sql_runs E (c_sql c) k = Some q \<and> run_ready pool now q \<and>
    timestamp_millis (r_scheduled_for q) \<le> timestamp_millis (r_scheduled_for r)"
proof -
  let ?key = "ready_key (rx_layer X) pool" and ?R = "sql_runs E (c_sql c)"
  note z = composite_reachable_zsets[OF assms(3)] and step = composite_reachable_queue[OF assms(3,1,2)]
  have q: "r_status r = Queued" using assms(6) by (simp add: run_ready_def)
  have score: "hm_get (c_redis c ?key) k = Some (timestamp_millis (r_scheduled_for x))" if x: "?R k = Some x" "run_ready pool now x" for k x
    using step x(1) ready_pool[OF x(2)] x(2) by (auto simp: queue_in_step_def run_indexed_def run_ready_def)
  have "hm_get (c_redis c ?key) i = Some (timestamp_millis (r_scheduled_for r))" by (rule score[OF assms(5,6)])
  moreover have "timestamp_millis (r_scheduled_for r) \<le> timestamp_millis now"
    using assms(6) by (simp add: run_ready_def timestamp_millis_def zdiv_mono1)
  ultimately have mem: "(i, timestamp_millis (r_scheduled_for r)) \<in> set (due_entries ?key (timestamp_millis now) (c_redis c))"
    by (simp add: due_entries_iff[OF z])
  obtain stale k s rest where L: "due_entries ?key (timestamp_millis now) (c_redis c) = stale @ (k, s) # rest" "length stale < 64"
    "\<forall>e \<in> set stale. \<forall>r. ?R (fst e) = Some r \<longrightarrow> r_status r \<noteq> Queued" "\<not> (\<forall>r. ?R (fst (k, s)) = Some r \<longrightarrow> r_status r \<noteq> Queued)"
    "s \<le> snd (i, timestamp_millis (r_scheduled_for r))"
    by (rule first_live_entry[OF z mem _ assms(7)]) (use assms(5) q in auto)
  then obtain x where x: "?R k = Some x" "r_status x = Queued" by auto
  have "(k, s) \<in> set (due_entries ?key (timestamp_millis now) (c_redis c))" unfolding L(1) by simp
  then have k: "hm_get (c_redis c ?key) k = Some s" "s \<le> timestamp_millis now" by (simp_all add: due_entries_iff[OF z])
  have ready: "run_ready pool now x" by (rule assms(8)[OF k x])
  have ms: "s = timestamp_millis (r_scheduled_for x)" using score[OF x(1) ready] k(1) by simp
  have "\<exists>c'. claim_single_loop max_claim_attempts X (sql_ops E) pool wid now ttl c = (Inr (Some (mark_claimed wid now ttl x)), c')"
    using id_claims.single_loop_finds[OF sql_id_claims[OF assms(1)] assms(2) _ z L(1,2) _ x(1) ready, where wid = wid and ttl = ttl] step L(3)
    by (auto simp: queue_in_step_but[OF assms(1)])
  with x ready ms L(5) show ?thesis by (auto simp: redis_claim_next_queued_def assms(4))
qed


section \<open>Where the composite falls short\<close>

text \<open>
  (C39) Claims in batches strand runs. When batches are configured and two ready runs stand in the popped batch, the
  claim returns one run, and another run is left claimed by the worker in the SQL table and gone from the
  ready queue although nobody was given it: it waits until its lease ends.
\<close>
theorem batch_claim_strands_runs:
  fixes X pool now c
  defines "ids \<equiv> zrange_due (ready_key (rx_layer X) pool) (timestamp_millis now) (claim_batch_size (rx_env X)) (c_redis c)"
  assumes "sql_ok E" "redis_ok X" "composite_reachable E X c" "1 < claim_batch_size (rx_env X)"
    "{i, k} \<subseteq> set ids" "i \<noteq> k" "sql_runs E (c_sql c) i = Some ri" "run_ready pool now ri"
    "sql_runs E (c_sql c) k = Some rk" "run_ready pool now rk"
  shows "\<exists>x y q c'. redis_claim_next_queued X (sql_ops E) pool wid now ttl c = (Inr (Some x), c') \<and> y \<noteq> r_run_id x \<and>
    sql_runs E (c_sql c') y = Some q \<and> r_status q = Claimed \<and> r_claimed_by q = Some wid \<and>
    r_claim_lease_until q = Some (add_secs now ttl) \<and> hm_get (c_redis c' (ready_key (rx_layer X) pool)) y = None"
proof -
  let ?R = "sql_runs E (c_sql c)" and ?m = "mark_claimed wid now ttl"
  note L = sql_id_claims[OF assms(2)]
  have inv: "sql_inv E (c_sql c)" using composite_reachable_queue[OF assms(4,2,3)] by (simp add: queue_in_step_def)
  have ne: "ids \<noteq> []" and b: "0 < claim_batch_size (rx_env X)" using assms(5,6) by auto
  have but: "id_claims.indexed_but (sql_inv E) (sql_runs E) X {} c"
    using composite_reachable_queue[OF assms(4,2,3)] queue_in_step_but[OF assms(2)] by blast
  obtain rs c1 where c1: "claim_batch_loop (Suc 63) (claim_batch_size (rx_env X)) X (sql_ops E) pool wid now ttl c =
       (case rs of x # _ \<Rightarrow> (Inr (Some x), c1) | [] \<Rightarrow> claim_batch_loop 63 (claim_batch_size (rx_env X)) X (sql_ops E) pool wid now ttl c1)"
    "sql_runs E (c_sql c1) = claim_rows (set ids) pool wid now ttl ?R" "set rs = claimed_runs (set ids) pool wid now ttl ?R"
    "\<forall>m \<in> r_run_id ` set rs. hm_get (c_redis c1 (ready_key (rx_layer X) pool)) m = None"
    using id_claims.batch_round[OF L assms(3) but b ne[unfolded ids_def], where n = 63 and wid = wid and ttl = ttl, folded ids_def] by blast
  have both: "?m ri \<in> set rs" "?m rk \<in> set rs" using c1(3) assms(6,8-11) by (auto simp: claimed_runs_def)
  have id: "r_run_id (?m ri) = i" "r_run_id (?m rk) = k" using sql_run_key[OF assms(2) inv] assms(8,10) by simp_all
  obtain x xs where rs: "rs = x # xs" using both(1) by (cases rs) auto
  obtain y r where y: "y \<noteq> r_run_id x" "?m r \<in> set rs" "r_run_id (?m r) = y" "y \<in> set ids" "?R y = Some r" "run_ready pool now r"
    using that[of i ri] that[of k rk] both id assms(6-11) by (cases "r_run_id x = i") auto
  have "sql_runs E (c_sql c1) y = Some (?m r)" using y(4-6) c1(2) by (simp add: claim_rows_def)
  moreover have "hm_get (c_redis c1 (ready_key (rx_layer X) pool)) y = None" using c1(4) imageI[OF y(2), of r_run_id] unfolding y(3) by (rule bspec)
  ultimately show ?thesis
    using c1(1) rs y(1) assms(5)
    by (intro exI[of _ x] exI[of _ y] exI[of _ "?m r"] exI[of _ c1]) (simp add: redis_claim_next_queued_def eval_nat_numeral mark_claimed_def)
qed

text \<open>
  (C40) A failure of the database loses the popped run. When the statement that claims the popped run fails, the
  claim returns that error with the SQL tables as they were, and the run it popped, still queued there, is
  no longer in the ready queue.
\<close>
theorem sql_error_loses_ready_run:
  assumes "redis_ok X" "claim_batch_size (rx_env X) = 1" "zrange_due (ready_key (rx_layer X) pool) (timestamp_millis now) 1 (c_redis c) = [i]"
    "e_fault E ''claim_run_by_id'' (c_sql c) = Some e"
  shows "\<exists>c'. redis_claim_next_queued X (sql_ops E) pool wid now ttl c = (Inl e, c') \<and> c_sql c' = c_sql c \<and>
    hm_get (c_redis c' (ready_key (rx_layer X) pool)) i = None"
proof -
  have "sql_claim_run_by_id E i pool wid now ttl (c_sql c) = (Inl e, c_sql c)"
    by (simp add: sql_claim_run_by_id_def sql_map_opt_def sql_execute_def assms(4) and_then_def)
  then have "so_claim_run_by_id (sql_ops E) i pool wid now ttl (c_sql c) = (Inl e, c_sql c)" by (simp add: sql_ops_def)
  then have loop: "claim_single_loop (Suc n) X (sql_ops E) pool wid now ttl c =
      (Inl e, c\<lparr>c_redis := zrem (ready_key (rx_layer X) pool) i (c_redis c)\<rparr>)" for n
    by (simp add: pop_one[OF assms(1)] assms(3)[unfolded One_nat_def] Let_def claim_one_def)
  from loop[of 63] show ?thesis by (simp add: redis_claim_next_queued_def assms(2) eval_nat_numeral zrem_def hm_simps)
qed

section \<open>Samples\<close>

text \<open>A Redis that answers, beside the exact engine, with a few runs created through the composite.\<close>

definition redis_sample :: "string option \<Rightarrow> redis_ctx" where
  "redis_sample batch = \<lparr>rx_layer = \<lparr>rq_single = True, rq_cluster = False, rq_key_prefix = ''chronon'', rq_hash_tags = False\<rparr>,
     rx_fault = (\<lambda>_ _. None), rx_env = (\<lambda>n. if n = ''CHRONON_CLAIM_BATCH'' then batch else None)\<rparr>"

lemma redis_sample_ok: "redis_ok (redis_sample batch)"
  by (simp add: redis_ok_def redis_sample_def)

lemma sample_batch: "claim_batch_size (rx_env (redis_sample None)) = 1" "claim_batch_size (rx_env (redis_sample (Some ''2''))) = 2"
proof -
  have "nat_to_string 2 = ''2''" by code_simp
  then have "parse_unsigned u64_max ''2'' = Some 2" using parse_nat_to_string[of 2 u64_max] by simp
  then show "claim_batch_size (rx_env (redis_sample None)) = 1" "claim_batch_size (rx_env (redis_sample (Some ''2''))) = 2"
    by (simp_all add: redis_sample_def claim_batch_size_def del: One_nat_def)
qed

abbreviation sample_store :: "string option \<Rightarrow> sql_db composite scheduler_store" where
  "sample_store batch \<equiv> composite_ops (redis_sample batch) (sql_ops (exact_engine Postgres))"

definition queue_of :: "string option \<Rightarrow> run list \<Rightarrow> sql_db composite" where
  "queue_of batch rs = fold (\<lambda>r c. snd (so_create_run (sample_store batch) r c)) rs composite_empty"

lemma queue_of_reachable: "composite_reachable (exact_engine Postgres) (redis_sample batch) (queue_of batch rs)"
  by (induction rs rule: rev_induct) (auto simp: queue_of_def intro: composite_reachable.intros composite_step.create)

lemma queue_of_runs:
  fixes batch :: "string option"
  defines "L \<equiv> rx_layer (redis_sample batch)"
  assumes "distinct (map r_run_id rs)" "\<forall>r \<in> set rs. r_status r = Queued"
  shows "sql_runs (exact_engine Postgres) (c_sql (queue_of batch rs)) = map_of (map (\<lambda>r. (r_run_id r, r)) rs) \<and>
    c_redis (queue_of batch rs) = fold (\<lambda>r. zadd (ready_key L (run_pool_key (r_pool_id r))) (r_run_id r) (timestamp_millis (r_scheduled_for r)))
      rs (\<lambda>_. [])"
  using assms(2,3)
proof (induction rs rule: rev_induct)
  case Nil
  show ?case by (simp add: queue_of_def composite_empty_def sql_runs_def sql_empty_def fun_eq_iff)
next
  case (snoc r rs)
  let ?c = "queue_of batch rs"
  have fresh: "sql_runs (exact_engine Postgres) (c_sql ?c) (r_run_id r) = None"
    using snoc by (auto simp: map_of_eq_None_iff)
  obtain db where db: "so_create_run (sql_ops (exact_engine Postgres)) r (c_sql ?c) = (Inr (), db)"
    "sql_runs (exact_engine Postgres) db = (sql_runs (exact_engine Postgres) (c_sql ?c))(r_run_id r \<mapsto> r)"
    using run_table.create_run[OF sql_run_table[OF exact_ok] _ fresh]
      sql_reachable_inv[OF exact_ok composite_reachable_sql[OF queue_of_reachable]] by blast
  have "queue_of batch (rs @ [r]) = ?c\<lparr>c_sql := db, c_redis :=
      zadd (ready_key L (run_pool_key (r_pool_id r))) (r_run_id r) (timestamp_millis (r_scheduled_for r)) (c_redis ?c)\<rparr>"
    using db(1) snoc.prems(2)
    by (simp add: queue_of_def composite_ops_def redis_create_run_def enqueue_ok[OF redis_sample_ok] L_def)
  moreover have "map_of (map (\<lambda>r. (r_run_id r, r)) (rs @ [r])) = (map_of (map (\<lambda>r. (r_run_id r, r)) rs))(r_run_id r \<mapsto> r)"
    using snoc fresh by (auto simp: fun_eq_iff map_add_def split: option.split)
  ultimately show ?case using db(2) snoc by simp
qed

definition two_runs :: "run list" where
  "two_runs = [run_new ''r1'' ''cleanup'' 5000000, run_new ''r2'' ''cleanup'' 7000000]"

lemma two_runs_facts:
  "sql_runs (exact_engine Postgres) (c_sql (queue_of batch two_runs)) =
     [''r1'' \<mapsto> run_new ''r1'' ''cleanup'' 5000000, ''r2'' \<mapsto> run_new ''r2'' ''cleanup'' 7000000]"
  "c_redis (queue_of batch two_runs) = (\<lambda>_. [])(''chronon:ready:general'' := [(''r1'', 5), (''r2'', 7)])"
  "ready_key (rx_layer (redis_sample batch)) ''general'' = ''chronon:ready:general''"
proof -
  show key: "ready_key (rx_layer (redis_sample batch)) ''general'' = ''chronon:ready:general''"
    by (simp add: ready_key_def format_ready_key_def redis_sample_def)
  show "sql_runs (exact_engine Postgres) (c_sql (queue_of batch two_runs)) =
     [''r1'' \<mapsto> run_new ''r1'' ''cleanup'' 5000000, ''r2'' \<mapsto> run_new ''r2'' ''cleanup'' 7000000]"
    using queue_of_runs[of two_runs batch] by (auto simp: two_runs_def run_new_def fun_eq_iff)
  show "c_redis (queue_of batch two_runs) = (\<lambda>_. [])(''chronon:ready:general'' := [(''r1'', 5), (''r2'', 7)])"
    using queue_of_runs[of two_runs batch] key
    by (simp add: two_runs_def run_new_def zadd_def run_pool_key_def timestamp_millis_def)
qed

lemma two_runs_ready:
  "run_ready ''general'' 9000000 (run_new ''r1'' ''cleanup'' 5000000)" "run_ready ''general'' 9000000 (run_new ''r2'' ''cleanup'' 7000000)"
  by (simp_all add: run_ready_def run_new_def)



lemma two_runs_popped:
  "zrange_due ''chronon:ready:general'' (timestamp_millis 9000000) n (c_redis (queue_of batch two_runs)) = take n [''r1'', ''r2'']"
  by (simp add: zrange_due_def two_runs_facts timestamp_millis_def flip: take_map)

theorem batch_claim_strands_runs_witness:
  "\<exists>x y q c'. redis_claim_next_queued (redis_sample (Some ''2'')) (sql_ops (exact_engine Postgres)) ''general'' ''w1'' 9000000 30
       (queue_of (Some ''2'') two_runs) = (Inr (Some x), c') \<and> y \<noteq> r_run_id x \<and>
     sql_runs (exact_engine Postgres) (c_sql c') y = Some q \<and> r_claimed_by q = Some ''w1'' \<and>
     hm_get (c_redis c' ''chronon:ready:general'') y = None"
proof -
  have ids: "{''r1'', ''r2''} \<subseteq> set (zrange_due (ready_key (rx_layer (redis_sample (Some ''2''))) ''general'') (timestamp_millis 9000000)
      (claim_batch_size (rx_env (redis_sample (Some ''2'')))) (c_redis (queue_of (Some ''2'') two_runs)))"
    by (simp add: sample_batch two_runs_facts(3) two_runs_popped)
  have "1 < claim_batch_size (rx_env (redis_sample (Some ''2'')))" by (simp add: sample_batch)
  from batch_claim_strands_runs[OF exact_ok redis_sample_ok queue_of_reachable this ids _ _ two_runs_ready(1) _ two_runs_ready(2),
      where wid = "''w1''" and ttl = 30]
  show ?thesis by (auto simp: two_runs_facts(1,3))
qed

definition broken_engine :: sql_engine where
  "broken_engine = (exact_engine Postgres)\<lparr>e_fault := \<lambda>n _. if n = ''claim_run_by_id'' then Some (StorageError ''connection reset'' None) else None\<rparr>"

theorem sql_error_loses_ready_run_witness:
  "\<exists>c'. redis_claim_next_queued (redis_sample None) (sql_ops broken_engine) ''general'' ''w1'' 9000000 30 (queue_of None two_runs) =
     (Inl (StorageError ''connection reset'' None), c') \<and> c_sql c' = c_sql (queue_of None two_runs) \<and>
     hm_get (c_redis c' ''chronon:ready:general'') ''r1'' = None"
proof -
  have pop: "zrange_due (ready_key (rx_layer (redis_sample None)) ''general'') (timestamp_millis 9000000) 1 (c_redis (queue_of None two_runs)) = [''r1'']"
    unfolding two_runs_facts(3) two_runs_popped by simp
  have "e_fault broken_engine ''claim_run_by_id'' (c_sql (queue_of None two_runs)) = Some (StorageError ''connection reset'' None)"
    by (simp add: broken_engine_def)
  from sql_error_loses_ready_run[OF redis_sample_ok sample_batch(1) pop this, of "''w1''" 30] show ?thesis
    by (simp add: two_runs_facts(3))
qed

end
