(* ===== verification/Redis_Contract.thy ===== *)
theory Redis_Contract
  imports Redis_Props
begin

text \<open>
  The composite keeps the contracts of the store it wraps: what a coordinator and a worker rely on holds of
  the composite whenever it holds of the SQL store and Redis answers, whatever stands in the ready queue.
\<close>

lemma redis_create_store:
  assumes "redis_ok X" "so_create_run S r (c_sql c) = (Inr (), s')"
  shows "\<exists>c'. redis_create_run X S r c = (Inr (), c') \<and> c_sql c' = s'"
  using assms(2) by (cases "r_status r = Queued") (simp_all add: redis_create_run_def enqueue_ok[OF assms(1)])

context job_table
begin

lemma composite_job_table:
  "job_table (composite_ops X S) (\<lambda>c. invar (c_sql c)) (\<lambda>c. jobs_of (c_sql c)) (\<lambda>c. runs_of (c_sql c))"
proof (unfold_locales, goal_cases)
  case (1 c i) then show ?case by (simp add: composite_ops_def get_job)
next
  case (2 c n j c')
  then show ?case using get_job_by_name_Some[OF 2(1), of n j "c_sql c'"] by (auto simp: composite_ops_def prod_eq_iff)
next
  case (3 c n c')
  then show ?case using get_job_by_name_None[OF 3(1), of n "c_sql c'"] by (fastforce simp: composite_ops_def prod_eq_iff)
next
  case (4 c n) then show ?case using get_job_by_name_ok[OF 4, of n] by (auto simp: composite_ops_def)
next
  case (5 c i j) then show ?case by (rule job_key)
next
  case (6 c i j i' j') then show ?case by (rule name_unique)
next
  case (7 c j) then show ?case using upsert_job_ok[OF 7] by (auto simp: composite_ops_def)
next
  case (8 c i j' j) then show ?case using upsert_job_taken[OF 8] by (simp add: composite_ops_def)
qed

end

context run_table
begin

lemma composite_run_table:
  assumes "redis_ok X"
  shows "run_table (composite_ops X S) (\<lambda>c. invar (c_sql c)) (\<lambda>c. jobs_of (c_sql c)) (\<lambda>c. runs_of (c_sql c))"
proof (rule run_table.intro[OF composite_job_table], unfold_locales, goal_cases)
  case (1 c r)
  then obtain s' where "so_create_run S r (c_sql c) = (Inr (), s')" "invar s'"
    "runs_of s' = (runs_of (c_sql c))(r_run_id r \<mapsto> r)" "jobs_of s' = jobs_of (c_sql c)"
    using create_run by blast
  with redis_create_store[OF assms this(1)] show ?case by (auto simp: composite_ops_def)
next
  case (2 c i) then show ?case by (simp add: composite_ops_def get_run)
next
  case (3 c i r) then show ?case by (rule run_key)
next
  case (4 c r) then show ?case using update_run_ok[OF 4] by (auto simp: composite_ops_def)
next
  case (5 c r) then show ?case using update_run_missing[OF 5] by (auto simp: composite_ops_def)
next
  case (6 c n i) then show ?case using list_runs_for_job[OF 6, of i] by (auto simp: composite_ops_def)
qed

end

context coordinator_claims
begin

lemma composite_coordinator_claims:
  assumes "redis_ok X"
  shows "coordinator_claims (composite_ops X S) (\<lambda>c. invar (c_sql c)) (\<lambda>c. jobs_of (c_sql c)) (\<lambda>c. runs_of (c_sql c)) once_free"
proof (rule coordinator_claims.intro[OF composite_run_table[OF assms]], unfold_locales, goal_cases)
  case (1 c i j now cid ttl) then show ?case using claim_tick_yes[OF 1, of cid ttl] by (auto simp: composite_ops_def)
next
  case (2 c i now cid ttl) then show ?case using claim_tick_no[OF 2, of cid ttl] by (simp add: composite_ops_def)
next
  case (3 c i j clk) then show ?case using release_tick[OF 3, of clk] by (auto simp: composite_ops_def)
next
  case (4 c i j clk nra) then show ?case using persist_post_tick[OF 4, of clk nra] by (auto simp: composite_ops_def)
next
  case (5 c i j who now ttl) then show ?case using once_claim_yes[OF 5, of ttl] by (auto simp: composite_ops_def)
next
  case (6 c i who now ttl) then show ?case using once_claim_no[OF 6, of ttl] by (simp add: composite_ops_def)
next
  case (7 c i j clk t) then show ?case using once_complete[OF 7, of clk t] by (auto simp: composite_ops_def)
next
  case 8 then show ?case by (rule once_blocked)
next
  case 9 then show ?case by (rule once_completed)
next
  case 10 show ?case by (rule once_ticked)
qed

end

context due_queries
begin

lemma composite_due_queries:
  assumes "redis_ok X"
  shows "due_queries (composite_ops X S) (\<lambda>c. invar (c_sql c)) (\<lambda>c. jobs_of (c_sql c)) (\<lambda>c. runs_of (c_sql c)) once_free"
proof (rule due_queries.intro[OF composite_coordinator_claims[OF assms]], unfold_locales, goal_cases)
  case (1 c clk owned due limit) then show ?case using find_due[OF 1, of clk owned due limit] by (auto simp: composite_ops_def)
next
  case (2 c owned) then show ?case using min_next[OF 2, of owned] by (auto simp: composite_ops_def)
qed

end

context id_claims
begin

text \<open>With single pops a claim changes the row it returns and no other.\<close>

lemma composite_run_claims:
  assumes "redis_ok X" "claim_batch_size (rx_env X) = 1"
  shows "run_claims (composite_ops X S) (\<lambda>c. invar (c_sql c)) (\<lambda>c. jobs_of (c_sql c)) (\<lambda>c. runs_of (c_sql c))"
proof -
  have all: "invar (c_sql c) \<Longrightarrow> indexed_but X UNIV c" for c by (simp add: indexed_but_def)
  note loop = single_loop_indexes[OF assms(1) all, where n = max_claim_attempts]
  have op: "so_claim_next_queued (composite_ops X S) pool wid now ttl c = claim_single_loop max_claim_attempts X S pool wid now ttl c" for pool wid now ttl c
    by (simp add: composite_ops_def redis_claim_next_queued_def assms(2))
  show ?thesis
  proof (rule run_claims.intro[OF composite_run_table[OF assms(1)]], unfold_locales, goal_cases)
    case (1 c pool wid now ttl r c')
    with loop[OF 1(1), of pool wid now ttl] show ?case
      by (auto simp: op indexed_but_def mark_claimed_def)
  next
    case (2 c pool wid now ttl a c')
    with loop[OF 2(1), of pool wid now ttl] show ?case by (auto simp: op indexed_but_def split: option.splits)
  qed
qed

end

section \<open>The composite over the SQL backend\<close>

locale redis_backend = sql_backend E for E +
  fixes X :: redis_ctx
  assumes redis_answers: "redis_ok X" and single_pops: "claim_batch_size (rx_env X) = 1"

sublocale redis_backend \<subseteq> composite: due_queries "composite_ops X (sql_ops E)" "\<lambda>c. sql_inv E (c_sql c)"
    "\<lambda>c. sql_jobs E (c_sql c)" "\<lambda>c. sql_runs E (c_sql c)" sql_once_free
  by (rule composite_due_queries[OF redis_answers])

sublocale redis_backend \<subseteq> composite: run_claims "composite_ops X (sql_ops E)" "\<lambda>c. sql_inv E (c_sql c)"
    "\<lambda>c. sql_jobs E (c_sql c)" "\<lambda>c. sql_runs E (c_sql c)"
  by (rule id_claims.composite_run_claims[OF sql_id_claims[OF engine_ok] redis_answers single_pops])

interpretation redis_exact: redis_backend "exact_engine Postgres" "redis_sample None"
  by unfold_locales (simp_all add: redis_sample_ok sample_batch exact_ok del: One_nat_def)

abbreviation composite_stored :: "sql_engine \<Rightarrow> string \<Rightarrow> sql_db composite world \<Rightarrow> bool" where
  "composite_stored E \<equiv> stored_run (\<lambda>c. sql_inv E (c_sql c)) (\<lambda>c. sql_runs E (c_sql c))"



end
