(* ===== verification/Remote_Client.thy ===== *)
theory Remote_Client
  imports Http_Props
begin

text \<open>
  \<^verbatim>\<open>chronon-runtime/src/remote_client.rs\<close>: the HTTP client of a process that runs no loops of its own. The
  transport (reqwest, the network, the JSON codecs of both sides) is a parameter: for each request it
  answers why it failed, or a status with the decoded envelope or the reason it did not decode. What the
  client relies on is \<open>delivers\<close>: a request to a route of the API gets the answer of its handler.
\<close>

section \<open>The client\<close>

definition trim_slash :: "string \<Rightarrow> string" where
  "trim_slash s = rev (dropWhile (\<lambda>c. c = CHR ''/'') (rev s))"

definition remote_timeout_ms :: "env \<Rightarrow> nat" where
  "remote_timeout_ms env =
     max 100 (case Option.bind (env ''CHRONON_REMOTE_HTTP_TIMEOUT_MS'') (parse_unsigned u64_max) of
                None \<Rightarrow> 3000 | Some ms \<Rightarrow> ms)"

record job_summary =
  js_job_id :: string
  js_job_name :: string
  js_script_name :: string
  js_enabled :: bool
  js_schedule_kind :: string
  js_cron_expr :: "string option"
  js_timezone :: "string option"
  js_next_run_at :: "string option"
  js_current_revision :: int
  js_created_at :: string
  js_updated_at :: string
  js_pool :: "string option"

record remote_job_response =
  rj_job_id :: string
  rj_job_name :: string
  rj_script_name :: string

text \<open>What a request comes back with, and the transport of the client.\<close>

type_synonym 'a reply = "string + nat \<times> (string + 'a api_response)"

record 's transport =
  tr_upsert :: "string \<Rightarrow> upsert_job_request \<Rightarrow> ('s, remote_job_response reply) proc"
  tr_list :: "string \<Rightarrow> ('s, job_summary list reply) proc"
  tr_run_now :: "string \<Rightarrow> string \<Rightarrow> json option \<Rightarrow> ('s, string reply) proc"

record 's remote_client =
  rc_base_url :: string
  rc_timeout_ms :: nat
  rc_transport :: "'s transport"

definition remote_new :: "env \<Rightarrow> 's transport \<Rightarrow> string \<Rightarrow> 's remote_client" where
  "remote_new env transport base_url =
     \<lparr>rc_base_url = trim_slash base_url, rc_timeout_ms = remote_timeout_ms env, rc_transport = transport\<rparr>"

definition api_url :: "'s remote_client \<Rightarrow> string \<Rightarrow> string" where
  "api_url c path = rc_base_url c @ ''/api/chronon'' @ path"

text \<open>The text of a status, as the \<^verbatim>\<open>http\<close> crate prints it, is the argument \<open>status_text\<close>.\<close>

definition parse_response :: "(nat \<Rightarrow> string) \<Rightarrow> nat \<times> (string + 'a api_response) \<Rightarrow> 'a res" where
  "parse_response status_text resp =
     (case resp of (status, decoded) \<Rightarrow>
        (case decoded of
           Inl e \<Rightarrow> Inl (InternalSource ''remote decode'' e)
         | Inr body \<Rightarrow>
             if \<not> (200 \<le> status \<and> status < 300) \<or> \<not> api_success body
             then Inl (Internal (case api_error body of None \<Rightarrow> ''HTTP '' @ status_text status | Some e \<Rightarrow> e))
             else (case api_data body of None \<Rightarrow> Inl (Internal ''remote empty data'') | Some d \<Rightarrow> Inr d)))"

definition remote_call :: "(nat \<Rightarrow> string) \<Rightarrow> string \<Rightarrow> ('s, 'a reply) proc \<Rightarrow> ('s, 'a res) proc" where
  "remote_call status_text what send =
     do { r \<leftarrow> send;
          ret (case r of Inl e \<Rightarrow> Inl (InternalSource what e) | Inr resp \<Rightarrow> parse_response status_text resp) }"

definition upsert_request :: "job \<Rightarrow> upsert_job_request" where
  "upsert_request j =
     \<lparr>u_job_name = j_job_name j, u_script_name = j_script_name j, u_cron_expr = j_cron_expr j,
      u_timezone = j_timezone j, u_schedule_kind = j_schedule_kind j, u_params = j_params_json j,
      u_enabled = j_enabled j, u_concurrency = j_concurrency j, u_timeout_ms = j_timeout_ms j,
      u_actor_json = Some (j_actor_json j), u_retry_policy = Some (j_retry_policy_json j),
      u_misfire_policy = Some (j_misfire_policy_json j),
      u_pool = Some (case j_pool j of None \<Rightarrow> [] | Some p \<Rightarrow> p)\<rparr>"

definition remote_upsert_job :: "(nat \<Rightarrow> string) \<Rightarrow> 's remote_client \<Rightarrow> job \<Rightarrow> ('s, unit res) proc" where
  "remote_upsert_job status_text c job =
     bind_ok (remote_call status_text ''remote upsert_job''
         (tr_upsert (rc_transport c) (api_url c ''/jobs/upsert'') (upsert_request job)))
       (\<lambda>_. ret (Inr ()))"

definition remote_list_jobs :: "(nat \<Rightarrow> string) \<Rightarrow> 's remote_client \<Rightarrow> ('s, job_summary list res) proc" where
  "remote_list_jobs status_text c =
     remote_call status_text ''remote list_jobs'' (tr_list (rc_transport c) (api_url c ''/jobs''))"

definition remote_run_now :: "(nat \<Rightarrow> string) \<Rightarrow> 's remote_client \<Rightarrow> string \<Rightarrow> ('s, string res) proc" where
  "remote_run_now status_text c job_id =
     bind_ok (remote_call status_text ''remote run_now''
         (tr_run_now (rc_transport c) (api_url c ''/jobs/run_now'') job_id None))
       (\<lambda>resp. ret (Inr resp))"

definition resolve_remote_base_url :: "env \<Rightarrow> string option" where
  "resolve_remote_base_url env =
     (case env ''CHRONON_REMOTE_BASE_URL'' of
        None \<Rightarrow> None
      | Some u \<Rightarrow> let t = trim u in if t = [] then None else Some (trim_slash t))"

section \<open>A transport that delivers\<close>

text \<open>
  On the wire an optional JSON value that is \<^verbatim>\<open>null\<close> and one that is absent are the same to the server.
  The client reads three fields of the stored job, and the summaries with the schedule kind as text.
  A handler that panics closes the connection.
\<close>

definition received_value :: "json option \<Rightarrow> json option" where
  "received_value v = (if v = Some JNull then None else v)"

definition as_received :: "upsert_job_request \<Rightarrow> upsert_job_request" where
  "as_received q = q\<lparr>u_actor_json := received_value (u_actor_json q),
     u_retry_policy := received_value (u_retry_policy q), u_misfire_policy := received_value (u_misfire_policy q)\<rparr>"

definition short_response :: "job_response \<Rightarrow> remote_job_response" where
  "short_response r = \<lparr>rj_job_id = jr_job_id r, rj_job_name = jr_job_name r, rj_script_name = jr_script_name r\<rparr>"

definition summary_of :: "job_response \<Rightarrow> job_summary" where
  "summary_of r =
     \<lparr>js_job_id = jr_job_id r, js_job_name = jr_job_name r, js_script_name = jr_script_name r,
      js_enabled = jr_enabled r, js_schedule_kind = kind_name (jr_schedule_kind r), js_cron_expr = jr_cron_expr r,
      js_timezone = jr_timezone r, js_next_run_at = jr_next_run_at r, js_current_revision = jr_current_revision r,
      js_created_at = jr_created_at r, js_updated_at = jr_updated_at r, js_pool = jr_pool r\<rparr>"

definition map_body :: "('a \<Rightarrow> 'b) \<Rightarrow> 'a api_response \<Rightarrow> 'b api_response" where
  "map_body f b = \<lparr>api_success = api_success b, api_data = map_option f (api_data b), api_error = api_error b\<rparr>"

definition reply_of :: "string \<Rightarrow> ('a \<Rightarrow> 'b) \<Rightarrow> 'a http \<Rightarrow> 'b reply" where
  "reply_of closed f r = (case r of None \<Rightarrow> Inl closed | Some (status, body) \<Rightarrow> Inr (status, Inr (map_body f body)))"

definition all_jobs_query :: list_jobs_query where
  "all_jobs_query = \<lparr>lj_job_name = None, lj_script_name = None, lj_enabled = None, lj_schedule_kind = None,
     lj_offset = None, lj_limit = None\<rparr>"

definition delivers ::
  "'s transport \<Rightarrow> string \<Rightarrow> ('sc, 'tz) ext \<Rightarrow> (time \<Rightarrow> string) \<Rightarrow> 's scheduler_store \<Rightarrow> 's chronon_state \<Rightarrow> http_parts \<Rightarrow> bool" where
  "delivers T host X fmt S st parts \<longleftrightarrow> (\<exists>closed.
     (\<forall>q w. run_state (tr_upsert T (host @ ''/api/chronon/jobs/upsert'') q) w =
        apfst (reply_of closed short_response) (run_state (http_upsert_job X fmt S st parts (as_received q)) w)) \<and>
     (\<forall>w. run_state (tr_list T (host @ ''/api/chronon/jobs'')) w =
        apfst (reply_of closed (map summary_of)) (run_state (http_list_jobs fmt S st parts all_jobs_query) w)) \<and>
     (\<forall>i p w. run_state (tr_run_now T (host @ ''/api/chronon/jobs/run_now'') i p) w =
        apfst (reply_of closed id) (run_state (http_run_now S st parts i (received_value p)) w)))"

lemma parse_reply_ok:
  assumes "parse_response status_text (status, Inr (map_body f body)) = Inr d"
  shows "200 \<le> status \<and> status < 300 \<and> api_success body \<and> (\<exists>x. api_data body = Some x \<and> d = f x)"
  using assms by (auto simp: parse_response_def map_body_def split: if_splits option.splits)

text \<open>The handlers answer with status 200 exactly when the envelope reports success with data.\<close>

definition honest :: "'a http \<Rightarrow> bool" where
  "honest r \<longleftrightarrow> (\<forall>status body. r = Some (status, body) \<longrightarrow>
     (if status = 200 then api_success body \<and> api_data body \<noteq> None else \<not> api_success body))"

lemma honest_simps [simp]:
  "code \<noteq> 200 \<Longrightarrow> honest (api_err code msg)" "honest (chronon_err e)" "honest (unauthorized m)" "honest (respond f r)"
  by (auto simp: honest_def api_err_def chronon_err_def chronon_status_not_ok unauthorized_def respond_def api_ok_def split: sum.splits)

lemma wp_always: "(\<And>r w. Q r w) \<Longrightarrow> wp m Q w"
  by (simp add: wp_def split: prod.split)

lemma request_job_honest: "request_job X req base = Inl r \<Longrightarrow> honest r"
  by (auto simp: request_job_def request_actor_def request_pool_def split: sum.splits option.splits if_splits)

lemma store_job_honest: "wp (http_store_job X fmt S job) (\<lambda>r w'. honest r) w"
  by (auto simp: http_store_job_def next_from_now_def Let_def wp_simps intro!: wp_always split: option.split sum.split)

lemma upsert_honest: "wp (http_upsert_job X fmt S st parts req) (\<lambda>r w'. honest r) w"
proof -
  have tail: "wp (case request_job X req base of Inl r \<Rightarrow> ret r | Inr job \<Rightarrow> http_store_job X fmt S job) (\<lambda>r w'. honest r) w" for base w
    by (cases "request_job X req base :: job_response http + job") (auto simp: wp_simps store_job_honest dest: request_job_honest)
  show ?thesis
    by (auto simp: http_upsert_job_def with_admin_def wp_simps intro!: wp_always tail split: sum.split option.split)
qed

section \<open>What the client achieves\<close>

lemma clamp_more [simp]:
  "j_enabled (job_clamp_security_bounds X j) = j_enabled j" "j_timezone (job_clamp_security_bounds X j) = j_timezone j"
  "j_params_json (job_clamp_security_bounds X j) = j_params_json j"
  by (simp_all add: job_clamp_security_bounds_def set_retry_policy_def Let_def split: option.splits)

lemma request_job_fields:
  assumes "request_job X req base = (Inr job :: 'a http + job)"
  shows "j_enabled job = u_enabled req" "j_timezone job = u_timezone req" "j_params_json job = u_params req"
    "u_pool req = Some raw \<Longrightarrow> normalize_pool raw = Inr (j_pool job)"
proof -
  obtain j1 j2 where j: "request_actor req (request_fields req base) = (Inr j1 :: 'a http + job)"
    "request_pool req (request_policies req j1) = (Inr j2 :: 'a http + job)" "job = job_clamp_security_bounds X j2"
    using assms by (auto simp: request_job_def split: sum.splits)
  obtain a where a: "j1 = (request_fields req base)\<lparr>j_actor_json := a\<rparr>" using request_actorD[OF j(1)] by blast
  obtain p where p: "j2 = (request_policies req j1)\<lparr>j_pool := p\<rparr>" using request_poolD[OF j(2)] by blast
  show "j_enabled job = u_enabled req" "j_timezone job = u_timezone req" "j_params_json job = u_params req"
    by (simp_all add: j(3) p a request_policies_def request_fields_def Let_def split: option.splits)
  show "u_pool req = Some raw \<Longrightarrow> normalize_pool raw = Inr (j_pool job)"
    using j(2) by (auto simp: j(3) request_pool_def split: sum.splits)
qed

lemma remote_upsert_delivered:
  assumes "delivers T (trim_slash base) X fmt S st parts"
    "run_state (remote_upsert_job status_text (remote_new env T base) job) w = (Inr (), w')"
  shows "\<exists>resp. run_state (http_upsert_job X fmt S st parts (as_received (upsert_request job))) w = (Some (200, resp), w')"
proof -
  let ?h = "http_upsert_job X fmt S st parts (as_received (upsert_request job))"
  obtain r w1 where h: "run_state ?h w = (r, w1)" by fastforce
  obtain closed where "run_state (tr_upsert T (trim_slash base @ ''/api/chronon/jobs/upsert'') (upsert_request job)) w =
      (reply_of closed short_response r, w1)"
    using assms(1) h by (auto simp: delivers_def)
  then have "run_state (remote_upsert_job status_text (remote_new env T base) job) w =
      (case (case reply_of closed short_response r of Inl e \<Rightarrow> Inl (InternalSource ''remote upsert_job'' e) | Inr x \<Rightarrow> parse_response status_text x)
       of Inl e \<Rightarrow> (Inl e, w1) | Inr _ \<Rightarrow> (Inr (), w1))"
    by (simp add: remote_upsert_job_def remote_call_def remote_new_def api_url_def bind_ok_def world_simps split: sum.split)
  with assms(2) obtain status body where "r = Some (status, body)" "api_success body" "w1 = w'"
    by (auto simp: reply_of_def dest!: parse_reply_ok split: sum.splits option.splits)
  moreover have "honest r" using upsert_honest[of X fmt S st parts "as_received (upsert_request job)" w] h by (simp add: wp_def)
  ultimately show ?thesis using h by (auto simp: honest_def split: if_splits)
qed

lemma remote_upsert_row:
  assumes "mem_reachable (w_store w)" "delivers T (trim_slash base) X fmt mem_ops st parts"
    "run_state (remote_upsert_job status_text (remote_new env T base) job) w = (Inr (), w')"
  shows "\<exists>i e. hm_get (m_jobs (w_store w')) = (hm_get (m_jobs (w_store w)))(i \<mapsto> e) \<and>
    j_job_name e = j_job_name job \<and> j_script_name e = j_script_name job \<and> j_enabled e = j_enabled job \<and>
    j_schedule_kind e = j_schedule_kind job \<and> j_cron_expr e = j_cron_expr job \<and> j_timezone e = j_timezone job \<and>
    j_params_json e = j_params_json job \<and>
    normalize_pool (case j_pool job of None \<Rightarrow> [] | Some p \<Rightarrow> p) = Inr (j_pool e) \<and>
    ((\<forall>k h. hm_get (m_jobs (w_store w)) k = Some h \<longrightarrow> j_job_name h \<noteq> j_job_name job) \<longrightarrow> i = w_uuid w (w_uuids w))"
proof -
  let ?q = "as_received (upsert_request job)"
  have inv: "mem_inv (w_store w)" using assms(1) by (rule mem_reachable_inv)
  obtain resp where "run_state (http_upsert_job X fmt mem_ops st parts ?q) w = (Some (200, resp), w')"
    using remote_upsert_delivered[OF assms(2,3)] by blast
  from http_upsert_ok[OF inv this] obtain b k n t where b: "upsert_base X (w_store w) ?q b"
    "(\<forall>i e. hm_get (m_jobs (w_store w)) i = Some e \<longrightarrow> j_job_name e \<noteq> u_job_name ?q) \<longrightarrow> j_job_id b = w_uuid w (w_uuids w)"
    "request_job X ?q b = (Inr k :: job_response http + job)"
    "hm_get (m_jobs (w_store w')) = (hm_get (m_jobs (w_store w)))(j_job_id b \<mapsto> (svc_with_partition X (w_env w) k)\<lparr>j_next_run_at := n, j_updated_at := t\<rparr>)"
    by (elim conjE exE) (rule that)
  have q: "u_job_name ?q = j_job_name job" "u_script_name ?q = j_script_name job" "u_enabled ?q = j_enabled job"
    "u_schedule_kind ?q = j_schedule_kind job" "u_cron_expr ?q = j_cron_expr job" "u_timezone ?q = j_timezone job"
    "u_params ?q = j_params_json job" "u_pool ?q = Some (case j_pool job of None \<Rightarrow> [] | Some p \<Rightarrow> p)"
    by (simp_all add: as_received_def upsert_request_def)
  have "j_job_name b = u_job_name ?q" "j_script_name b = u_script_name ?q"
    using b(1) by (auto simp: upsert_base_def job_new_def)
  then show ?thesis
    using b(2,4) request_jobD(2,3,5,6)[OF b(3)] request_job_fields[OF b(3)] q
    by (intro exI[of _ "j_job_id b"] exI[of _ "(svc_with_partition X (w_env w) k)\<lparr>j_next_run_at := n, j_updated_at := t\<rparr>"])
      (simp add: svc_with_partition_def)
qed

text \<open>
  (C0) A remote upsert reaches the store. When the transport delivers, a successful upsert through the client
  leaves one changed row on the server's in-memory store: the row of that job name, with the script,
  the schedule, the parameters and the switch of the given job and its pool, trimmed, or the default pool
  for none; every other row is as before. A job that is new to the server gets the identifier the server
  generates, not the one of the given job.
\<close>
theorem remote_upsert_stores:
  assumes "mem_reachable (w_store w)" "delivers T (trim_slash base) X fmt mem_ops st parts"
    "run_state (remote_upsert_job status_text (remote_new env T base) job) w = (Inr (), w')"
  shows "\<exists>i e. hm_get (m_jobs (w_store w')) = (hm_get (m_jobs (w_store w)))(i \<mapsto> e) \<and>
    j_job_name e = j_job_name job \<and> j_script_name e = j_script_name job \<and> j_enabled e = j_enabled job \<and>
    j_schedule_kind e = j_schedule_kind job \<and> j_cron_expr e = j_cron_expr job \<and> j_timezone e = j_timezone job \<and>
    j_params_json e = j_params_json job \<and>
    normalize_pool (case j_pool job of None \<Rightarrow> [] | Some p \<Rightarrow> p) = Inr (j_pool e) \<and>
    ((\<forall>k h. hm_get (m_jobs (w_store w)) k = Some h \<longrightarrow> j_job_name h \<noteq> j_job_name job) \<longrightarrow> i = w_uuid w (w_uuids w))"
  by (rule remote_upsert_row[OF assms])

text \<open>
  The identifier of the given job is not the server's: after an upsert of a job the server did not
  know, starting a run by the identifier of the given job is refused and nothing is stored.
\<close>

lemma remote_run_now_delivered:
  assumes "delivers T (trim_slash base) X fmt S st parts" "run_state (http_run_now S st parts i None) w = (r, w')" "honest r"
  shows "\<exists>a. run_state (remote_run_now status_text (remote_new env T base) i) w = (a, w') \<and>
    (\<forall>x. a = Inr x \<longleftrightarrow> (\<exists>body. r = Some (200, body) \<and> api_data body = Some x))"
proof -
  obtain closed where "run_state (tr_run_now T (trim_slash base @ ''/api/chronon/jobs/run_now'') i None) w = (reply_of closed id r, w')"
    using assms(1,2) by (auto simp: delivers_def received_value_def)
  then have "run_state (remote_run_now status_text (remote_new env T base) i) w =
      ((case reply_of closed id r of Inl e \<Rightarrow> Inl (InternalSource ''remote run_now'' e) | Inr x \<Rightarrow> parse_response status_text x), w')"
    by (simp add: remote_run_now_def remote_call_def remote_new_def api_url_def bind_ok_def world_simps split: sum.split)
  moreover have "(case reply_of closed id r of Inl e \<Rightarrow> Inl (InternalSource ''remote run_now'' e) | Inr x \<Rightarrow> parse_response status_text x) = Inr x \<longleftrightarrow>
      (\<exists>body. r = Some (200, body) \<and> api_data body = Some x)" for x
  proof (cases r)
    case (Some sb)
    then obtain status body where sb: "r = Some (status, body)" by (cases sb) auto
    then have "if status = 200 then api_success body \<and> api_data body \<noteq> None else \<not> api_success body" using assms(3) by (auto simp: honest_def)
    then show ?thesis by (cases "status = 200") (auto simp: sb reply_of_def parse_response_def map_body_def split: option.splits)
  qed (simp add: reply_of_def)
  ultimately show ?thesis by blast
qed

text \<open>
  (C0) The identifier of a remote job is the server's. When the transport delivers and the client upserts a job
  that the server did not know, then a run started by the identifier of the client's own job value is
  refused and stores nothing, unless that identifier is by chance one of the server's.
\<close>
theorem remote_run_now_needs_server_id:
  assumes "mem_reachable (w_store w)" "delivers T (trim_slash base) X fmt mem_ops st parts"
    "run_state (remote_upsert_job status_text (remote_new env T base) job) w = (Inr (), w1)"
    "\<forall>k h. hm_get (m_jobs (w_store w)) k = Some h \<longrightarrow> j_job_name h \<noteq> j_job_name job"
    "hm_get (m_jobs (w_store w)) (j_job_id job) = None" "j_job_id job \<noteq> w_uuid w (w_uuids w)"
  shows "\<exists>e w2. run_state (remote_run_now status_text (remote_new env T base) (j_job_id job)) w1 = (Inl e, w2) \<and>
    m_runs (w_store w2) = m_runs (w_store w1)"
proof -
  obtain i e where "hm_get (m_jobs (w_store w1)) = (hm_get (m_jobs (w_store w)))(i \<mapsto> e)" "i = w_uuid w (w_uuids w)"
    using remote_upsert_row[OF assms(1-3)] assms(4) by blast
  then have none: "hm_get (m_jobs (w_store w1)) (j_job_id job) = None" using assms(5,6) by simp
  have "run_state (run_now_with_params mem_ops (j_job_id job) None) w1 = (Inl (JobNotFound (j_job_id job)), w1)"
    using none by (simp add: run_now_with_params_def run_now_with_params_and_actor_def bind_ok_def world_simps mem_ops_def mem_get_job_def)
  then obtain r where r: "run_state (http_run_now mem_ops st parts (j_job_id job) None) w1 = (r, w1)" "honest r"
    "\<forall>body. r \<noteq> Some (200, body)"
    by (cases "require_admin st parts") (auto simp: http_run_now_def with_admin_def run_state_bind respond_def, auto simp: unauthorized_def)
  obtain a where "run_state (remote_run_now status_text (remote_new env T base) (j_job_id job)) w1 = (a, w1)" "\<forall>x. a \<noteq> Inr x"
    using remote_run_now_delivered[OF assms(2) r(1,2), of status_text env] r(3) by blast
  then show ?thesis by (cases a) auto
qed

section \<open>A transport inside one process\<close>

definition loopback :: "('sc, 'tz) ext \<Rightarrow> (time \<Rightarrow> string) \<Rightarrow> 's scheduler_store \<Rightarrow> 's chronon_state \<Rightarrow> http_parts \<Rightarrow> 's transport" where
  "loopback X fmt S st parts =
     \<lparr>tr_upsert = (\<lambda>_ q. do { r \<leftarrow> http_upsert_job X fmt S st parts (as_received q); ret (reply_of ''closed'' short_response r) }),
      tr_list = (\<lambda>_. do { r \<leftarrow> http_list_jobs fmt S st parts all_jobs_query; ret (reply_of ''closed'' (map summary_of) r) }),
      tr_run_now = (\<lambda>_ i p. do { r \<leftarrow> http_run_now S st parts i (received_value p); ret (reply_of ''closed'' id r) })\<rparr>"

lemma loopback_delivers: "delivers (loopback X fmt S st parts) host X fmt S st parts"
  by (auto simp: delivers_def loopback_def run_state_bind world_simps split: prod.split intro!: exI[of _ "''closed''"])

definition remote_job :: job where
  "remote_job = sample_job\<lparr>j_job_id := ''local'', j_schedule_kind := RunOnce, j_params_json := JObject [], j_enabled := True, j_cron_expr := None,
     j_timezone := None, j_concurrency := 5000, j_timeout_ms := Some 0, j_actor_json := JNull, j_retry_policy_json := JNull,
     j_misfire_policy_json := JNull, j_pool := Some ''gpu''\<rparr>"

lemma remote_job_request: "as_received (upsert_request remote_job) = once_request"
  by (simp add: as_received_def upsert_request_def received_value_def remote_job_def once_request_def sample_job_def job_new_def)

abbreviation sample_client :: "mem_store remote_client" where
  "sample_client \<equiv> remote_new (\<lambda>_. None) (loopback sample_ext nat_fmt mem_ops open_state no_parts) ''http://host/''"

lemma remote_job_accepted:
  "\<exists>w'. run_state (remote_upsert_job nat_to_string sample_client remote_job) (sample_world mem_new) = (Inr (), w')"
proof -
  obtain resp w' where ok: "run_state (http_upsert_job sample_ext nat_fmt mem_ops open_state no_parts once_request) (sample_world mem_new) =
      (Some (200, resp), w')" using once_upsert_ok by blast
  have "honest (Some (200, resp))"
    using upsert_honest[of sample_ext nat_fmt mem_ops open_state no_parts once_request "sample_world mem_new"] ok by (simp add: wp_def)
  then obtain d where "api_success resp" "api_data resp = Some d" by (auto simp: honest_def)
  with ok show ?thesis
    by (simp add: remote_upsert_job_def remote_call_def remote_new_def loopback_def remote_job_request bind_ok_def world_simps
        run_state_bind reply_of_def parse_response_def map_body_def)
qed

theorem remote_upsert_stores_witness:
  "\<exists>w' e. run_state (remote_upsert_job nat_to_string sample_client remote_job) (sample_world mem_new) = (Inr (), w') \<and>
     hm_get (m_jobs (w_store w')) = [''id-0'' \<mapsto> e] \<and> j_job_name e = ''nightly'' \<and> j_pool e = Some ''gpu''"
proof -
  let ?w = "sample_world mem_new"
  obtain w' where ok: "run_state (remote_upsert_job nat_to_string sample_client remote_job) ?w = (Inr (), w')"
    using remote_job_accepted by blast
  have st: "mem_reachable (w_store ?w)" "hm_get (m_jobs (w_store ?w)) = Map.empty" "w_uuid ?w (w_uuids ?w) = ''id-0''"
    by (simp_all add: sample_world_def mem_reachable.init nat_to_string.simps char_of_def bit_simps) (simp add: mem_new_def)
  have j: "j_job_name remote_job = ''nightly''" "j_pool remote_job = Some ''gpu''"
    by (simp_all add: remote_job_def sample_job_def job_new_def)
  from remote_upsert_stores[OF st(1) loopback_delivers ok] obtain i e where
    "hm_get (m_jobs (w_store w')) = [i \<mapsto> e]" "j_job_name e = ''nightly''" "normalize_pool ''gpu'' = Inr (j_pool e)" "i = ''id-0''"
    unfolding st(2,3) by (auto simp: j)
  with ok show ?thesis by (auto simp: gpu_pool)
qed

theorem remote_run_now_needs_server_id_witness:
  "\<exists>w1 e w2. run_state (remote_upsert_job nat_to_string sample_client remote_job) (sample_world mem_new) = (Inr (), w1) \<and>
     run_state (remote_run_now nat_to_string sample_client ''local'') w1 = (Inl e, w2)"
proof -
  let ?w = "sample_world mem_new"
  obtain w1 where ok: "run_state (remote_upsert_job nat_to_string sample_client remote_job) ?w = (Inr (), w1)"
    using remote_job_accepted by blast
  have st: "mem_reachable (w_store ?w)" "hm_get (m_jobs (w_store ?w)) = Map.empty" "''local'' \<noteq> w_uuid ?w (w_uuids ?w)"
    by (simp_all add: sample_world_def mem_reachable.init) (simp add: mem_new_def)
  have id: "j_job_id remote_job = ''local''" by (simp add: remote_job_def)
  from remote_run_now_needs_server_id[OF st(1) loopback_delivers ok] st(2,3) ok show ?thesis unfolding id by auto
qed

end
