(* ===== verification/Runtime.thy ===== *)
theory Runtime
  imports Worker Lifecycle Tick Election
begin

text \<open>
  Assembly of a process: the store router (\<^verbatim>\<open>chronon-core/src/router.rs\<close>), the builder and the assembled runtime
  (\<^verbatim>\<open>builder.rs\<close>, \<^verbatim>\<open>runtime.rs\<close>, \<^verbatim>\<open>embedded.rs\<close>, \<^verbatim>\<open>coordinator.rs\<close> of \<^verbatim>\<open>chronon-runtime\<close>). A runtime is the set of tasks
  it spawns; the bodies of the tasks are the loops of the other theories. The scripts linked into the
  binary (the \<^verbatim>\<open>inventory\<close>) are an argument of \<^verbatim>\<open>build\<close>.
\<close>

section \<open>The store router\<close>

type_synonym 's store_router = "(string, 's scheduler_store) hashmap"

abbreviation default_store_name :: string where "default_store_name \<equiv> ''default''"

definition router_new :: "'s store_router" where "router_new = []"

definition router_register :: "string \<Rightarrow> 's scheduler_store \<Rightarrow> 's store_router \<Rightarrow> 's store_router" where
  "router_register name store r = hm_insert name store r"

definition router_get :: "'s store_router \<Rightarrow> string \<Rightarrow> 's scheduler_store option" where
  "router_get r name = hm_get r name"

text \<open>The process-wide router, a \<^verbatim>\<open>OnceLock\<close>: the first use initialises it.\<close>

definition global_router :: "'s store_router option \<Rightarrow> 's store_router \<times> 's store_router option" where
  "global_router g = (let r = (case g of None \<Rightarrow> router_new | Some r \<Rightarrow> r) in (r, Some r))"

definition install_global :: "'s store_router \<Rightarrow> 's store_router option \<Rightarrow> 's store_router option" where
  "install_global router g = (case g of None \<Rightarrow> Some router | Some r \<Rightarrow> Some r)"

definition register_global :: "string \<Rightarrow> 's scheduler_store \<Rightarrow> 's store_router option \<Rightarrow> 's store_router option" where
  "register_global name store g = (case global_router g of (r, _) \<Rightarrow> Some (router_register name store r))"

definition default_store_from_global :: "'s store_router option \<Rightarrow> 's scheduler_store res \<times> 's store_router option" where
  "default_store_from_global g =
     (case global_router g of (r, g') \<Rightarrow>
        (case router_get r default_store_name of
           Some store \<Rightarrow> (Inr store, g')
         | None \<Rightarrow> (Inl (StorageError ''no default SchedulerStore registered'' None), g')))"

definition install_default_mem_store :: "mem_store store_router option \<Rightarrow> mem_store store_router option" where
  "install_default_mem_store g = register_global default_store_name mem_ops g"

section \<open>The builder\<close>

datatype deployment_shape = Embedded | CoordinatorOnly | WorkerShape string | RemoteClient string

record 's chronon_builder =
  b_store :: "'s scheduler_store option"
  b_context_factory :: "context_factory option"
  b_telemetry :: "(tele \<Rightarrow> log_event list) option"
  b_registry :: "'s script_registry option"
  b_deployment :: deployment_shape
  b_auto_registry :: bool
  b_tick_interval_ms :: nat
  b_instance_id :: "string option"

definition builder_new :: "env \<Rightarrow> 's chronon_builder" where
  "builder_new env =
     \<lparr>b_store = None, b_context_factory = None, b_telemetry = None, b_registry = None, b_deployment = Embedded,
      b_auto_registry = False, b_tick_interval_ms = tick_interval_ms_from_env env, b_instance_id = None\<rparr>"

definition builder_store_from_global ::
  "'s chronon_builder \<Rightarrow> 's store_router option \<Rightarrow> 's chronon_builder res \<times> 's store_router option" where
  "builder_store_from_global b g =
     (case default_store_from_global g of
        (Inl e, g') \<Rightarrow> (Inl e, g') | (Inr store, g') \<Rightarrow> (Inr (b\<lparr>b_store := Some store\<rparr>), g'))"

record 's chronon =
  ch_store :: "'s scheduler_store"
  ch_scheduler :: scheduler
  ch_executor :: "'s executor"
  ch_deployment :: deployment_shape
  ch_event_capacity :: nat
  ch_event_rx :: bool

definition chronon_new ::
  "'s scheduler_store \<Rightarrow> scheduler \<Rightarrow> 's executor \<Rightarrow> deployment_shape \<Rightarrow> nat \<Rightarrow> 's chronon" where
  "chronon_new store sd ex shape capacity =
     \<lparr>ch_store = store, ch_scheduler = sd, ch_executor = ex, ch_deployment = shape,
      ch_event_capacity = capacity, ch_event_rx = True\<rparr>"

definition builder_build ::
  "'s script_descriptor list \<Rightarrow> 's chronon_builder \<Rightarrow> ('s, 's chronon res) proc" where
  "builder_build inventory b =
     (case b_store b of
        None \<Rightarrow> ret (Inl (Internal ''scheduler_store is required''))
      | Some store \<Rightarrow> do {
          let factory = (case b_context_factory b of None \<Rightarrow> noop_context_factory | Some f \<Rightarrow> f);
          let telemetry = (case b_telemetry b of None \<Rightarrow> noop_events | Some t \<Rightarrow> t);
          let registry = (case b_registry b of
                Some r \<Rightarrow> r
              | None \<Rightarrow> if b_auto_registry b then from_inventory inventory else registry_new);
          instance_id \<leftarrow> (case b_instance_id b of None \<Rightarrow> new_uuid | Some i \<Rightarrow> ret i);
          env \<leftarrow> env_vars;
          let sd = scheduler_new \<lparr>sc_tick_interval_ms = b_tick_interval_ms b, sc_instance_id = instance_id,
                sc_num_partitions = num_partitions_from_env env, sc_embedded = (b_deployment b = Embedded)\<rparr>;
          ret (Inr (chronon_new store sd (executor_new registry factory telemetry (executor_concurrency_from_env env))
                (b_deployment b) (event_channel_capacity_from_env env))) })"

section \<open>The tasks of a runtime\<close>

text \<open>
  \<open>TickLoop\<close> carries whether the process is the leader without an election, \<open>WorkerSlot\<close> its pool and worker
  identifier, \<open>HeartbeatLoop\<close> the identifier and the pool.
\<close>

datatype task = EventHandler | TickLoop bool | ElectionLoop | WorkerSlot string string | ReclaimLoop | HeartbeatLoop string string

definition worker_tasks :: "env \<Rightarrow> string \<Rightarrow> string \<Rightarrow> task list" where
  "worker_tasks env pool_id instance_id =
     map (WorkerSlot pool_id) (worker_slot_ids env instance_id pool_id) @
     [ReclaimLoop, HeartbeatLoop (instance_id @ '':'' @ pool_id) pool_id]"

definition run_embedded_loops :: "'s scheduler_store \<Rightarrow> scheduler \<Rightarrow> ('s, scheduler \<times> task list) proc" where
  "run_embedded_loops S sd =
     do { sd' \<leftarrow> init_partitions S sd;
          env \<leftarrow> env_vars;
          ret (sd', TickLoop True # worker_tasks env (worker_pool_from_env env) (sc_instance_id (sd_config sd'))) }"

definition run_coordinator_loops :: "task list" where
  "run_coordinator_loops = [ElectionLoop, TickLoop False]"

definition chronon_run :: "'s chronon \<Rightarrow> ('s, unit res \<times> 's chronon \<times> task list) proc" where
  "chronon_run c =
     (let handler = (if ch_event_rx c then [EventHandler] else []);
          c' = c\<lparr>ch_event_rx := False\<rparr>
      in case ch_deployment c of
           RemoteClient _ \<Rightarrow>
             ret (Inl (Internal ''remote client does not run local scheduler loop''), c', handler)
         | Embedded \<Rightarrow> do {
             (sd', tasks) \<leftarrow> run_embedded_loops (ch_store c) (ch_scheduler c);
             ret (Inr (), c'\<lparr>ch_scheduler := sd'\<rparr>, handler @ tasks) }
         | CoordinatorOnly \<Rightarrow> ret (Inr (), c', handler @ run_coordinator_loops)
         | WorkerShape pool \<Rightarrow> do {
             env \<leftarrow> env_vars;
             ret (Inr (), c', handler @ worker_tasks env pool (sc_instance_id (sd_config (ch_scheduler c)))) })"

section \<open>Shutdown\<close>

text \<open>
  \<^verbatim>\<open>Notify::notify_waiters\<close> wakes the tasks that wait on \<^verbatim>\<open>shutdown.notified()\<close> at that moment and leaves nothing behind
  for later ones. The tick loop waits on it through all of its work, which stands in the same
  \<^verbatim>\<open>select!\<close>; the election, reclaim and heartbeat loops do their work in the handler of the other branch
  and do not wait meanwhile; a worker slot and the event handler have no \<^verbatim>\<open>shutdown\<close> at all.
\<close>

datatype phase = Resting | Busy | Stopped

fun awaits_shutdown :: "task \<Rightarrow> phase \<Rightarrow> bool" where
  "awaits_shutdown (TickLoop _) p \<longleftrightarrow> p \<noteq> Stopped"
| "awaits_shutdown ElectionLoop p \<longleftrightarrow> p = Resting"
| "awaits_shutdown ReclaimLoop p \<longleftrightarrow> p = Resting"
| "awaits_shutdown (HeartbeatLoop _ _) p \<longleftrightarrow> p = Resting"
| "awaits_shutdown (WorkerSlot _ _) p \<longleftrightarrow> False"
| "awaits_shutdown EventHandler p \<longleftrightarrow> False"

definition chronon_shutdown :: "(task \<times> phase) list \<Rightarrow> (task \<times> phase) list" where
  "chronon_shutdown ps = map (\<lambda>(t, p). (t, if awaits_shutdown t p then Stopped else p)) ps"

inductive runtime_step :: "(task \<times> phase) list \<Rightarrow> (task \<times> phase) list \<Rightarrow> bool" where
  work: "i < length ps \<Longrightarrow> ps ! i = (t, Resting) \<Longrightarrow> runtime_step ps (ps[i := (t, Busy)])"
| rest: "i < length ps \<Longrightarrow> ps ! i = (t, Busy) \<Longrightarrow> runtime_step ps (ps[i := (t, Resting)])"
| shutdown: "runtime_step ps (chronon_shutdown ps)"

inductive_cases runtime_stepE: "runtime_step ps ps'"

definition started :: "task list \<Rightarrow> (task \<times> phase) list" where
  "started ts = map (\<lambda>t. (t, Resting)) ts"

lemma shutdown_length [simp]: "length (chronon_shutdown ps) = length ps"
  by (simp add: chronon_shutdown_def)

lemma shutdown_nth: "i < length ps \<Longrightarrow> chronon_shutdown ps ! i = (fst (ps ! i), if awaits_shutdown (fst (ps ! i)) (snd (ps ! i)) then Stopped else snd (ps ! i))"
  by (simp add: chronon_shutdown_def case_prod_beta')

text \<open>The tasks stay, a stopped one stays stopped, and one that never waits is never stopped.\<close>

lemma runtime_steps:
  assumes "runtime_step\<^sup>*\<^sup>* ps ps'"
  shows "map fst ps' = map fst ps \<and> (\<forall>i < length ps. (snd (ps ! i) = Stopped \<longrightarrow> snd (ps' ! i) = Stopped) \<and>
     ((\<forall>p. \<not> awaits_shutdown (fst (ps ! i)) p) \<longrightarrow> snd (ps ! i) \<noteq> Stopped \<longrightarrow> snd (ps' ! i) \<noteq> Stopped))"
  using assms
proof (induction rule: rtranclp_induct)
  case (step ps1 ps2)
  have len: "length ps1 = length ps" "map fst ps1 = map fst ps" using step.IH by (auto dest: map_eq_imp_length_eq)
  have fst: "fst (ps1 ! i) = fst (ps ! i)" if "i < length ps" for i
    using len that by (metis nth_map)
  from step.hyps(2) show ?case
  proof cases
    case (work i t)
    then show ?thesis using step.IH len by (auto simp: nth_list_update map_update)
      (metis fst_conv list_update_id map_update nth_map)+
  next
    case (rest i t)
    then show ?thesis using step.IH len by (auto simp: nth_list_update map_update)
      (metis fst_conv list_update_id map_update nth_map)+
  next
    case shutdown
    have "map fst (chronon_shutdown ps1) = map fst ps1" by (simp add: chronon_shutdown_def comp_def case_prod_beta')
    then show ?thesis using step.IH len fst unfolding shutdown by (auto simp: shutdown_nth)
  qed
qed simp

section \<open>What a started runtime does\<close>

definition is_slot :: "task \<Rightarrow> bool" where
  "is_slot t \<longleftrightarrow> (\<exists>p w. t = WorkerSlot p w)"

lemma slots_count:
  "length (filter is_slot (worker_tasks env pool inst)) = worker_concurrency_from_env env"
proof -
  have "filter is_slot (map (WorkerSlot pool) ids) = map (WorkerSlot pool) ids" for ids
    by (auto simp: filter_id_conv is_slot_def)
  then show ?thesis by (simp add: worker_tasks_def worker_slot_ids_def is_slot_def)
qed

lemma alive_slots:
  assumes "runtime_step\<^sup>*\<^sup>* (started ts) ps"
  shows "length (filter (\<lambda>(t, p). is_slot t \<and> p \<noteq> Stopped) ps) = length (filter is_slot ts)"
proof -
  have ps: "map fst ps = ts" using runtime_steps[OF assms] by (simp add: started_def comp_def)
  have alive: "snd (ps ! i) \<noteq> Stopped" if i: "i < length ts" "is_slot (ts ! i)" for i
  proof -
    have "\<not> awaits_shutdown (fst (started ts ! i)) p" for p using i by (auto simp: started_def is_slot_def)
    then show ?thesis using runtime_steps[OF assms] i(1) by (auto simp: started_def)
  qed
  have "filter (\<lambda>(t, p). is_slot t \<and> p \<noteq> Stopped) ps = filter (\<lambda>e. is_slot (fst e)) ps"
  proof (rule filter_cong[OF refl])
    fix e assume "e \<in> set ps"
    then obtain i where i: "i < length ps" "e = ps ! i" by (metis in_set_conv_nth)
    then have "fst e = ts ! i" "i < length ts" using ps by auto
    with alive[of i] i show "(case e of (t, p) \<Rightarrow> is_slot t \<and> p \<noteq> Stopped) = is_slot (fst e)" by (auto simp: case_prod_beta')
  qed
  then have "length (filter (\<lambda>(t, p). is_slot t \<and> p \<noteq> Stopped) ps) = length (filter is_slot (map fst ps))"
    by (simp add: filter_map comp_def)
  with ps show ?thesis by simp
qed

lemma build_shape:
  assumes "run_state (builder_build inventory b) w = (Inr c, w')"
  shows "ch_deployment c = b_deployment b" "sc_embedded (sd_config (ch_scheduler c)) \<longleftrightarrow> b_deployment b = Embedded" "w_env w' = w_env w"
  using assms
  by (auto simp: builder_build_def chronon_new_def scheduler_new_def Let_def world_simps run_state_bind split: option.splits)

text \<open>
  (C0) Shutdown does not stop the workers. Whatever the tasks of a built and started embedded or worker runtime do
  and however often it is shut down, none of its worker slots ever stops, although a shutdown stops the
  tick loop at once, and every other loop that rests at that moment.
\<close>
theorem shutdown_leaves_slots:
  assumes "run_state (builder_build inventory b) w0 = (Inr c, w)" "run_state (chronon_run c) w = ((Inr (), c', ts), w')"
    "b_deployment b \<noteq> CoordinatorOnly" "runtime_step\<^sup>*\<^sup>* (started ts) ps"
  shows "length (filter (\<lambda>(t, p). is_slot t \<and> p \<noteq> Stopped) (chronon_shutdown ps)) = worker_concurrency_from_env (w_env w0) \<and>
    (\<forall>t p. (t, p) \<in> set (chronon_shutdown ps) \<longrightarrow> (\<exists>leader. t = TickLoop leader) \<longrightarrow> p = Stopped) \<and>
    (\<forall>t. (t, Resting) \<in> set (chronon_shutdown ps) \<longrightarrow> is_slot t \<or> t = EventHandler)"
proof -
  have "runtime_step\<^sup>*\<^sup>* (started ts) (chronon_shutdown ps)" using assms(4) runtime_step.shutdown by (rule rtranclp.rtrancl_into_rtrancl)
  note alive = alive_slots[OF this] and shape = build_shape[OF assms(1)]
  have "\<exists>pre pool inst. ts = pre @ worker_tasks (w_env w0) pool inst \<and> filter is_slot pre = []"
  proof (cases "b_deployment b")
    case Embedded
    with assms(2) shape have "ts = ((if ch_event_rx c then [EventHandler] else []) @ [TickLoop True]) @
        worker_tasks (w_env w0) (worker_pool_from_env (w_env w0)) (sc_instance_id (sd_config (ch_scheduler c)))"
      by (auto simp: chronon_run_def run_embedded_loops_def init_partitions_def Let_def world_simps)
    then show ?thesis by (intro exI conjI) (assumption, simp add: is_slot_def)
  next
    case (WorkerShape pool)
    with assms(2) shape have "ts = (if ch_event_rx c then [EventHandler] else []) @
        worker_tasks (w_env w0) pool (sc_instance_id (sd_config (ch_scheduler c)))"
      by (auto simp: chronon_run_def Let_def world_simps)
    then show ?thesis by (intro exI conjI) (assumption, simp add: is_slot_def)
  next
    case RemoteClient
    with assms(2) shape show ?thesis by (auto simp: chronon_run_def Let_def)
  qed (use assms(3) in simp)
  then have slots: "length (filter is_slot ts) = worker_concurrency_from_env (w_env w0)" by (auto simp: slots_count)
  have tick: "p = Stopped" if "(TickLoop leader, p) \<in> set (chronon_shutdown ps)" for leader p
    using that by (auto simp: chronon_shutdown_def split: if_splits)
  have rest: "is_slot t \<or> t = EventHandler" if "(t, Resting) \<in> set (chronon_shutdown ps)" for t
    using that by (cases t) (auto simp: chronon_shutdown_def is_slot_def split: if_splits)
  from alive slots tick rest show ?thesis by auto
qed

text \<open>A built and started worker process of the general pool.\<close>

definition sample_builder :: "mem_store chronon_builder" where
  "sample_builder = (builder_new (\<lambda>_. None))\<lparr>b_store := Some mem_ops, b_deployment := WorkerShape ''general'', b_instance_id := Some ''w''\<rparr>"

theorem shutdown_leaves_slots_witness:
  "\<exists>c w c' ts w'. run_state (builder_build [] sample_builder) (sample_world mem_new) = (Inr c, w) \<and>
     run_state (chronon_run c) w = ((Inr (), c', ts), w') \<and>
     length (filter (\<lambda>(t, p). is_slot t \<and> p \<noteq> Stopped) (chronon_shutdown (started ts))) = 4"
proof -
  obtain c w where c: "run_state (builder_build [] sample_builder) (sample_world mem_new) = (Inr c, w)"
    by (simp add: builder_build_def sample_builder_def builder_new_def Let_def world_simps)
  have shape: "b_deployment (sample_builder :: mem_store chronon_builder) = WorkerShape ''general''" by (simp add: sample_builder_def)
  then have "\<exists>ts. run_state (chronon_run c) w = ((Inr (), c\<lparr>ch_event_rx := False\<rparr>, ts), w)"
    using build_shape(1)[OF c] by (simp add: chronon_run_def Let_def world_simps)
  then obtain ts where ts: "run_state (chronon_run c) w = ((Inr (), c\<lparr>ch_event_rx := False\<rparr>, ts), w)" by blast
  have "b_deployment (sample_builder :: mem_store chronon_builder) \<noteq> CoordinatorOnly" using shape by simp
  from shutdown_leaves_slots[OF c ts this rtranclp.rtrancl_refl]
  have "length (filter (\<lambda>(t, p). is_slot t \<and> p \<noteq> Stopped) (chronon_shutdown (started ts))) = 4"
    by (simp add: sample_world_def worker_concurrency_from_env_def env_unsigned_def)
  with c ts show ?thesis by blast
qed

section \<open>The global store\<close>

text \<open>
  An installed router supplies the default store, but only when nothing has touched the global router
  before: a lookup that finds no store initialises it, and the router installed after that is lost.
\<close>

lemma install_global_lookup:
  assumes "router_get r default_store_name = Some store"
  shows "fst (default_store_from_global (install_global r None)) = Inr store"
    "fst (default_store_from_global (install_global r (snd (default_store_from_global None)))) =
       Inl (StorageError ''no default SchedulerStore registered'' None)"
  using assms by (simp_all add: default_store_from_global_def install_global_def global_router_def router_new_def router_get_def Let_def)

lemma register_global_lookup: "default_store_from_global (register_global default_store_name store g) = (Inr store, register_global default_store_name store g)"
  by (simp add: default_store_from_global_def register_global_def global_router_def router_register_def router_get_def Let_def hm_simps split: option.split)

text \<open>A store is the only thing \<^verbatim>\<open>build\<close> insists on.\<close>

lemma build_needs_store:
  "(\<exists>c. fst (run_state (builder_build inventory b) w) = Inr c) \<longleftrightarrow> b_store b \<noteq> None"
  "b_store b = None \<Longrightarrow> run_state (builder_build inventory b) w = (Inl (Internal ''scheduler_store is required''), w)"
  by (auto simp: builder_build_def Let_def world_simps run_state_bind split: option.splits prod.splits)

end
