(* ===== verification/Sql_Connect.thy ===== *)
theory Sql_Connect
  imports Sql_Claim_Props
begin

text \<open>
  Opening an SQL store: the connect functions of \<^verbatim>\<open>backend.rs\<close>, the bootstrap of the schema (\<^verbatim>\<open>schema.rs\<close>), the
  wrappers of \<^verbatim>\<open>chronon-backend-sqlite\<close> and \<^verbatim>\<open>chronon-backend-postgres\<close>, and the forwarding of the store operations
  (\<^verbatim>\<open>delegate.rs\<close>). The driver is a parameter: for each action, after the actions so far, it succeeds or says
  why not. A session is the record of the actions that were tried.
\<close>

section \<open>Sessions with a driver\<close>

datatype ddl = CreateTable string | CreateIndex string

datatype conn_action =
    ParseSqliteUrl string
  | OpenSqlite string bool nat
  | OpenPostgres string nat "string option"
  | Acquire
  | AdvisoryLock
  | AdvisoryUnlock
  | RunDdl ddl
  | Exec string

type_synonym driver = "conn_action list \<Rightarrow> conn_action \<Rightarrow> string option"

text \<open>\<open>None\<close> in the result is a panic of the error mapping.\<close>

type_synonym 'a session = "conn_action list \<Rightarrow> 'a res option \<times> conn_action list"

definition act :: "driver \<Rightarrow> (string \<Rightarrow> chronon_error option) \<Rightarrow> conn_action \<Rightarrow> unit session" where
  "act D on_err a h =
     (case D h a of
        None \<Rightarrow> (Some (Inr ()), h @ [a])
      | Some e \<Rightarrow> (map_option Inl (on_err e), h @ [a]))"

definition and_then_act :: "'a session \<Rightarrow> ('a \<Rightarrow> 'b session) \<Rightarrow> 'b session" where
  "and_then_act m f h =
     (case m h of
        (None, h') \<Rightarrow> (None, h') | (Some (Inl e), h') \<Rightarrow> (Some (Inl e), h') | (Some (Inr a), h') \<Rightarrow> f a h')"

definition done_with :: "'a res \<Rightarrow> 'a session" where
  "done_with r h = (Some r, h)"

section \<open>The schema\<close>

definition schema_table_ddls :: "ddl list" where
  "schema_table_ddls = map CreateTable
     [''chronon_job'', ''chronon_run'', ''chronon_job_revision'', ''chronon_script'', ''chronon_scheduler_leader'',
      ''chronon_partition_assignment'', ''chronon_worker'']"

definition schema_index_ddls :: "ddl list" where
  "schema_index_ddls = map CreateIndex
     [''chronon_job_name'', ''chronon_job_due_partitions'', ''chronon_run_job_id'', ''chronon_run_queued_pool'',
      ''chronon_job_revision_job'']"

primrec run_ddls :: "driver \<Rightarrow> ddl list \<Rightarrow> unit session" where
  "run_ddls D [] = done_with (Inr ())"
| "run_ddls D (d # ds) = and_then_act (act D map_err (RunDdl d)) (\<lambda>_. run_ddls D ds)"

definition ensure_schema_tables :: "driver \<Rightarrow> unit session" where
  "ensure_schema_tables D = and_then_act (run_ddls D schema_table_ddls) (\<lambda>_. run_ddls D schema_index_ddls)"

text \<open>For PostgreSQL the statements run on one connection, under an advisory lock; the result of the unlock is ignored.\<close>

definition ensure_schema :: "driver \<Rightarrow> sql_dialect \<Rightarrow> unit session" where
  "ensure_schema D dialect =
     (case dialect of
        Sqlite \<Rightarrow> ensure_schema_tables D
      | Postgres \<Rightarrow>
          and_then_act (act D map_err Acquire) (\<lambda>_.
          and_then_act (act D map_err AdvisoryLock) (\<lambda>_ h.
            case ensure_schema_tables D h of
              (None, h') \<Rightarrow> (None, h')
            | (Some r, h') \<Rightarrow> (Some r, h' @ [AdvisoryUnlock]))))"

section \<open>Connecting\<close>

definition connect_sqlite :: "driver \<Rightarrow> string \<Rightarrow> sql_dialect session" where
  "connect_sqlite D url =
     and_then_act (act D (map_connect_err ''sqlite'' url) (ParseSqliteUrl url)) (\<lambda>_.
     and_then_act (act D (map_connect_err ''sqlite'' url) (OpenSqlite url (sqlite_url_is_file_backed url) 5)) (\<lambda>_.
     and_then_act (ensure_schema D Sqlite) (\<lambda>_. done_with (Inr Sqlite))))"

definition open_postgres :: "driver \<Rightarrow> string \<Rightarrow> nat \<Rightarrow> string option \<Rightarrow> unit session" where
  "open_postgres D url n search_path = act D (map_connect_err ''postgres'' url) (OpenPostgres url n search_path)"

definition connect_postgres :: "(string \<Rightarrow> string option) \<Rightarrow> driver \<Rightarrow> string \<Rightarrow> sql_dialect session" where
  "connect_postgres env D url =
     and_then_act (open_postgres D url (postgres_max_connections env) None) (\<lambda>_.
     and_then_act (ensure_schema D Postgres) (\<lambda>_. done_with (Inr Postgres)))"

definition connect_postgres_isolated :: "(string \<Rightarrow> string option) \<Rightarrow> driver \<Rightarrow> string \<Rightarrow> string \<Rightarrow> sql_dialect session" where
  "connect_postgres_isolated env D url schema =
     and_then_act (done_with (validate_postgres_schema_name schema)) (\<lambda>_.
     and_then_act (open_postgres D url 1 None) (\<lambda>_.
     and_then_act (act D map_err (Exec (create_schema_ddl schema))) (\<lambda>_.
     and_then_act (open_postgres D url (postgres_max_connections env) (Some (search_path_sql schema))) (\<lambda>_.
     and_then_act (ensure_schema D Postgres) (\<lambda>_. done_with (Inr Postgres))))))"

definition attach_postgres_isolated :: "(string \<Rightarrow> string option) \<Rightarrow> driver \<Rightarrow> string \<Rightarrow> string \<Rightarrow> sql_dialect session" where
  "attach_postgres_isolated env D url schema =
     and_then_act (done_with (validate_postgres_schema_name schema)) (\<lambda>_.
     and_then_act (open_postgres D url (postgres_max_connections env) (Some (search_path_sql schema))) (\<lambda>_.
     done_with (Inr Postgres)))"

definition drop_postgres_schema :: "driver \<Rightarrow> string \<Rightarrow> string \<Rightarrow> unit session" where
  "drop_postgres_schema D url schema =
     and_then_act (done_with (validate_postgres_schema_name schema)) (\<lambda>_.
     and_then_act (open_postgres D url 1 None) (\<lambda>_.
     act D map_err (Exec (drop_schema_ddl schema))))"

definition sqlite_store_new :: "driver \<Rightarrow> string \<Rightarrow> sql_dialect session" where
  "sqlite_store_new D path = connect_sqlite D (''sqlite://'' @ path @ ''?mode=rwc'')"

definition postgres_test_url :: "(string \<Rightarrow> string option) \<Rightarrow> string" where
  "postgres_test_url env =
     (case env ''CHRONON_POSTGRES_URL'' of
        Some u \<Rightarrow> u
      | None \<Rightarrow> (case env ''CHRONON_TEST_POSTGRES_URL'' of Some u \<Rightarrow> u | None \<Rightarrow> ''postgres://localhost/chronon_test''))"

definition postgres_store_from_env :: "(string \<Rightarrow> string option) \<Rightarrow> driver \<Rightarrow> sql_dialect session" where
  "postgres_store_from_env env D =
     (let url = postgres_test_url env
      in case env ''CHRONON_POSTGRES_SCHEMA'' of
           Some schema \<Rightarrow>
             if env ''CHRONON_POSTGRES_SKIP_BOOTSTRAP'' \<noteq> None then attach_postgres_isolated env D url schema
             else connect_postgres_isolated env D url schema
         | None \<Rightarrow> connect_postgres env D url)"

section \<open>Forwarding wrappers\<close>

text \<open>\<^verbatim>\<open>delegate_scheduler_store!\<close>: every method of the wrapper calls the method of the inner store.\<close>

definition delegate_ops :: "'s scheduler_store \<Rightarrow> 's scheduler_store" where
  "delegate_ops S =
     \<lparr>so_upsert_job = (\<lambda>j. so_upsert_job S j), so_get_job = (\<lambda>i. so_get_job S i),
      so_get_job_by_name = (\<lambda>n. so_get_job_by_name S n), so_list_jobs = so_list_jobs S,
      so_list_due_jobs = (\<lambda>t. so_list_due_jobs S t),
      so_pause_job = (\<lambda>clk i. so_pause_job S clk i), so_resume_job = (\<lambda>clk i. so_resume_job S clk i),
      so_delete_job = (\<lambda>i. so_delete_job S i),
      so_create_run = (\<lambda>r. so_create_run S r), so_update_run = (\<lambda>r. so_update_run S r), so_get_run = (\<lambda>i. so_get_run S i),
      so_list_runs_for_job = (\<lambda>i n. so_list_runs_for_job S i n),
      so_list_runs_filtered = (\<lambda>i st n k. so_list_runs_filtered S i st n k),
      so_claim_next_queued = (\<lambda>p w now ttl. so_claim_next_queued S p w now ttl),
      so_claim_run_by_id = (\<lambda>i p w now ttl. so_claim_run_by_id S i p w now ttl),
      so_claim_runs_by_ids = (\<lambda>ids p w now ttl. so_claim_runs_by_ids S ids p w now ttl),
      so_renew_run_lease = (\<lambda>i w now ttl. so_renew_run_lease S i w now ttl),
      so_reclaim_expired_run_leases = (\<lambda>now. so_reclaim_expired_run_leases S now),
      so_append_revision = (\<lambda>v. so_append_revision S v), so_list_revisions = (\<lambda>i. so_list_revisions S i),
      so_upsert_script = (\<lambda>sc. so_upsert_script S sc), so_get_script = (\<lambda>n. so_get_script S n),
      so_try_claim_run_once = (\<lambda>i who now ttl. so_try_claim_run_once S i who now ttl),
      so_mark_run_once_completed = (\<lambda>clk i t. so_mark_run_once_completed S clk i t),
      so_release_run_once_claim = (\<lambda>i who now. so_release_run_once_claim S i who now),
      so_find_due_job_ids_in_partitions = (\<lambda>clk owned due n. so_find_due_job_ids_in_partitions S clk owned due n),
      so_min_next_run_at_in_partitions = (\<lambda>owned. so_min_next_run_at_in_partitions S owned),
      so_claim_job_for_tick = (\<lambda>i cid now ttl. so_claim_job_for_tick S i cid now ttl),
      so_release_job_tick_claim = (\<lambda>clk i. so_release_job_tick_claim S clk i),
      so_persist_post_tick_job_state = (\<lambda>clk i t. so_persist_post_tick_job_state S clk i t),
      so_try_acquire_leader = (\<lambda>clk i ttl. so_try_acquire_leader S clk i ttl),
      so_renew_leader_lease = (\<lambda>clk i ttl. so_renew_leader_lease S clk i ttl), so_get_leader = so_get_leader S,
      so_upsert_partition_assignment = (\<lambda>a. so_upsert_partition_assignment S a),
      so_list_partition_assignments = so_list_partition_assignments S,
      so_register_worker = (\<lambda>w. so_register_worker S w), so_heartbeat_worker = (\<lambda>w t. so_heartbeat_worker S w t)\<rparr>"

lemma delegate_same: "delegate_ops S = S"
  by (simp add: delegate_ops_def)

section \<open>The schema lock\<close>

text \<open>Whether the session holds the lock after the given actions; \<open>None\<close> when it took a lock it had, released one
  it had not, or ran a statement of the schema without it.\<close>

fun locked :: "driver \<Rightarrow> conn_action list \<Rightarrow> conn_action list \<Rightarrow> bool \<Rightarrow> bool option" where
  "locked D h [] b = Some b"
| "locked D h (a # as) b =
     (case a of
        AdvisoryLock \<Rightarrow> if b then None else locked D (h @ [a]) as (D h a = None)
      | AdvisoryUnlock \<Rightarrow> if b then locked D (h @ [a]) as False else None
      | RunDdl d \<Rightarrow> if b then locked D (h @ [a]) as b else None
      | _ \<Rightarrow> locked D (h @ [a]) as b)"

definition schema_ddls :: "ddl list" where
  "schema_ddls = schema_table_ddls @ schema_index_ddls"

text \<open>What a bootstrap of the schema adds to a session.\<close>

definition bootstraps :: "driver \<Rightarrow> conn_action list \<Rightarrow> unit res option \<times> conn_action list \<Rightarrow> bool" where
  "bootstraps D h m =
     (\<exists>xs b. snd m = h @ xs \<and> (\<forall>q. Exec q \<notin> set xs) \<and> locked D h xs False = Some b \<and> (b \<longrightarrow> fst m = None) \<and>
        (fst m = Some (Inr ()) \<longrightarrow> xs = [Acquire, AdvisoryLock] @ map RunDdl schema_ddls @ [AdvisoryUnlock]))"

lemma run_ddls_append: "run_ddls D (xs @ ys) = and_then_act (run_ddls D xs) (\<lambda>_. run_ddls D ys)"
  by (induction xs) (auto simp: and_then_act_def done_with_def fun_eq_iff split: prod.splits option.splits sum.splits)

lemma run_ddls_tries:
  "\<exists>k \<le> length ds. snd (run_ddls D ds h) = h @ map RunDdl (take k ds) \<and>
     (fst (run_ddls D ds h) = Some (Inr ()) \<longrightarrow> k = length ds)"
proof (induction ds arbitrary: h)
  case Nil then show ?case by (simp add: done_with_def)
next
  case (Cons d ds)
  obtain k where k: "k \<le> length ds" "snd (run_ddls D ds (h @ [RunDdl d])) = (h @ [RunDdl d]) @ map RunDdl (take k ds)"
      "fst (run_ddls D ds (h @ [RunDdl d])) = Some (Inr ()) \<longrightarrow> k = length ds"
    using Cons.IH by blast
  show ?case
  proof (cases "D h (RunDdl d)")
    case None then show ?thesis using k by (intro exI[of _ "Suc k"]) (simp add: and_then_act_def act_def)
  next
    case (Some e) then show ?thesis
      by (intro exI[of _ 1]) (auto simp: and_then_act_def act_def split: option.splits)
  qed
qed

lemma locked_append: "locked D h (xs @ ys) b = Option.bind (locked D h xs b) (locked D (h @ xs) ys)"
  by (induction xs arbitrary: h b) (auto split: conn_action.splits)

lemma locked_ddls: "locked D h (map RunDdl ds) True = Some True"
  by (induction ds arbitrary: h) auto

lemma ensure_schema_bootstraps: "bootstraps D h (ensure_schema D Postgres h)"
proof -
  let ?h = "h @ [Acquire, AdvisoryLock]"
  obtain k where k: "k \<le> length schema_ddls" "snd (run_ddls D schema_ddls ?h) = ?h @ map RunDdl (take k schema_ddls)"
      "fst (run_ddls D schema_ddls ?h) = Some (Inr ()) \<longrightarrow> k = length schema_ddls"
    using run_ddls_tries[of schema_ddls D ?h] by blast
  have all: "ensure_schema_tables D = run_ddls D schema_ddls"
    by (simp add: ensure_schema_tables_def schema_ddls_def run_ddls_append)
  obtain r where r: "run_ddls D schema_ddls ?h = (r, ?h @ map RunDdl (take k schema_ddls))"
    using k(2) by (cases "run_ddls D schema_ddls ?h") simp
  consider (acquire) e where "D h Acquire = Some e"
    | (lock) e where "D h Acquire = None" "D (h @ [Acquire]) AdvisoryLock = Some e"
    | (held) "D h Acquire = None" "D (h @ [Acquire]) AdvisoryLock = None"
    by (cases "D h Acquire"; cases "D (h @ [Acquire]) AdvisoryLock") auto
  then show ?thesis
  proof cases
    case acquire
    then show ?thesis unfolding bootstraps_def
      by (intro exI[of _ "[Acquire]"] exI[of _ False])
        (auto simp: ensure_schema_def and_then_act_def act_def split: option.splits)
  next
    case lock
    then show ?thesis unfolding bootstraps_def
      by (intro exI[of _ "[Acquire, AdvisoryLock]"] exI[of _ False])
        (auto simp: ensure_schema_def and_then_act_def act_def split: option.splits)
  next
    case held
    define ds where "ds = take k schema_ddls"
    have ds: "r = Some (Inr ()) \<longrightarrow> ds = schema_ddls" using r k(3) by (simp add: ds_def)
    have run: "run_ddls D schema_ddls (h @ [Acquire, AdvisoryLock]) = (r, h @ [Acquire, AdvisoryLock] @ map RunDdl ds)"
      using r by (simp add: ds_def)
    have e: "ensure_schema D Postgres h =
        (case r of None \<Rightarrow> (None, h @ [Acquire, AdvisoryLock] @ map RunDdl ds)
         | Some v \<Rightarrow> (Some v, h @ [Acquire, AdvisoryLock] @ map RunDdl ds @ [AdvisoryUnlock]))"
      using held by (simp add: ensure_schema_def and_then_act_def act_def all run split: option.split)
    have l: "locked D h ([Acquire, AdvisoryLock] @ map RunDdl ds) False = Some True"
      using held by (simp add: locked_ddls)
    have u: "locked D h (([Acquire, AdvisoryLock] @ map RunDdl ds) @ [AdvisoryUnlock]) False = Some False"
      by (subst locked_append, subst l) simp
    show ?thesis
    proof (cases r)
      case None
      show ?thesis unfolding bootstraps_def
        by (rule exI[of _ "[Acquire, AdvisoryLock] @ map RunDdl ds"], rule exI[of _ True], simp only: l, simp add: e None image_iff)
    next
      case (Some v)
      show ?thesis unfolding bootstraps_def
        by (rule exI[of _ "([Acquire, AdvisoryLock] @ map RunDdl ds) @ [AdvisoryUnlock]"], rule exI[of _ False], simp only: u)
          (use ds Some in \<open>simp add: e image_iff\<close>)
    qed
  qed
qed

lemma locked_opens: "\<forall>a \<in> set xs. \<exists>u n p. a = OpenPostgres u n p \<or> (\<exists>q. a = Exec q) \<Longrightarrow> locked D h xs b = Some b"
  by (induction xs arbitrary: h) auto

lemma bootstraps_after:
  assumes "bootstraps D pre (r, h)" "\<forall>a \<in> set pre. (\<exists>u n p. a = OpenPostgres u n p) \<or> a \<in> Exec ` Q"
  shows "\<exists>b. locked D [] h False = Some b \<and> (b \<longrightarrow> r = None)" "{q. Exec q \<in> set h} \<subseteq> Q"
    "r = Some (Inr ()) \<Longrightarrow> h = pre @ [Acquire, AdvisoryLock] @ map RunDdl schema_ddls @ [AdvisoryUnlock]"
proof -
  from assms(1) obtain xs b where x: "h = pre @ xs" "\<forall>q. Exec q \<notin> set xs" "locked D pre xs False = Some b" "b \<longrightarrow> r = None"
      "r = Some (Inr ()) \<longrightarrow> xs = [Acquire, AdvisoryLock] @ map RunDdl schema_ddls @ [AdvisoryUnlock]"
    by (auto simp: bootstraps_def)
  have "locked D [] pre False = Some False" using assms(2) by (intro locked_opens) blast
  with x show "\<exists>b. locked D [] h False = Some b \<and> (b \<longrightarrow> r = None)" by (simp add: locked_append)
  show "{q. Exec q \<in> set h} \<subseteq> Q" using x(1,2) assms(2) by auto
  show "h = pre @ [Acquire, AdvisoryLock] @ map RunDdl schema_ddls @ [AdvisoryUnlock]" if "r = Some (Inr ())"
    using x(1,5) that by simp
qed

definition bootstrapped :: "conn_action list \<Rightarrow> bool" where
  "bootstrapped h = (\<exists>pre. h = pre @ [Acquire, AdvisoryLock] @ map RunDdl schema_ddls @ [AdvisoryUnlock])"

text \<open>What opening a PostgreSQL store does to a session, with the set of statements it may execute.\<close>

definition opens :: "driver \<Rightarrow> string set \<Rightarrow> bool \<Rightarrow> sql_dialect res option \<times> conn_action list \<Rightarrow> bool" where
  "opens D Q schema_too m =
     ((\<exists>b. locked D [] (snd m) False = Some b \<and> (b \<longrightarrow> fst m = None)) \<and> {q. Exec q \<in> set (snd m)} \<subseteq> Q \<and>
      (\<forall>d. fst m = Some (Inr d) \<longrightarrow> d = Postgres \<and> (schema_too \<longrightarrow> bootstrapped (snd m))))"

lemma ensure_schema_opens:
  assumes "\<forall>a \<in> set pre. (\<exists>u n p. a = OpenPostgres u n p) \<or> a \<in> Exec ` Q"
  shows "opens D Q True (and_then_act (ensure_schema D Postgres) (\<lambda>_. done_with (Inr Postgres)) pre)"
proof (cases "ensure_schema D Postgres pre")
  case (Pair r h)
  note after = bootstraps_after[OF ensure_schema_bootstraps[of D pre, unfolded Pair] assms]
  show ?thesis
    using after Pair by (auto simp: opens_def and_then_act_def done_with_def bootstrapped_def split: option.splits sum.splits)
qed

lemma failed_opens:
  assumes "\<forall>a \<in> set h. (\<exists>u n p. a = OpenPostgres u n p) \<or> a \<in> Exec ` Q" "\<forall>d. r \<noteq> Some (Inr d)"
  shows "opens D Q c (r, h)"
proof -
  have "locked D [] h False = Some False" using assms(1) by (intro locked_opens) blast
  then show ?thesis using assms by (auto simp: opens_def)
qed

lemma act_then_opens:
  assumes "\<forall>x \<in> set (h @ [a]). (\<exists>u n p. x = OpenPostgres u n p) \<or> x \<in> Exec ` Q" "opens D Q c (f () (h @ [a]))"
  shows "opens D Q c (and_then_act (act D e a) f h)"
  using assms failed_opens[OF assms(1), of None] failed_opens[OF assms(1), of "Some (Inl _)"]
  by (auto simp: and_then_act_def act_def split: option.splits)

lemma connect_postgres_opens: "opens D {} True (connect_postgres env D url [])"
  unfolding connect_postgres_def open_postgres_def by (intro act_then_opens ensure_schema_opens) auto

lemma isolated_opens:
  assumes "validate_postgres_schema_name schema = Inr ()"
  shows "opens D {create_schema_ddl schema} True (connect_postgres_isolated env D url schema [])"
    "opens D {} False (attach_postgres_isolated env D url schema [])"
proof -
  have skip: "and_then_act (done_with (Inr ())) f = f ()" for f :: "unit \<Rightarrow> 'a session"
    by (simp add: fun_eq_iff and_then_act_def done_with_def)
  show "opens D {create_schema_ddl schema} True (connect_postgres_isolated env D url schema [])"
    unfolding connect_postgres_isolated_def open_postgres_def assms skip
    by (intro act_then_opens ensure_schema_opens) auto
  show "opens D {} False (attach_postgres_isolated env D url schema [])"
    unfolding attach_postgres_isolated_def open_postgres_def assms skip
    by (intro act_then_opens) (auto simp: done_with_def opens_def)
qed

lemma isolated_invalid:
  assumes "validate_postgres_schema_name schema = Inl e"
  shows "connect_postgres_isolated env D url schema h = (Some (Inl e), h)"
    "attach_postgres_isolated env D url schema h = (Some (Inl e), h)"
    "drop_postgres_schema D url schema h = (Some (Inl e), h)"
  by (simp_all add: assms connect_postgres_isolated_def attach_postgres_isolated_def drop_postgres_schema_def
      and_then_act_def done_with_def)

text \<open>
  (C0) Opening the PostgreSQL store of the environment. A schema name that is not valid is refused before the
  driver is asked for anything, and the only statement outside the schema bootstrap is the creation of the
  validated schema. The statements of the bootstrap run only while the session holds the advisory lock, which
  is never taken twice; its release is issued on success and on every error (the answer to it is ignored), and
  only a panic of the error mapping skips it. A store that was opened without skipping the bootstrap has run every statement of the
  schema, tables before indexes.
\<close>
theorem postgres_open_locks_schema:
  assumes "postgres_store_from_env env D [] = (r, h)"
  shows "(\<forall>s e. env ''CHRONON_POSTGRES_SCHEMA'' = Some s \<and> validate_postgres_schema_name s = Inl e \<longrightarrow>
            r = Some (Inl e) \<and> h = []) \<and>
         {q. Exec q \<in> set h} \<subseteq> {create_schema_ddl s | s.
            env ''CHRONON_POSTGRES_SCHEMA'' = Some s \<and> validate_postgres_schema_name s = Inr ()} \<and>
         (\<exists>held. locked D [] h False = Some held \<and> (held \<longrightarrow> r = None)) \<and>
         (\<forall>d. r = Some (Inr d) \<longrightarrow> d = Postgres \<and>
           (env ''CHRONON_POSTGRES_SCHEMA'' = None \<or> env ''CHRONON_POSTGRES_SKIP_BOOTSTRAP'' = None \<longrightarrow>
              (\<exists>pre. h = pre @ [Acquire, AdvisoryLock] @ map RunDdl (schema_table_ddls @ schema_index_ddls) @ [AdvisoryUnlock])))"
proof -
  let ?s = "env ''CHRONON_POSTGRES_SCHEMA''" and ?skip = "env ''CHRONON_POSTGRES_SKIP_BOOTSTRAP''"
  let ?Q = "{create_schema_ddl s | s. ?s = Some s \<and> validate_postgres_schema_name s = Inr ()}"
  have invalid: "r = Some (Inl e) \<and> h = []" if "?s = Some s" "validate_postgres_schema_name s = Inl e" for s e
    using assms that by (auto simp: postgres_store_from_env_def Let_def isolated_invalid split: if_splits)
  have "opens D ?Q (?s = None \<or> ?skip = None) (r, h)"
  proof (cases ?s)
    case None
    with assms connect_postgres_opens[of D env "postgres_test_url env"] show ?thesis
      by (simp add: postgres_store_from_env_def Let_def)
  next
    case (Some s)
    show ?thesis
    proof (cases "validate_postgres_schema_name s")
      case (Inl e) with invalid[OF Some Inl] show ?thesis by (simp add: failed_opens)
    next
      case (Inr u)
      then have v: "validate_postgres_schema_name s = Inr ()" by simp
      from isolated_opens[OF v, of D env "postgres_test_url env"] assms Some v show ?thesis
        by (auto simp: postgres_store_from_env_def Let_def opens_def split: if_splits)
    qed
  qed
  then show ?thesis using invalid by (auto simp: opens_def bootstrapped_def schema_ddls_def)
qed

definition full_disk :: driver where
  "full_disk h a = (if a = RunDdl (CreateIndex ''chronon_run_job_id'') then Some ''disk full'' else None)"

definition schema_env :: "string \<Rightarrow> string option" where
  "schema_env = [''CHRONON_POSTGRES_SCHEMA'' \<mapsto> ''chronon_it'']"

theorem postgres_open_locks_schema_witness:
  "(\<exists>e. fst (postgres_store_from_env schema_env full_disk []) = Some (Inl e)) \<and>
   AdvisoryLock \<in> set (snd (postgres_store_from_env schema_env full_disk [])) \<and>
   locked full_disk [] (snd (postgres_store_from_env schema_env full_disk [])) False = Some False"
proof -
  let ?S = "postgres_store_from_env schema_env full_disk []"
  have "case fst ?S of Some (Inl e) \<Rightarrow> AdvisoryLock \<in> set (snd ?S) | _ \<Rightarrow> False" by code_simp
  then obtain e where e: "fst ?S = Some (Inl e)" "AdvisoryLock \<in> set (snd ?S)"
    by (auto split: option.splits sum.splits)
  then show ?thesis
    using postgres_open_locks_schema[of schema_env full_disk "fst ?S" "snd ?S", OF surjective_pairing] by auto
qed

end
