(* ===== verification/Spec2Isabelle.thy ===== *)
theory Spec2Isabelle
  imports Http_Props Job_Builder Redis_Contract Remote_Client Runtime Sql_Connect
begin

text \<open>
  Chronon is a job scheduler: jobs (cron, run-once or manual) live in a store, a coordinator turns
  due jobs into queued runs, workers claim runs and execute the script of the job, and an HTTP API
  administers jobs. Several processes share one store; leases decide who may tick a partition, who
  leads, and who executes a run.

  \<^bold>\<open>The parts and their theories.\<close>

  \<^item> \<^verbatim>\<open>Prelude\<close>, \<^verbatim>\<open>Rust_Str\<close>, \<^verbatim>\<open>F64\<close>: instants and durations (nanoseconds, truncating readings), casts and
    saturation of machine integers, hash maps as association lists in iteration order, UTF-8 strings
    as byte lists whose slicing can panic, doubles as far as the back-off needs them. Asynchronous
    code is a state-monad program over a \<open>world\<close>: the clock as the sequence of its readings, the UUID
    generator, the environment, the telemetry emitted, the sleeps taken, and the store.
  \<^item> \<^verbatim>\<open>Core_Models\<close> (\<^verbatim>\<open>chronon-core/src/models\<close>, \<^verbatim>\<open>error.rs\<close>, \<^verbatim>\<open>handle.rs\<close>): jobs, runs, revisions, workers, leader and
    partition rows, retry and misfire policies with their security bounds. \<^verbatim>\<open>Redaction\<close> (\<^verbatim>\<open>redact.rs\<close>,
    \<^verbatim>\<open>sanitize.rs\<close>): removal of credentials from texts. \<^verbatim>\<open>Sample\<close>: the concrete values of the witnesses.
  \<^item> \<^verbatim>\<open>Store_Port\<close> (\<^verbatim>\<open>store.rs\<close>): the \<^verbatim>\<open>SchedulerStore\<close> trait as a record of operations with its default
    methods, and its contracts as locales (job table, run table, run claims, coordinator claims, due
    queries, partition rows, leader row, revision log). The clients are proved inside the locales.
  \<^item> \<^verbatim>\<open>Mem_Store\<close>, \<^verbatim>\<open>Mem_Facts\<close>, \<^verbatim>\<open>Mem_Props\<close> (\<^verbatim>\<open>chronon-backend-mem\<close>): the in-memory backend, every operation
    as a function on the record of its maps, its invariant over all reachable states, and the
    interpretation of every locale of the port. A lock is held for the whole of one operation, so an
    operation is one step and the concurrency of the system is the interleaving of operations.
  \<^item> \<^verbatim>\<open>Partitioning\<close> (\<^verbatim>\<open>cron.rs\<close>, \<^verbatim>\<open>env.rs\<close>, \<^verbatim>\<open>partitioning.rs\<close>), \<^verbatim>\<open>Assigner\<close> (\<^verbatim>\<open>partition_assigner.rs\<close>),
    \<^verbatim>\<open>Leader\<close> and \<^verbatim>\<open>Election\<close> (\<^verbatim>\<open>leader.rs\<close>), \<^verbatim>\<open>Tick\<close>, \<^verbatim>\<open>Tick_Facts\<close> and \<^verbatim>\<open>Tick_Props\<close> (\<^verbatim>\<open>tick_loop.rs\<close>, \<^verbatim>\<open>tick.rs\<close>),
    \<^verbatim>\<open>Job_Builder\<close> (\<^verbatim>\<open>job_builder.rs\<close>): the scheduler. An elector is process code and also a phase of an
    abstract cluster; the first is shown to run along the second.
  \<^item> \<^verbatim>\<open>Log_Capture\<close> (\<^verbatim>\<open>chronon-telemetry\<close>): capture of a script's tracing events within a byte budget, and
    the telemetry sinks. \<^verbatim>\<open>Executor\<close> (\<^verbatim>\<open>chronon-executor\<close>, \<^verbatim>\<open>context.rs\<close>): the script registry, fail-closed
    invocation, dispatch of runs with its events, and the run slots as a step relation.
  \<^item> \<^verbatim>\<open>Lifecycle\<close>, \<^verbatim>\<open>Lifecycle_Props\<close> (\<^verbatim>\<open>retry.rs\<close>, \<^verbatim>\<open>events.rs\<close>): the event handler and the end of a failed run.
    \<^verbatim>\<open>Worker\<close>, \<^verbatim>\<open>Worker_Props\<close> (\<^verbatim>\<open>worker.rs\<close>, \<^verbatim>\<open>reclaim.rs\<close>): the worker slot, lease renewal, reclaiming, heartbeat.
  \<^item> \<^verbatim>\<open>Coordinator_Service\<close>, \<^verbatim>\<open>Service_Props\<close> (\<^verbatim>\<open>coordinator_service.rs\<close>), \<^verbatim>\<open>Http_Api\<close>, \<^verbatim>\<open>Http_Props\<close> (\<^verbatim>\<open>chronon-axum\<close>,
    \<^verbatim>\<open>actor_policy.rs\<close>): administration of jobs, in process and over HTTP.

  \<^bold>\<open>What is shown.\<close> For the store: the invariant of the name index, exclusive claims under any
  interleaving, exact due queries and reclaiming, read-back of writes. For the scheduler: a single
  live leader, partition rows never taken from a live owner, the decision table of a due job as a
  refinement, at most one run of a run-once job, ticks that only add runs of due jobs, bounded
  sleeps. For the runtime: rows that move only along the life cycle, one retry per failure within a
  bounded chain, progress of a worker, bounded concurrency, fail-closed invocation. For the
  interfaces: the outcome of every service operation that writes, fail-closed authentication,
  confinement of external upserts, redaction. The theorems of kind \<^emph>\<open>error\<close> establish behaviour that the code
  or its documentation does not intend.

  \<^bold>\<open>Loops and fuel.\<close> No definition uses fuel. A loop that runs until a shutdown is a function of the
  list of what it observes (interval firings, received events, handler outcomes), so each theorem
  about it holds for every length of run; loops over data are structural recursion.

  \<^bold>\<open>Parameters.\<close> croner, chrono-tz, xxhash, serde and the power function of \<^verbatim>\<open>f64\<close> are the fields of the
  record \<open>ext\<close>; scripts, context factories and admin verifiers are functions. Hypotheses on them are
  named (\<open>retry_codec_ok\<close>, \<open>job_codec_total\<close>: the codecs of the policies and of a job) and each has a witness.

  \<^bold>\<open>Not modelled.\<close> The SQL backends and the Redis queue (the semantics of the SQL and Lua texts is outside
  the Rust code), the HTTP client, the proc-macros, runtime assembly, benches, test kit, end-to-end
  tests and examples. Tracing output outside a capture, panics of instant arithmetic beyond the range
  of chrono, and the cancellation of a started tick by the shutdown are left out of the modelled parts.
\<close>

section \<open>From a due job to an ended run, through SQL\<close>

lemma sql_finite_job_runs: "finite (job_runs (sql_runs E db) i)"
proof -
  have "job_runs (sql_runs E db) i \<subseteq> (\<lambda>(k, row). projr (row_to_run (e_codec E) row)) ` set (t_run db)"
    by (auto simp: job_runs_def sql_runs_def dest: map_of_SomeD intro: rev_image_eqI)
  then show ?thesis by (rule finite_subset) simp
qed


lemma due_db_fires:
  "tick_decide sql_once_free sample_ext ''c1'' 100 0 due_job = Fire" "fire_time due_job t = 50"
  "job_execution_pool_id due_job = ''general''" "j_script_name due_job = ''cleanup''"
  by (simp_all add: tick_decide_def tick_claimable_def due_job_def sample_job_def job_new_def fire_time_def
      should_enqueue_for_misfire_def job_misfire_policy_def sample_ext_def misfire_policy_default_def
      job_execution_pool_id_def)


end
